(* ===== verification/Prelude.thy ===== *)
theory Prelude
  imports Main "HOL-Library.Word"
begin

text \<open>
  Shared vocabulary of the development: Go errors and results, the sequencing of fallible
  calls, left-to-right loops that stop at the first error, and generic lemmas on lists and
  association lists that every component uses.

  A Go function returning \<open>(T, error)\<close> is a HOL function into \<open>T result\<close>: \<open>Ok v\<close> for
  \<open>(v, nil)\<close>, \<open>Err e\<close> for a non-nil error, and \<open>Panic m\<close> for a run-time panic (failed type
  assertion, index out of range, nil dereference), which unwinds the whole call.
\<close>

section \<open>Errors and results\<close>

text \<open>
  \<open>Errorf f xs\<close> is the error made by \<open>errors.New\<close> or \<open>fmt.Errorf\<close> with format \<open>f\<close>, where
  \<open>xs\<close> are the textual arguments; \<open>Wrapf f xs e\<close> is one that wraps the error \<open>e\<close> (\<open>%w\<close> or a
  trailing \<open>%v\<close> of an error); \<open>ExtError m\<close> is an error made by a third-party package and
  \<open>Joinedf f es\<close> one that prints several errors.
\<close>

datatype error =
    Errorf string "string list"
  | Wrapf string "string list" error
  | ExtError string
  | Joinedf string "error list"

datatype 'a result = Ok 'a | Err error | Panic string

fun rbind :: "'a result \<Rightarrow> ('a \<Rightarrow> 'b result) \<Rightarrow> 'b result" where
  "rbind (Ok x) f = f x"
| "rbind (Err e) f = Err e"
| "rbind (Panic m) f = Panic m"

fun rmap :: "('a \<Rightarrow> 'b) \<Rightarrow> 'a result \<Rightarrow> 'b result" where
  "rmap f (Ok x) = Ok (f x)"
| "rmap f (Err e) = Err e"
| "rmap f (Panic m) = Panic m"

text \<open>\<open>wrap_err f xs r\<close>: \<open>if err != nil { return fmt.Errorf(f, xs..., err) }\<close>.\<close>

fun wrap_err :: "string \<Rightarrow> string list \<Rightarrow> 'a result \<Rightarrow> 'a result" where
  "wrap_err f xs (Ok x) = Ok x"
| "wrap_err f xs (Err e) = Err (Wrapf f xs e)"
| "wrap_err f xs (Panic m) = Panic m"

fun is_ok :: "'a result \<Rightarrow> bool" where
  "is_ok (Ok x) = True"
| "is_ok (Err e) = False"
| "is_ok (Panic m) = False"

text \<open>Panics the Go runtime raises.\<close>

definition index_panic :: "'a result" where
  "index_panic = Panic ''index out of range''"

definition nil_panic :: "'a result" where
  "nil_panic = Panic ''nil pointer dereference''"

definition assert_panic :: "'a result" where
  "assert_panic = Panic ''interface conversion''"

named_theorems result_cases
  "inversion of compound results"

lemma rbind_Ok_iff [result_cases]: "rbind r f = Ok y \<longleftrightarrow> (\<exists>x. r = Ok x \<and> f x = Ok y)"
  by (cases r) auto

lemma rbind_Panic_iff [result_cases]:
  "rbind r f = Panic m \<longleftrightarrow> r = Panic m \<or> (\<exists>x. r = Ok x \<and> f x = Panic m)"
  by (cases r) auto

lemma rmap_Panic_iff [result_cases]: "rmap f r = Panic m \<longleftrightarrow> r = Panic m"
  by (cases r) auto

lemma rmap_Ok_iff [result_cases]: "rmap f r = Ok y \<longleftrightarrow> (\<exists>x. r = Ok x \<and> y = f x)"
  by (cases r) auto

lemma wrap_err_Ok_iff [result_cases]: "wrap_err f xs r = Ok y \<longleftrightarrow> r = Ok y"
  by (cases r) auto

lemma wrap_err_Panic_iff [result_cases]: "wrap_err f xs r = Panic m \<longleftrightarrow> r = Panic m"
  by (cases r) auto

lemma is_ok_iff [result_cases]: "is_ok r \<longleftrightarrow> (\<exists>x. r = Ok x)"
  by (cases r) auto

lemma panic_not_ok [simp]:
  "index_panic \<noteq> Ok x" "nil_panic \<noteq> Ok x" "assert_panic \<noteq> Ok x"
  "index_panic \<noteq> Err e" "nil_panic \<noteq> Err e" "assert_panic \<noteq> Err e"
  by (simp_all add: index_panic_def nil_panic_def assert_panic_def)

text \<open>The answer \<open>(T, error)\<close> of a call into a third-party package, which does not panic.\<close>

type_synonym 'a answer = "error + 'a"

definition of_answer :: "'a answer \<Rightarrow> 'a result" where
  "of_answer a = (case a of Inl e \<Rightarrow> Err e | Inr x \<Rightarrow> Ok x)"

lemma of_answer_simps [simp]: "of_answer (Inl e) = Err e" "of_answer (Inr x) = Ok x"
  by (simp_all add: of_answer_def)

lemma of_answer_iff [result_cases]:
  "of_answer a = Ok x \<longleftrightarrow> a = Inr x" "of_answer a = Err e \<longleftrightarrow> a = Inl e" "of_answer a \<noteq> Panic m"
  by (cases a; simp)+

section \<open>No nil dereference\<close>

text \<open>\<open>no_nil r\<close>: the call did not end in a nil dereference; the other panics are not excluded.\<close>

definition nil_message :: string where
  "nil_message = ''nil pointer dereference''"

definition no_nil :: "'a result \<Rightarrow> bool" where
  "no_nil r \<longleftrightarrow> r \<noteq> Panic nil_message"

lemma no_nil_simps [simp]:
  "no_nil (Ok x)" "no_nil (Err e)" "no_nil (Panic m) \<longleftrightarrow> m \<noteq> nil_message"
  "no_nil index_panic" "no_nil assert_panic" "\<not> no_nil nil_panic"
  by (simp_all add: no_nil_def index_panic_def assert_panic_def nil_panic_def nil_message_def)

lemma no_nil_total: "(\<And>m. r \<noteq> Panic m) \<Longrightarrow> no_nil r"
  by (simp add: no_nil_def)

lemma no_nil_rbind: "no_nil r \<Longrightarrow> (\<And>x. r = Ok x \<Longrightarrow> no_nil (f x)) \<Longrightarrow> no_nil (rbind r f)"
  by (cases r) auto

lemma no_nil_rmap [simp]: "no_nil (rmap f r) \<longleftrightarrow> no_nil r"
  by (cases r) auto

lemma no_nil_wrap [simp]: "no_nil (wrap_err f xs r) \<longleftrightarrow> no_nil r"
  by (cases r) auto

lemma no_nil_not_panic [simp]: "no_nil r \<Longrightarrow> r \<noteq> Panic nil_message"
  by (simp add: no_nil_def)

lemma no_nil_case: "r = Panic m \<Longrightarrow> no_nil r \<Longrightarrow> m \<noteq> nil_message"
  by simp

lemma of_answer_no_nil [simp]: "no_nil (of_answer a)"
  by (rule no_nil_total) (simp add: of_answer_iff)

section \<open>Loops that stop at the first error\<close>

text \<open>\<open>traverse f xs\<close> is \<open>for _, x := range xs { y, err := f(x); if err != nil { return err }; ys = append(ys, y) }\<close>.\<close>

fun traverse :: "('a \<Rightarrow> 'b result) \<Rightarrow> 'a list \<Rightarrow> 'b list result" where
  "traverse f [] = Ok []"
| "traverse f (x # xs) = rbind (f x) (\<lambda>y. rbind (traverse f xs) (\<lambda>ys. Ok (y # ys)))"

lemma traverse_Ok_iff [result_cases]:
  "traverse f xs = Ok ys \<longleftrightarrow> list_all2 (\<lambda>x y. f x = Ok y) xs ys"
proof (induction xs arbitrary: ys)
  case Nil
  then show ?case by auto
next
  case (Cons x xs)
  then show ?case by (cases ys) (auto simp: rbind_Ok_iff list_all2_Cons1)
qed

lemma traverse_length: "traverse f xs = Ok ys \<Longrightarrow> length ys = length xs"
  by (auto simp: traverse_Ok_iff dest: list_all2_lengthD)

lemma traverse_map_Ok: "(\<And>x. x \<in> set xs \<Longrightarrow> f x = Ok (g x)) \<Longrightarrow> traverse f xs = Ok (map g xs)"
  by (induction xs) auto

lemma traverse_first_error:
  "traverse f xs = Ok ys \<Longrightarrow> f x = Err e \<Longrightarrow> traverse f (xs @ x # zs) = Err e"
  by (induction xs arbitrary: ys) (auto simp: rbind_Ok_iff)

lemma no_nil_traverse: "(\<And>x. x \<in> set xs \<Longrightarrow> no_nil (f x)) \<Longrightarrow> no_nil (traverse f xs)"
  by (induction xs) (auto intro!: no_nil_rbind)

section \<open>Association lists as the iteration order of a Go map\<close>

text \<open>
  A Go map that the code ranges over is a list of key/value pairs with distinct keys: the list
  is the (unspecified) order in which the iteration visits the entries. Whatever is proved for
  every such list holds for every iteration order.
\<close>

definition map_entries :: "('k \<times> 'v) list \<Rightarrow> bool" where
  "map_entries xs \<longleftrightarrow> distinct (map fst xs)"

lemma map_entries_simps [simp]:
  "map_entries []"
  "map_entries ((k, v) # xs) \<longleftrightarrow> k \<notin> fst ` set xs \<and> map_entries xs"
  by (auto simp: map_entries_def)

lemma map_of_reorder:
  assumes "map_entries xs" and "map_entries ys" and "set xs = set ys"
  shows "map_of xs = map_of ys"
  using assms by (simp add: map_entries_def map_of_inject_set)

end
