(* ===== verification/GoFloat.thy ===== *)
theory GoFloat
  imports Prelude
begin

text \<open>
  Go's \<open>float64\<close> and \<open>float32\<close> as IEEE 754 bit patterns, with the operations the adapters use:
  conversion from and to integers, conversion between the two widths, comparison with zero and
  the \<open>%.0f\<close> format. Everything is computed on integers; rounding is to nearest, ties to even,
  as the Go specification requires. What Go leaves to the implementation (the result of
  converting a float that does not fit the target integer type, and the digits chosen by the
  shortest-representation formats) is a field of \<open>go_impl\<close>, an argument of the definitions
  that depend on it.
\<close>

section \<open>Bit patterns and the values they denote\<close>

type_synonym float64 = "64 word"
type_synonym float32 = "32 word"

text \<open>\<open>Fin s m e\<close> denotes \<open>(-1)^s * m * 2^e\<close>.\<close>

datatype fval = NaN | Inf bool | Fin bool nat int

text \<open>\<open>t\<close> fraction bits and \<open>w\<close> exponent bits.\<close>

definition fmin_exp :: "nat \<Rightarrow> nat \<Rightarrow> int" where
  "fmin_exp t w = 2 - 2 ^ (w - 1) - int t"

definition decode_float :: "nat \<Rightarrow> nat \<Rightarrow> nat \<Rightarrow> fval" where
  "decode_float t w b =
     (let f = b mod 2 ^ t; x = (b div 2 ^ t) mod 2 ^ w; s = odd (b div 2 ^ (t + w))
      in if x = 2 ^ w - 1 then (if f = 0 then Inf s else NaN)
         else if x = 0 then Fin s f (fmin_exp t w)
         else Fin s (f + 2 ^ t) (fmin_exp t w + int x - 1))"

fun bitlen :: "nat \<Rightarrow> nat" where
  "bitlen n = (if n = 0 then 0 else Suc (bitlen (n div 2)))"

declare bitlen.simps [simp del]

text \<open>Drop the \<open>k\<close> low bits of \<open>m\<close>, rounding to nearest, ties to even.\<close>

definition rshift_even :: "nat \<Rightarrow> nat \<Rightarrow> nat" where
  "rshift_even m k =
     (let q = m div 2 ^ k; r = m mod 2 ^ k
      in if 2 ^ k < 2 * r \<or> (2 ^ k = 2 * r \<and> odd q) then q + 1 else q)"

text \<open>
  The pattern closest to \<open>(-1)^s * m * 2^e\<close>: the significand is scaled to \<open>t + 1\<close> bits (or to the
  smallest exponent), rounded, and a magnitude beyond the largest finite value gives infinity.
\<close>

definition encode_float :: "nat \<Rightarrow> nat \<Rightarrow> bool \<Rightarrow> nat \<Rightarrow> int \<Rightarrow> nat" where
  "encode_float t w s m e =
     (let x = max (fmin_exp t w) (e + int (bitlen m) - int (t + 1));
          n = (if x \<le> e then m * 2 ^ nat (e - x) else rshift_even m (nat (x - e)));
          b = (if m = 0 then 0
               else min (nat (x - fmin_exp t w) * 2 ^ t + n) ((2 ^ w - 1) * 2 ^ t))
      in (if s then 2 ^ (t + w) else 0) + b)"

definition f64_val :: "float64 \<Rightarrow> fval" where
  "f64_val f = decode_float 52 11 (unat f)"

definition f32_val :: "float32 \<Rightarrow> fval" where
  "f32_val f = decode_float 23 8 (unat f)"

section \<open>Conversions\<close>

text \<open>\<open>float64(i)\<close> for an integer \<open>i\<close> of any type.\<close>

definition f64_of_int :: "int \<Rightarrow> float64" where
  "f64_of_int i = word_of_nat (encode_float 52 11 (i < 0) (nat \<bar>i\<bar>) 0)"

definition f64_nan :: float64 where "f64_nan = 0x7FF8000000000001"
definition f32_nan :: float32 where "f32_nan = 0x7FC00000"

definition f64_of_f32 :: "float32 \<Rightarrow> float64" where
  "f64_of_f32 f = (case f32_val f of
       NaN \<Rightarrow> f64_nan
     | Inf s \<Rightarrow> (if s then 0xFFF0000000000000 else 0x7FF0000000000000)
     | Fin s m e \<Rightarrow> word_of_nat (encode_float 52 11 s m e))"

definition f32_of_f64 :: "float64 \<Rightarrow> float32" where
  "f32_of_f64 f = (case f64_val f of
       NaN \<Rightarrow> f32_nan
     | Inf s \<Rightarrow> (if s then 0xFF800000 else 0x7F800000)
     | Fin s m e \<Rightarrow> word_of_nat (encode_float 23 8 s m e))"

text \<open>The integer part, rounded towards zero; \<open>None\<close> for NaN and the infinities.\<close>

fun fval_trunc :: "fval \<Rightarrow> int option" where
  "fval_trunc NaN = None"
| "fval_trunc (Inf s) = None"
| "fval_trunc (Fin s m e) =
     (let a = (if 0 \<le> e then m * 2 ^ nat e else m div 2 ^ nat (- e))
      in Some (if s then - int a else int a))"

definition f64_trunc :: "float64 \<Rightarrow> int option" where
  "f64_trunc f = fval_trunc (f64_val f)"

definition f32_trunc :: "float32 \<Rightarrow> int option" where
  "f32_trunc f = fval_trunc (f32_val f)"

record go_impl =
  impl_conv :: "nat \<Rightarrow> bool \<Rightarrow> fval \<Rightarrow> int"
    \<comment> \<open>bits and signedness of the target type, and a value that does not fit it\<close>
  impl_fmt64 :: "float64 \<Rightarrow> string"
    \<comment> \<open>\<open>%v\<close> of a float64\<close>
  impl_fmt32 :: "float32 \<Rightarrow> string"
    \<comment> \<open>\<open>%v\<close> of a float32\<close>
  impl_json64 :: "float64 \<Rightarrow> string"
    \<comment> \<open>the JSON text of a finite float64\<close>
  impl_json32 :: "float32 \<Rightarrow> string"
    \<comment> \<open>the JSON text of a finite float32\<close>
  impl_json_other :: "string \<Rightarrow> string \<Rightarrow> string answer"
    \<comment> \<open>the JSON text of a value of another type (its name and its print)\<close>

text \<open>
  \<open>uintN(f)\<close> and \<open>intN(f)\<close>: the fraction is discarded; where the integer does not fit, the
  result is the implementation's.
\<close>

definition fval_to_uint :: "go_impl \<Rightarrow> fval \<Rightarrow> 'n::len word" where
  "fval_to_uint I v = word_of_int (case fval_trunc v of
       Some i \<Rightarrow> if 0 \<le> i \<and> i < 2 ^ LENGTH('n) then i else impl_conv I LENGTH('n) False v
     | None \<Rightarrow> impl_conv I LENGTH('n) False v)"

definition fval_to_sint :: "go_impl \<Rightarrow> fval \<Rightarrow> 'n::len word" where
  "fval_to_sint I v = word_of_int (case fval_trunc v of
       Some i \<Rightarrow> if - (2 ^ (LENGTH('n) - 1)) \<le> i \<and> i < 2 ^ (LENGTH('n) - 1) then i
                 else impl_conv I LENGTH('n) True v
     | None \<Rightarrow> impl_conv I LENGTH('n) True v)"

fun fval_neg :: "fval \<Rightarrow> bool" where \<comment> \<open>\<open>v < 0\<close>\<close>
  "fval_neg NaN = False"
| "fval_neg (Inf s) = s"
| "fval_neg (Fin s m e) = (s \<and> m \<noteq> 0)"

fun fval_nonneg :: "fval \<Rightarrow> bool" where \<comment> \<open>\<open>v >= 0\<close>\<close>
  "fval_nonneg NaN = False"
| "fval_nonneg (Inf s) = (\<not> s)"
| "fval_nonneg (Fin s m e) = (\<not> s \<or> m = 0)"

fun fval_nonzero :: "fval \<Rightarrow> bool" where \<comment> \<open>\<open>v != 0\<close>\<close>
  "fval_nonzero NaN = True"
| "fval_nonzero (Inf s) = True"
| "fval_nonzero (Fin s m e) = (m \<noteq> 0)"

text \<open>The rounding of the \<open>%.0f\<close> format: to the nearest integer, ties to even.\<close>

fun fval_round :: "fval \<Rightarrow> (bool \<times> nat) option" where
  "fval_round NaN = None"
| "fval_round (Inf s) = None"
| "fval_round (Fin s m e) = Some (s, if 0 \<le> e then m * 2 ^ nat e else rshift_even m (nat (- e)))"

section \<open>Integers survive the round trip through float64\<close>

lemma bitlen_0 [simp]: "bitlen 0 = 0"
  by (simp add: bitlen.simps)

lemma bitlen_1 [simp]: "bitlen (Suc 0) = 1"
  by (simp add: bitlen.simps)

lemma bitlen_pos: "0 < n \<Longrightarrow> bitlen n = Suc (bitlen (n div 2))"
  by (simp add: bitlen.simps)

lemma bitlen_bounds: "0 < n \<Longrightarrow> 2 ^ (bitlen n - 1) \<le> n \<and> n < 2 ^ bitlen n"
proof (induction n rule: less_induct)
  case (less n)
  show ?case
  proof (cases "n = 1")
    case True
    then show ?thesis by simp
  next
    case False
    with less.prems have "0 < n div 2" "n div 2 < n" by auto
    with less.IH have IH: "2 ^ (bitlen (n div 2) - 1) \<le> n div 2" "n div 2 < 2 ^ bitlen (n div 2)"
      by blast+
    from \<open>0 < n div 2\<close> have "bitlen (n div 2) = Suc (bitlen (n div 2) - 1)"
      by (simp add: bitlen_pos)
    with IH have "2 ^ bitlen (n div 2) \<le> 2 * (n div 2)" by (metis mult_le_mono2 power_Suc)
    moreover have "2 * (n div 2) \<le> n" by simp
    moreover have "n < 2 * 2 ^ bitlen (n div 2)" using IH(2) by linarith
    ultimately show ?thesis using less.prems by (simp add: bitlen_pos [of n])
  qed
qed

lemma bitlen_le: "n < 2 ^ k \<Longrightarrow> bitlen n \<le> k"
proof (rule ccontr)
  assume "n < 2 ^ k" and "\<not> bitlen n \<le> k"
  then have "0 < n" by (cases "n = 0") auto
  then have "2 ^ (bitlen n - 1) \<le> n" using bitlen_bounds by blast
  moreover have "(2::nat) ^ k \<le> 2 ^ (bitlen n - 1)"
    using \<open>\<not> bitlen n \<le> k\<close> by (intro power_increasing) auto
  ultimately show False using \<open>n < 2 ^ k\<close> by linarith
qed

text \<open>A pattern assembled from a sign, a biased exponent and a fraction is taken apart again.\<close>

lemma decode_assembled:
  assumes "f < 2 ^ t" and "0 < x" and "x < 2 ^ w - 1"
  shows "decode_float t w ((if s then 2 ^ (t + w) else 0) + (x * 2 ^ t + f)) =
         Fin s (f + 2 ^ t) (fmin_exp t w + int x - 1)"
proof -
  define b :: nat where "b = (if s then 2 ^ (t + w) else 0) + (x * 2 ^ t + f)"
  have b: "b = ((if s then 2 ^ w else 0) + x) * 2 ^ t + f"
    by (simp add: b_def power_add add_mult_distrib)
  have low: "b mod 2 ^ t = f" using assms(1) by (simp add: b)
  have high: "b div 2 ^ t = (if s then 2 ^ w else 0) + x" using assms(1) by (simp add: b)
  have xw: "x < 2 ^ w" using assms(3) by simp
  have "b div 2 ^ (t + w) = b div 2 ^ t div 2 ^ w" by (simp add: power_add div_mult2_eq)
  also have "\<dots> = (if s then 1 else 0)" using xw by (simp add: high div_add_self1)
  finally have sign: "b div 2 ^ (t + w) = (if s then 1 else 0)" .
  have "b div 2 ^ t mod 2 ^ w = x" using xw by (simp add: high)
  then show ?thesis
    unfolding b_def [symmetric] decode_float_def Let_def using assms(2,3)
    by (simp add: low sign)
qed

lemma bitlen_unique: "0 < n \<Longrightarrow> 2 ^ k \<le> n \<Longrightarrow> n < 2 ^ Suc k \<Longrightarrow> bitlen n = Suc k"
proof (rule order.antisym)
  assume n: "0 < n" "2 ^ k \<le> n" "n < 2 ^ Suc k"
  show "bitlen n \<le> Suc k" using n(3) by (rule bitlen_le)
  have "n < 2 ^ bitlen n" using bitlen_bounds [OF n(1)] by blast
  with n(2) have "(2::nat) ^ k < 2 ^ bitlen n" by (rule le_less_trans)
  then show "Suc k \<le> bitlen n" by simp
qed

text \<open>A significand scaled by a power of two is the same value.\<close>

lemma bitlen_double: "0 < m \<Longrightarrow> bitlen (m * 2 ^ k) = bitlen m + k"
proof (induction k)
  case (Suc k)
  have "bitlen (m * 2 ^ Suc k) = Suc (bitlen (m * 2 ^ Suc k div 2))" using Suc.prems by (intro bitlen_pos) simp
  then show ?case using Suc by simp
qed simp

lemma rshift_even_scale: "rshift_even (m * 2 ^ k) (a + k) = rshift_even m a"
proof -
  have "m * 2 ^ k div 2 ^ (a + k) = m div 2 ^ a" by (simp add: power_add)
  moreover have "m * 2 ^ k mod 2 ^ (a + k) = m mod 2 ^ a * 2 ^ k" by (simp add: power_add mod_mult_mult2)
  ultimately show ?thesis by (simp add: rshift_even_def Let_def power_add)
qed

lemma rshift_even_exact: "a \<le> k \<Longrightarrow> rshift_even (m * 2 ^ k) a = m * 2 ^ (k - a)"
  using rshift_even_scale [of "m * 2 ^ (k - a)" a 0]
  by (simp add: rshift_even_def mult.assoc flip: power_add)

lemma encode_float_scale: "encode_float t w s (m * 2 ^ k) (e - int k) = encode_float t w s m e"
proof (cases "m = 0")
  case False
  then have L: "bitlen (m * 2 ^ k) = bitlen m + k" by (simp add: bitlen_double)
  define x where "x = max (fmin_exp t w) (e + int (bitlen m) - int (t + 1))"
  have x: "max (fmin_exp t w) (e - int k + int (bitlen (m * 2 ^ k)) - int (t + 1)) = x" by (simp add: x_def L)
  have "(if x \<le> e - int k then m * 2 ^ k * 2 ^ nat (e - int k - x) else rshift_even (m * 2 ^ k) (nat (x - (e - int k)))) =
      (if x \<le> e then m * 2 ^ nat (e - x) else rshift_even m (nat (x - e)))"
  proof -
    consider "x \<le> e - int k" | "e - int k < x" "x \<le> e" | "e < x" by linarith
    then show ?thesis
    proof cases
      case 1
      then have "nat (e - x) = k + nat (e - int k - x)" by linarith
      then show ?thesis using 1 by (simp add: power_add)
    next
      case 2
      then have "nat (x - (e - int k)) \<le> k" "k - nat (x - (e - int k)) = nat (e - x)" by linarith+
      then show ?thesis using 2 by (simp add: rshift_even_exact)
    next
      case 3
      then have "nat (x - (e - int k)) = nat (x - e) + k" by linarith
      then show ?thesis using 3 by (simp add: rshift_even_scale)
    qed
  qed
  then show ?thesis unfolding encode_float_def Let_def x x_def [symmetric] using False by simp
qed (simp add: encode_float_def)

text \<open>A number that a format represents normally is decoded to itself.\<close>

lemma decode_encode_normal:
  assumes m: "0 < m" "m < 2 ^ (t + 1)"
    and lo: "fmin_exp t w \<le> e + int (bitlen m) - int (t + 1)"
    and hi: "e + int (bitlen m) - int (t + 1) - fmin_exp t w + 1 < 2 ^ w - 1"
  shows "decode_float t w (encode_float t w s m e) =
         Fin s (m * 2 ^ (t + 1 - bitlen m)) (e - int (t + 1 - bitlen m))"
proof -
  define L where "L = bitlen m"
  define x where "x = e + int L - int (t + 1)"
  define k where "k = nat (x - fmin_exp t w)"
  define n where "n = m * 2 ^ (t + 1 - L)"
  have L: "0 < L" "L \<le> t + 1" "2 ^ (L - 1) \<le> m" "m < 2 ^ L"
    using m bitlen_bounds [of m] bitlen_le [of m "t + 1"] by (auto simp: L_def bitlen_pos)
  have "2 ^ (L - 1) * 2 ^ (t + 1 - L) \<le> n" using L(3) by (simp add: n_def)
  then have n_lo: "2 ^ t \<le> n" using L(1,2) by (simp flip: power_add)
  have "n < 2 ^ L * 2 ^ (t + 1 - L)" using L(4) by (simp add: n_def)
  then have n_hi: "n < 2 ^ (t + 1)" using L(2) by (simp only: power_add [symmetric] le_add_diff_inverse)
  have k: "int k = x - fmin_exp t w" using lo by (simp add: k_def x_def L_def)
  have "int (k + 1) < 2 ^ w - 1" using hi by (simp add: k x_def L_def)
  then have "int (k + 2) \<le> int (2 ^ w - 1)" by (auto simp: of_nat_diff)
  then have k2: "k + 2 \<le> 2 ^ w - 1" by linarith
  have "k * 2 ^ t + n \<le> (k + 2) * 2 ^ t" using n_hi by (simp add: algebra_simps)
  also have "\<dots> \<le> (2 ^ w - 1) * 2 ^ t" using k2 by (rule mult_le_mono1)
  finally have cap: "k * 2 ^ t + n \<le> (2 ^ w - 1) * 2 ^ t" .
  have x: "max (fmin_exp t w) (e + int (bitlen m) - int (t + 1)) = x"
    using lo by (simp add: L_def x_def)
  have x0: "x \<le> e" "nat (e - x) = t + 1 - L" using L(2) by (auto simp: x_def)
  have "encode_float t w s m e = (if s then 2 ^ (t + w) else 0) + (k * 2 ^ t + n)"
    unfolding encode_float_def x Let_def using m(1) x0 cap
    by (simp add: k_def n_def min_absorb1)
  also have "\<dots> = (if s then 2 ^ (t + w) else 0) + ((k + 1) * 2 ^ t + (n - 2 ^ t))"
    using n_lo by simp
  also have "decode_float t w \<dots> = Fin s (n - 2 ^ t + 2 ^ t) (fmin_exp t w + int (k + 1) - 1)"
    using n_hi k2 by (intro decode_assembled) auto
  finally show ?thesis using n_lo k L(2) by (simp add: n_def x_def L_def)
qed

text \<open>An integer of at most \<open>t + 1\<close> bits is represented exactly.\<close>

lemma decode_encode_exact:
  assumes "0 < m" "m < 2 ^ (t + 1)"
    and "fmin_exp t w \<le> int (bitlen m) - int (t + 1)"
    and "int (bitlen m) - int (t + 1) - fmin_exp t w + 1 < 2 ^ w - 1"
  shows "decode_float t w (encode_float t w s m 0) =
         Fin s (m * 2 ^ (t + 1 - bitlen m)) (int (bitlen m) - int (t + 1))"
  using decode_encode_normal [of m t w 0 s] assms bitlen_le [OF assms(2)] by simp

lemma encode_float_bound: "encode_float t w s m e < 2 ^ (t + w + 1)"
proof -
  have cap: "(2 ^ w - 1) * 2 ^ t < (2::nat) ^ (t + w)"
    by (simp add: power_add diff_mult_distrib mult.commute)
  define b where "b = (if m = 0 then 0 else min (nat (max (fmin_exp t w)
      (e + int (bitlen m) - int (t + 1)) - fmin_exp t w) * 2 ^ t +
      (if max (fmin_exp t w) (e + int (bitlen m) - int (t + 1)) \<le> e
       then m * 2 ^ nat (e - max (fmin_exp t w) (e + int (bitlen m) - int (t + 1)))
       else rshift_even m (nat (max (fmin_exp t w) (e + int (bitlen m) - int (t + 1)) - e))))
      ((2 ^ w - 1) * 2 ^ t))"
  have "b \<le> (2 ^ w - 1) * 2 ^ t" unfolding b_def by (cases "m = 0") auto
  with cap have "b < 2 ^ (t + w)" by (rule le_less_trans [rotated])
  moreover have "encode_float t w s m e = (if s then 2 ^ (t + w) else 0) + b"
    by (simp only: encode_float_def Let_def b_def)
  ultimately show ?thesis by simp
qed

lemma f64_val_of_int:
  assumes "\<bar>i\<bar> < 2 ^ 53" and "i \<noteq> 0"
  shows "f64_val (f64_of_int i) =
    Fin (i < 0) (nat \<bar>i\<bar> * 2 ^ (53 - bitlen (nat \<bar>i\<bar>))) (int (bitlen (nat \<bar>i\<bar>)) - 53)"
proof -
  define m where "m = nat \<bar>i\<bar>"
  have m: "0 < m" "m < 2 ^ (52 + 1)" using assms by (auto simp: m_def nat_less_iff)
  have b: "encode_float 52 11 (i < 0) m 0 < 2 ^ 64"
    using encode_float_bound [where t = 52 and w = 11] by simp
  have "bitlen m \<le> 53" using m(2) bitlen_le [of m 53] by simp
  then have "decode_float 52 11 (encode_float 52 11 (i < 0) m 0) =
      Fin (i < 0) (m * 2 ^ (52 + 1 - bitlen m)) (int (bitlen m) - int (52 + 1))"
    using m by (intro decode_encode_exact) (auto simp: fmin_exp_def)
  then show ?thesis using b
    by (simp add: f64_val_def f64_of_int_def m_def [symmetric] unsigned_of_nat take_bit_nat_eq_self)
qed

lemma f64_trunc_of_int:
  assumes "\<bar>i\<bar> < 2 ^ 53"
  shows "f64_trunc (f64_of_int i) = Some i"
proof (cases "i = 0")
  case True
  then show ?thesis
    by (simp add: f64_trunc_def f64_val_def f64_of_int_def encode_float_def decode_float_def
        fmin_exp_def)
next
  case False
  define m where "m = nat \<bar>i\<bar>"
  have m: "0 < m" "m < 2 ^ 53" using assms False by (auto simp: m_def nat_less_iff)
  then have L: "bitlen m \<le> 53" by (simp add: bitlen_le)
  have "nat (- (int (bitlen m) - 53)) = 53 - bitlen m" by simp
  moreover have "bitlen m = 53 \<Longrightarrow> nat (int (bitlen m) - 53) = 0" by simp
  ultimately show ?thesis
    using L assms False
    by (auto simp: f64_trunc_def f64_val_of_int m_def [symmetric] Let_def) (auto simp: m_def)
qed

text \<open>Zero is all-zero bits, and a converted integer keeps its sign.\<close>

lemma f64_val_zero [simp]: "f64_val (f64_of_int 0) = Fin False 0 (- 1074)"
  by (simp add: f64_val_def f64_of_int_def encode_float_def decode_float_def fmin_exp_def)

lemma fval_neg_of_int: "\<bar>i\<bar> < 2 ^ 53 \<Longrightarrow> fval_neg (f64_val (f64_of_int i)) \<longleftrightarrow> i < 0"
  by (cases "i = 0") (auto simp: f64_val_of_int)

lemma fval_nonneg_of_int: "\<bar>i\<bar> < 2 ^ 53 \<Longrightarrow> fval_nonneg (f64_val (f64_of_int i)) \<longleftrightarrow> 0 \<le> i"
  by (cases "i = 0") (auto simp: f64_val_of_int)

lemma fval_nonzero_of_int: "\<bar>i\<bar> < 2 ^ 53 \<Longrightarrow> fval_nonzero (f64_val (f64_of_int i)) \<longleftrightarrow> i \<noteq> 0"
  by (cases "i = 0") (auto simp: f64_val_of_int)

lemma fval_to_uint_of_int:
  assumes "\<bar>i\<bar> < 2 ^ 53" and "0 \<le> i" and "i < 2 ^ LENGTH('n)"
  shows "fval_to_uint I (f64_val (f64_of_int i)) = (word_of_int i :: 'n::len word)"
  using f64_trunc_of_int [OF assms(1)] assms(2,3) by (simp add: fval_to_uint_def f64_trunc_def)

lemma fval_to_sint_of_int:
  assumes "\<bar>i\<bar> < 2 ^ 53" and "- (2 ^ (LENGTH('n) - 1)) \<le> i" and "i < 2 ^ (LENGTH('n) - 1)"
  shows "fval_to_sint I (f64_val (f64_of_int i)) = (word_of_int i :: 'n::len word)"
  using f64_trunc_of_int [OF assms(1)] assms(2,3) by (simp add: fval_to_sint_def f64_trunc_def)

section \<open>Patterns are the encodings of the numbers they denote\<close>

text \<open>The fields of a pattern.\<close>

lemma decode_fields:
  assumes "b < 2 ^ (t + w + 1)"
  obtains g x f where "b = g * 2 ^ (t + w) + x * 2 ^ t + f" "f < 2 ^ t" "x < 2 ^ w"
    "g * 2 ^ (t + w) = (if odd g then 2 ^ (t + w) else 0)"
    "decode_float t w b = (if x = 2 ^ w - 1 then (if f = 0 then Inf (odd g) else NaN)
      else if x = 0 then Fin (odd g) f (fmin_exp t w)
      else Fin (odd g) (f + 2 ^ t) (fmin_exp t w + int x - 1))"
proof -
  define f where "f = b mod 2 ^ t"
  define x where "x = (b div 2 ^ t) mod 2 ^ w"
  define g where "g = b div 2 ^ (t + w)"
  have "b div 2 ^ t = g * 2 ^ w + x"
    using div_mult_mod_eq [of "b div 2 ^ t" "2 ^ w"] by (simp only: g_def x_def power_add div_mult2_eq)
  then have b: "b = g * 2 ^ (t + w) + x * 2 ^ t + f"
    using div_mult_mod_eq [of b "2 ^ t"] by (simp add: f_def power_add algebra_simps)
  have "g < 2" using assms by (simp add: g_def less_mult_imp_div_less power_add)
  then have "g * 2 ^ (t + w) = (if odd g then 2 ^ (t + w) else 0)" by (auto simp: less_2_cases_iff)
  then show thesis by (rule that [of g x f, OF b, rotated 2]) (simp_all add: decode_float_def f_def x_def g_def Let_def)
qed

text \<open>The number a pattern denotes is encoded by that pattern.\<close>

lemma encode_decode:
  assumes "b < 2 ^ (t + w + 1)" and "decode_float t w b = Fin s m e"
  shows "encode_float t w s m e = b" and "m < 2 ^ (t + 1)" and "fmin_exp t w \<le> e" and "e < fmin_exp t w + 2 ^ w"
proof -
  obtain g x f where b: "b = g * 2 ^ (t + w) + x * 2 ^ t + f" and f: "f < 2 ^ t" and xw: "x < 2 ^ w"
    and sg: "g * 2 ^ (t + w) = (if odd g then 2 ^ (t + w) else 0)"
    and d: "decode_float t w b = (if x = 2 ^ w - 1 then (if f = 0 then Inf (odd g) else NaN)
      else if x = 0 then Fin (odd g) f (fmin_exp t w)
      else Fin (odd g) (f + 2 ^ t) (fmin_exp t w + int x - 1))"
    using decode_fields [OF assms(1)] .
  have x1: "x < 2 ^ w - 1" using assms(2) xw unfolding d by (cases "x = 2 ^ w - 1") (auto split: if_splits)
  then have "(x + 1) * 2 ^ t \<le> (2 ^ w - 1) * 2 ^ t" by (intro mult_le_mono1) simp
  then have cap: "x * 2 ^ t + f \<le> (2 ^ w - 1) * 2 ^ t" using f by simp
  have v: "s = odd g" "m = (if x = 0 then f else f + 2 ^ t)"
    "e = (if x = 0 then fmin_exp t w else fmin_exp t w + int x - 1)"
    using assms(2) x1 unfolding d by (auto split: if_splits)
  show "m < 2 ^ (t + 1)" "fmin_exp t w \<le> e" using f by (auto simp: v(2,3))
  have "int x < 2 ^ w" using xw by (metis of_nat_less_iff of_nat_numeral of_nat_power)
  moreover have "e \<le> fmin_exp t w + int x" by (simp add: v(3))
  ultimately show "e < fmin_exp t w + 2 ^ w" by linarith
  show "encode_float t w s m e = b"
  proof (cases "x = 0")
    case True
    have "bitlen f \<le> t" using f by (rule bitlen_le)
    then have "max (fmin_exp t w) (e + int (bitlen f) - int (t + 1)) = fmin_exp t w" by (simp add: v(3) True)
    then show ?thesis unfolding encode_float_def Let_def using cap True sg v by (simp add: b min_absorb1)
  next
    case False
    have l: "bitlen m = Suc t" unfolding v(2) using f False by (simp add: bitlen_unique)
    then have mx: "max (fmin_exp t w) (e + int (bitlen m) - int (t + 1)) = e" using False by (simp add: v(3))
    have "nat (e - fmin_exp t w) = x - 1" using False by (simp add: v(3) nat_diff_distrib)
    then have n: "nat (e - fmin_exp t w) * 2 ^ t + m = x * 2 ^ t + f"
      using False by (cases x) (simp_all add: v(2))
    have "m \<noteq> 0" using False by (simp add: v(2))
    then show ?thesis unfolding encode_float_def mx Let_def using cap sg n
      by (simp add: b v(1) min_absorb1)
  qed
qed

lemma decode_infinity:
  assumes "b < 2 ^ (t + w + 1)" and "decode_float t w b = Inf s"
  shows "b = (if s then 2 ^ (t + w) else 0) + (2 ^ w - 1) * 2 ^ t"
proof -
  obtain g x f where b: "b = g * 2 ^ (t + w) + x * 2 ^ t + f"
    and sg: "g * 2 ^ (t + w) = (if odd g then 2 ^ (t + w) else 0)"
    and d: "decode_float t w b = (if x = 2 ^ w - 1 then (if f = 0 then Inf (odd g) else NaN)
      else if x = 0 then Fin (odd g) f (fmin_exp t w)
      else Fin (odd g) (f + 2 ^ t) (fmin_exp t w + int x - 1))"
    using decode_fields [OF assms(1)] .
  have "x = 2 ^ w - 1" "f = 0" "s = odd g" using assms(2) unfolding d by (auto split: if_splits)
  then show ?thesis using sg by (simp only: b add_0_right)
qed

text \<open>A 64-bit integer is far from the largest finite float64.\<close>

lemma encode_finite64:
  assumes "n < 2 ^ 64"
  shows "decode_float 52 11 (encode_float 52 11 s n 0) \<noteq> Inf z"
proof
  assume inf: "decode_float 52 11 (encode_float 52 11 s n 0) = Inf z"
  define x where "x = int (bitlen n) - 53"
  define b where "b = nat (x + 1074) * 2 ^ 52 + (if x \<le> 0 then n * 2 ^ nat (- x) else rshift_even n (nat x))"
  have l: "bitlen n \<le> 64" using assms by (rule bitlen_le)
  have n0: "n < 2 ^ bitlen n" using bitlen_bounds [of n] by (cases "n = 0") auto
  have "(if x \<le> 0 then n * 2 ^ nat (- x) else rshift_even n (nat x)) \<le> 2 ^ 53"
  proof (cases "x \<le> 0")
    case True
    then have "bitlen n + nat (- x) = 53" by (simp add: x_def)
    then have "2 ^ bitlen n * 2 ^ nat (- x) = (2 :: nat) ^ 53" by (simp flip: power_add)
    then show ?thesis using True n0 by (metis less_imp_le mult_le_mono1)
  next
    case False
    then have "bitlen n = 53 + nat x" by (simp add: x_def)
    then have "n < 2 ^ 53 * 2 ^ nat x" using n0 by (simp add: power_add)
    then have "n div 2 ^ nat x < 2 ^ 53" by (simp add: less_mult_imp_div_less)
    then show ?thesis using False by (simp add: rshift_even_def Let_def)
  qed
  moreover have "nat (x + 1074) \<le> 1085" using l by (simp add: x_def)
  ultimately have b: "b < (2 ^ 11 - 1) * 2 ^ 52" unfolding b_def by simp
  have "max (fmin_exp 52 11) (0 + int (bitlen n) - int (52 + 1)) = x" by (simp add: fmin_exp_def x_def)
  then have e: "encode_float 52 11 s n 0 = (if s then 2 ^ (52 + 11) else 0) + (if n = 0 then 0 else b)"
    unfolding encode_float_def Let_def using b by (cases "x \<le> 0") (simp_all add: b_def fmin_exp_def min_absorb1)
  have "(if s then 2 ^ (52 + 11) else 0) + (if n = 0 then 0 else b) = (if z then 2 ^ (52 + 11) else 0) + (2 ^ 11 - 1) * 2 ^ 52"
    using decode_infinity [OF encode_float_bound inf] e by simp
  then show False using b by (auto split: if_splits)
qed

text \<open>A float32 is exact as a float64: narrowing it again gives the same bits, except for a NaN.\<close>

lemma f32_of_f64_of_f32:
  assumes "f32_val f \<noteq> NaN"
  shows "f32_of_f64 (f64_of_f32 f) = f"
proof -
  have b: "unat f < 2 ^ (23 + 8 + 1)" using unsigned_less [of f] by simp
  show ?thesis
  proof (cases "f32_val f")
    case (Inf s)
    then have "unat f = (if s then 2 ^ (23 + 8) else 0) + (2 ^ 8 - 1) * 2 ^ 23"
      by (intro decode_infinity [OF b]) (simp add: f32_val_def)
    then have "unat f = unat (if s then 0xFF800000 else 0x7F800000 :: 32 word)" by simp
    then have "f = (if s then 0xFF800000 else 0x7F800000)" by (simp only: unsigned_word_eqI)
    then show ?thesis using Inf
      by (cases s) (simp_all add: f64_of_f32_def f32_of_f64_def f64_val_def decode_float_def)
  next
    case (Fin s m e)
    then have d: "decode_float 23 8 (unat f) = Fin s m e" by (simp add: f32_val_def)
    note inv = encode_decode [OF b d]
    have e: "- 149 \<le> e" "e < 107" and m: "m < 2 ^ 24" using inv(2,3,4) by (simp_all add: fmin_exp_def)
    have w: "encode_float 52 11 s m e < 2 ^ 64" using encode_float_bound [of 52 11] by simp
    have "\<exists>m' e'. f64_val (f64_of_f32 f) = Fin s m' e' \<and> encode_float 23 8 s m' e' = encode_float 23 8 s m e"
    proof (cases "m = 0")
      case True
      then have "f64_val (f64_of_f32 f) = Fin s 0 (- 1074)"
        by (simp add: f64_val_def f64_of_f32_def Fin encode_float_def decode_float_def fmin_exp_def)
      then show ?thesis by (simp add: True encode_float_def)
    next
      case False
      have l: "bitlen m \<le> 24" using m by (rule bitlen_le)
      have "decode_float 52 11 (encode_float 52 11 s m e) =
          Fin s (m * 2 ^ (52 + 1 - bitlen m)) (e - int (52 + 1 - bitlen m))"
        using False m e l by (intro decode_encode_normal) (auto simp: fmin_exp_def)
      then have "f64_val (f64_of_f32 f) = Fin s (m * 2 ^ (52 + 1 - bitlen m)) (e - int (52 + 1 - bitlen m))"
        using w by (simp add: f64_val_def f64_of_f32_def Fin unsigned_of_nat take_bit_nat_eq_self)
      then show ?thesis using encode_float_scale [of 23 8 s m "52 + 1 - bitlen m" e] by blast
    qed
    then have "f32_of_f64 (f64_of_f32 f) = word_of_nat (encode_float 23 8 s m e)"
      by (auto simp: f32_of_f64_def)
    then show ?thesis using inv(1) by simp
  qed (use assms in simp)
qed

end
