(* ===== verification/GoValue.thy ===== *)
theory GoValue
  imports GoFloat "HOL-Library.Char_ord" "HOL-Library.List_Lexorder"
begin

text \<open>
  Go's \<open>interface{}\<close> values as far as the program inspects them, and the functions of the
  standard packages \<open>strconv\<close>, \<open>strings\<close>, \<open>fmt\<close> and \<open>bytes\<close> that the sources call on them.
  A Go string is a sequence of bytes, which is what HOL's \<open>string\<close> (a list of 8-bit \<open>char\<close>s) is;
  a \<open>[]byte\<close> is the same list under another constructor. \<open>int\<close> and \<open>uint\<close> have 64 bits.
\<close>

section \<open>Dynamic values\<close>

datatype goval =
    VNil
  | VBool bool
  | VInt "64 word" | VInt8 "8 word" | VInt16 "16 word" | VInt32 "32 word" | VInt64 "64 word"
  | VUint "64 word" | VUint8 "8 word" | VUint16 "16 word" | VUint32 "32 word" | VUint64 "64 word"
  | VFloat32 float32 | VFloat64 float64
  | VString string
  | VBytes string
  | VBools "bool list"
  | VUint16s "16 word list"
  | VInt32s "32 word list"
  | VFloat64s "float64 list"
  | VSlice "goval list"
  | VMap "(string \<times> goval) list"
  | VOther string string

text \<open>
  \<open>VSlice\<close> is \<open>[]interface{}\<close> and \<open>VMap\<close> is \<open>map[string]interface{}\<close> (its entries in the order an
  iteration visits them); \<open>VOther t p\<close> is a value of any other dynamic type \<open>t\<close>, which the
  sources never inspect and which \<open>%v\<close> prints as \<open>p\<close>.
\<close>

text \<open>The name \<open>%T\<close> (and \<open>reflect.TypeOf\<close>) prints.\<close>

fun gotype :: "goval \<Rightarrow> string" where
  "gotype VNil = ''<nil>''"
| "gotype (VBool _) = ''bool''"
| "gotype (VInt _) = ''int''"
| "gotype (VInt8 _) = ''int8''"
| "gotype (VInt16 _) = ''int16''"
| "gotype (VInt32 _) = ''int32''"
| "gotype (VInt64 _) = ''int64''"
| "gotype (VUint _) = ''uint''"
| "gotype (VUint8 _) = ''uint8''"
| "gotype (VUint16 _) = ''uint16''"
| "gotype (VUint32 _) = ''uint32''"
| "gotype (VUint64 _) = ''uint64''"
| "gotype (VFloat32 _) = ''float32''"
| "gotype (VFloat64 _) = ''float64''"
| "gotype (VString _) = ''string''"
| "gotype (VBytes _) = ''[]uint8''"
| "gotype (VBools _) = ''[]bool''"
| "gotype (VUint16s _) = ''[]uint16''"
| "gotype (VInt32s _) = ''[]int32''"
| "gotype (VFloat64s _) = ''[]float64''"
| "gotype (VSlice _) = ''[]interface {}''"
| "gotype (VMap _) = ''map[string]interface {}''"
| "gotype (VOther t _) = t"

text \<open>The mathematical integer an integer-typed value holds.\<close>

fun goint :: "goval \<Rightarrow> int option" where
  "goint (VInt w) = Some (sint w)"
| "goint (VInt8 w) = Some (sint w)"
| "goint (VInt16 w) = Some (sint w)"
| "goint (VInt32 w) = Some (sint w)"
| "goint (VInt64 w) = Some (sint w)"
| "goint (VUint w) = Some (uint w)"
| "goint (VUint8 w) = Some (uint w)"
| "goint (VUint16 w) = Some (uint w)"
| "goint (VUint32 w) = Some (uint w)"
| "goint (VUint64 w) = Some (uint w)"
| "goint _ = None"

section \<open>strconv\<close>

definition digit_char :: "nat \<Rightarrow> char" where
  "digit_char d = char_of (48 + d)"

fun show_nat :: "nat \<Rightarrow> string" where
  "show_nat n = (if n < 10 then [digit_char n] else show_nat (n div 10) @ [digit_char (n mod 10)])"

declare show_nat.simps [simp del]

definition show_int :: "int \<Rightarrow> string" where
  "show_int i = (if i < 0 then CHR ''-'' # show_nat (nat (- i)) else show_nat (nat i))"

text \<open>An upper-case hexadecimal digit and the \<open>%02X\<close> format of a byte.\<close>

definition hex_char :: "nat \<Rightarrow> char" where
  "hex_char d = (if d < 10 then char_of (48 + d) else char_of (55 + d))"

definition show_hex2 :: "8 word \<Rightarrow> string" where
  "show_hex2 b = [hex_char (unat b div 16), hex_char (unat b mod 16)]"

definition digit_value :: "char \<Rightarrow> nat option" where
  "digit_value c =
     (let k = of_char c :: nat
      in if 48 \<le> k \<and> k \<le> 57 then Some (k - 48)
         else if 97 \<le> k \<and> k \<le> 122 then Some (k - 87)
         else if 65 \<le> k \<and> k \<le> 90 then Some (k - 55)
         else None)"

text \<open>\<open>strconv.ParseUint(s, base, bits)\<close> for an explicit base: the first offending digit decides the error.\<close>

fun parse_uint_loop :: "nat \<Rightarrow> nat \<Rightarrow> string \<Rightarrow> nat \<Rightarrow> string \<Rightarrow> nat result" where
  "parse_uint_loop base maxv s n [] = Ok n"
| "parse_uint_loop base maxv s n (c # cs) =
     (case digit_value c of
        None \<Rightarrow> Err (Errorf ''strconv.ParseUint: parsing %q: invalid syntax'' [s])
      | Some d \<Rightarrow>
          if base \<le> d then Err (Errorf ''strconv.ParseUint: parsing %q: invalid syntax'' [s])
          else if maxv < n * base + d
            then Err (Errorf ''strconv.ParseUint: parsing %q: value out of range'' [s])
          else parse_uint_loop base maxv s (n * base + d) cs)"

definition parse_uint :: "nat \<Rightarrow> nat \<Rightarrow> string \<Rightarrow> nat result" where
  "parse_uint base bits s =
     (if s = [] then Err (Errorf ''strconv.ParseUint: parsing %q: invalid syntax'' [s])
      else parse_uint_loop base (2 ^ bits - 1) s 0 s)"

text \<open>\<open>strconv.Atoi\<close>: an optional sign, then decimal digits, in the range of a 64-bit int.\<close>

definition atoi :: "string \<Rightarrow> int result" where
  "atoi s =
     (let neg = (case s of [] \<Rightarrow> False | c # _ \<Rightarrow> c = CHR ''-'');
          ds = (case s of [] \<Rightarrow> [] | c # cs \<Rightarrow> if c = CHR ''-'' \<or> c = CHR ''+'' then cs else s)
      in rbind (parse_uint 10 64 ds) (\<lambda>n.
           if neg then (if n \<le> 2 ^ 63 then Ok (- int n)
                        else Err (Errorf ''strconv.Atoi: parsing %q: value out of range'' [s]))
           else (if n < 2 ^ 63 then Ok (int n)
                 else Err (Errorf ''strconv.Atoi: parsing %q: value out of range'' [s]))))"

section \<open>strings and bytes\<close>

text \<open>\<open>strings.Split(s, sep)\<close> for a one-byte separator.\<close>

fun split_on :: "char \<Rightarrow> string \<Rightarrow> string list" where
  "split_on c [] = [[]]"
| "split_on c (x # xs) =
     (case split_on c xs of
        p # ps \<Rightarrow> if x = c then [] # p # ps else (x # p) # ps
      | [] \<Rightarrow> [])"

text \<open>\<open>strings.ReplaceAll(s, a, b)\<close> for one-byte \<open>a\<close> and \<open>b\<close>.\<close>

definition replace_all :: "char \<Rightarrow> char \<Rightarrow> string \<Rightarrow> string" where
  "replace_all a b s = map (\<lambda>c. if c = a then b else c) s"

text \<open>\<open>strings.TrimPrefix(s, p)\<close> for a one-byte \<open>p\<close>.\<close>

fun trim_prefix :: "char \<Rightarrow> string \<Rightarrow> string" where
  "trim_prefix p [] = []"
| "trim_prefix p (c # cs) = (if c = p then cs else c # cs)"

section \<open>fmt\<close>

fun join_with :: "string \<Rightarrow> string list \<Rightarrow> string" where
  "join_with sep [] = []"
| "join_with sep [x] = x"
| "join_with sep (x # y # ys) = x @ sep @ join_with sep (y # ys)"

definition show_bool :: "bool \<Rightarrow> string" where
  "show_bool b = (if b then ''true'' else ''false'')"

definition bracket :: "string list \<Rightarrow> string" where
  "bracket xs = ''['' @ join_with '' '' xs @ '']''"

text \<open>\<open>fmt.Sprintf("%v", v)\<close>; maps are printed in the order of their keys.\<close>

fun sprint_v :: "go_impl \<Rightarrow> goval \<Rightarrow> string" where
  "sprint_v I VNil = ''<nil>''"
| "sprint_v I (VBool b) = show_bool b"
| "sprint_v I (VInt w) = show_int (sint w)"
| "sprint_v I (VInt8 w) = show_int (sint w)"
| "sprint_v I (VInt16 w) = show_int (sint w)"
| "sprint_v I (VInt32 w) = show_int (sint w)"
| "sprint_v I (VInt64 w) = show_int (sint w)"
| "sprint_v I (VUint w) = show_nat (unat w)"
| "sprint_v I (VUint8 w) = show_nat (unat w)"
| "sprint_v I (VUint16 w) = show_nat (unat w)"
| "sprint_v I (VUint32 w) = show_nat (unat w)"
| "sprint_v I (VUint64 w) = show_nat (unat w)"
| "sprint_v I (VFloat32 f) = impl_fmt32 I f"
| "sprint_v I (VFloat64 f) = impl_fmt64 I f"
| "sprint_v I (VString s) = s"
| "sprint_v I (VBytes s) = bracket (map (\<lambda>c. show_nat (of_char c)) s)"
| "sprint_v I (VBools bs) = bracket (map show_bool bs)"
| "sprint_v I (VUint16s ws) = bracket (map (\<lambda>w. show_nat (unat w)) ws)"
| "sprint_v I (VInt32s ws) = bracket (map (\<lambda>w. show_int (sint w)) ws)"
| "sprint_v I (VFloat64s fs) = bracket (map (impl_fmt64 I) fs)"
| "sprint_v I (VSlice vs) = bracket (map (sprint_v I) vs)"
| "sprint_v I (VMap kvs) = ''map'' @ bracket (map (\<lambda>(k, s). k @ '':'' @ s)
      (sort_key fst (map (\<lambda>(k, v). (k, sprint_v I v)) kvs)))"
| "sprint_v I (VOther t p) = p"

text \<open>\<open>fmt.Sprintf("%.0f", f)\<close>.\<close>

definition sprint_f0 :: "float64 \<Rightarrow> string" where
  "sprint_f0 f = (case f64_val f of
       NaN \<Rightarrow> ''NaN''
     | Inf s \<Rightarrow> (if s then ''-Inf'' else ''+Inf'')
     | Fin s m e \<Rightarrow> (case fval_round (Fin s m e) of
           Some (neg, n) \<Rightarrow> (if neg then CHR ''-'' # show_nat n else show_nat n)
         | None \<Rightarrow> []))"

section \<open>Facts about the text functions\<close>

lemma of_char_char_of_nat [simp]: "n < 256 \<Longrightarrow> of_char (char_of (n :: nat)) = n"
  by simp

lemma digit_value_digit_char [simp]: "d < 10 \<Longrightarrow> digit_value (digit_char d) = Some d"
  by (simp add: digit_value_def digit_char_def)

lemma digit_value_hex_char [simp]: "d < 16 \<Longrightarrow> digit_value (hex_char d) = Some d"
  by (auto simp: digit_value_def hex_char_def)

lemma split_on_nonempty [simp]: "split_on c s \<noteq> []"
  by (induction s) (auto split: list.splits)

lemma split_on_no_sep: "c \<notin> set s \<Longrightarrow> split_on c s = [s]"
  by (induction s) auto

lemma split_on_append: "c \<notin> set s \<Longrightarrow> split_on c (s @ c # t) = s # split_on c t"
proof (induction s)
  case Nil
  then show ?case by (cases "split_on c t") auto
next
  case (Cons x xs)
  then show ?case by auto
qed

text \<open>Splitting is the inverse of joining parts that do not contain the separator.\<close>

lemma split_join:
  "ps \<noteq> [] \<Longrightarrow> (\<And>p. p \<in> set ps \<Longrightarrow> c \<notin> set p) \<Longrightarrow> split_on c (join_with [c] ps) = ps"
  by (induction "[c]" ps rule: join_with.induct) (auto simp: split_on_no_sep split_on_append)

lemma join_split: "join_with [c] (split_on c s) = s"
proof (induction s)
  case Nil
  then show ?case by simp
next
  case (Cons x xs)
  then show ?case by (cases "split_on c xs"; cases "tl (split_on c xs)") auto
qed

lemma split_on_parts: "p \<in> set (split_on c s) \<Longrightarrow> c \<notin> set p"
proof (induction s arbitrary: p)
  case Nil
  then show ?case by simp
next
  case (Cons x xs)
  then show ?case by (cases "split_on c xs") (auto split: if_splits)
qed

lemma show_nat_digits: "set (show_nat n) \<subseteq> digit_char ` {..<10}"
proof (induction n rule: show_nat.induct)
  case (1 n)
  then show ?case by (subst show_nat.simps) auto
qed

lemma show_nat_nonempty [simp]: "show_nat n \<noteq> []"
  by (subst show_nat.simps) simp

lemma digit_value_separators:
  "digit_value (CHR ''.'') = None" "digit_value (CHR '':'') = None"
  "digit_value (CHR ''-'') = None" "digit_value (CHR ''+'') = None"
  by (simp_all add: digit_value_def)

lemma digit_char_neq:
  "d < 10 \<Longrightarrow> digit_char d \<noteq> CHR ''.''" "d < 10 \<Longrightarrow> digit_char d \<noteq> CHR '':''"
  "d < 10 \<Longrightarrow> digit_char d \<noteq> CHR ''-''" "d < 10 \<Longrightarrow> digit_char d \<noteq> CHR ''+''"
  by (metis digit_value_digit_char digit_value_separators option.distinct(1))+

lemma hex_char_neq: "d < 16 \<Longrightarrow> hex_char d \<noteq> CHR '':''"
  by (metis digit_value_hex_char digit_value_separators(2) option.distinct(1))

lemma show_nat_no_dot: "CHR ''.'' \<notin> set (show_nat n)"
proof
  assume "CHR ''.'' \<in> set (show_nat n)"
  then obtain d where "d < 10" "CHR ''.'' = digit_char d" using show_nat_digits [of n] by blast
  then show False using digit_char_neq(1) [of d] by simp
qed

text \<open>Scanning the digits of a number continues the value read so far.\<close>

lemma parse_uint_loop_append:
  "parse_uint_loop base maxv s n (xs @ ys) =
     rbind (parse_uint_loop base maxv s n xs) (\<lambda>m. parse_uint_loop base maxv s m ys)"
  by (induction base maxv s n xs rule: parse_uint_loop.induct) (auto split: option.splits)

lemma parse_uint_loop_show_nat:
  "n \<le> maxv \<Longrightarrow> parse_uint_loop 10 maxv s 0 (show_nat n) = Ok n"
proof (induction n rule: show_nat.induct)
  case (1 n)
  show ?case
  proof (cases "n < 10")
    case True
    then show ?thesis using 1 by (subst show_nat.simps) simp
  next
    case False
    have "n div 10 \<le> maxv" using 1(2) by simp
    with 1(1) False have IH: "parse_uint_loop 10 maxv s 0 (show_nat (n div 10)) = Ok (n div 10)"
      by blast
    have "n div 10 * 10 + n mod 10 = n" by simp
    then show ?thesis using False 1(2) IH
      by (subst show_nat.simps) (simp add: parse_uint_loop_append)
  qed
qed

lemma parse_uint_show_nat: "n < 2 ^ bits \<Longrightarrow> parse_uint 10 bits (show_nat n) = Ok n"
  by (simp add: parse_uint_def parse_uint_loop_show_nat)

lemma parse_uint_loop_bound:
  "n \<le> maxv \<Longrightarrow> parse_uint_loop base maxv s n cs = Ok m \<Longrightarrow> m \<le> maxv"
  by (induction base maxv s n cs rule: parse_uint_loop.induct) (auto split: option.splits if_splits)

lemma parse_uint_bound: "parse_uint base bits s = Ok n \<Longrightarrow> n < 2 ^ bits"
proof -
  assume "parse_uint base bits s = Ok n"
  then have "n \<le> 2 ^ bits - 1"
    using parse_uint_loop_bound [of 0 "2 ^ bits - 1" base s s n]
    by (simp add: parse_uint_def split: if_splits)
  moreover have "0 < (2::nat) ^ bits" by simp
  ultimately show "n < 2 ^ bits" by linarith
qed

lemma parse_uint_hex2: "parse_uint 16 8 (show_hex2 b) = Ok (unat b)"
proof -
  have "unat b div 16 < 16" using unsigned_less [of b, where 'a = nat] by (simp add: less_mult_imp_div_less)
  moreover have "unat b \<le> 255" using unsigned_less [of b, where 'a = nat] by simp
  ultimately show ?thesis by (simp add: parse_uint_def show_hex2_def)
qed

lemma parse_uint_loop_no_panic: "parse_uint_loop base maxv s n cs \<noteq> Panic m"
  by (induction base maxv s n cs rule: parse_uint_loop.induct) (auto split: option.splits)

lemma parse_uint_no_panic [simp]: "parse_uint base bits s \<noteq> Panic m"
  by (simp add: parse_uint_def parse_uint_loop_no_panic)

lemma atoi_no_panic [simp]: "atoi s \<noteq> Panic m"
  by (simp add: atoi_def Let_def rbind_Panic_iff)

lemma atoi_range: "atoi s = Ok i \<Longrightarrow> - (2 ^ 63) \<le> i \<and> i < 2 ^ 63"
  unfolding atoi_def Let_def rbind_Ok_iff by (auto simp: split: if_splits)

end
