(* ===== verification/Channel.thy ===== *)
theory Channel
  imports GoValue
begin

text \<open>
  Go's buffered channels and the events the listeners put on them (\<open>ReceiveEvent\<close> of
  \<open>pkg/model/resource.go\<close>). The locale \<open>producer\<close> is the contract of a listener's callback: it
  offers the shared channel at most one event and never waits. From it follow the bounds and the
  order of everything any number of producers put on the channel.
\<close>

section \<open>Channels\<close>

record 'a channel =
  ch_cap :: nat
  ch_buf :: "'a list"

definition make_chan :: "nat \<Rightarrow> 'a channel" where
  "make_chan n = \<lparr>ch_cap = n, ch_buf = []\<rparr>"

text \<open>\<open>select { case ch <- x: ...; default: ... }\<close>: whether the value was taken.\<close>

definition try_send :: "'a \<Rightarrow> 'a channel \<Rightarrow> 'a channel \<times> bool" where
  "try_send x c = (if length (ch_buf c) < ch_cap c then (c\<lparr>ch_buf := ch_buf c @ [x]\<rparr>, True) else (c, False))"

text \<open>\<open>ch <- x\<close>, which waits (\<open>None\<close>) while the buffer is full, and \<open><-ch\<close>, while it is empty.\<close>

definition send :: "'a \<Rightarrow> 'a channel \<Rightarrow> 'a channel option" where
  "send x c = (if length (ch_buf c) < ch_cap c then Some (c\<lparr>ch_buf := ch_buf c @ [x]\<rparr>) else None)"

definition recv :: "'a channel \<Rightarrow> ('a \<times> 'a channel) option" where
  "recv c = (case ch_buf c of [] \<Rightarrow> None | x # xs \<Rightarrow> Some (x, c\<lparr>ch_buf := xs\<rparr>))"

definition chan_ok :: "'a channel \<Rightarrow> bool" where
  "chan_ok c \<longleftrightarrow> length (ch_buf c) \<le> ch_cap c"

lemma make_chan_ok [simp]: "chan_ok (make_chan n)" "ch_buf (make_chan n) = []" "ch_cap (make_chan n) = n"
  by (simp_all add: chan_ok_def make_chan_def)

lemma try_send_cases:
  assumes "try_send x c = (c', b)"
  obtains (taken) "b" "ch_buf c' = ch_buf c @ [x]" "ch_cap c' = ch_cap c" "length (ch_buf c) < ch_cap c"
  | (full) "\<not> b" "c' = c" "ch_cap c \<le> length (ch_buf c)"
  using assms by (auto simp: try_send_def split: if_splits)

lemma send_Some_iff:
  "send x c = Some c' \<longleftrightarrow> length (ch_buf c) < ch_cap c \<and> c' = c\<lparr>ch_buf := ch_buf c @ [x]\<rparr>"
  by (auto simp: send_def)

lemma recv_Some_iff: "recv c = Some (x, c') \<longleftrightarrow> ch_buf c = x # ch_buf c' \<and> ch_cap c' = ch_cap c"
  by (cases c; cases c') (auto simp: recv_def split: list.splits)

section \<open>Events\<close>

text \<open>\<open>time.Now()\<close> is an input; a time is its count of nanoseconds.\<close>

type_synonym gotime = int

record receive_event =
  ev_Source :: string
  ev_EventName :: string
  ev_EventTime :: gotime
  ev_EventData :: string

type_synonym event_channel = "receive_event channel"

section \<open>Producers\<close>

locale producer =
  fixes handle :: "'i \<Rightarrow> event_channel \<Rightarrow> event_channel \<times> 'r"
    and event_of :: "'i \<Rightarrow> receive_event option"
    and accepted :: "'i \<Rightarrow> 'r \<Rightarrow> bool"
  assumes offers: "event_of i = Some e \<Longrightarrow> handle i c = (c', r) \<Longrightarrow> try_send e c = (c', accepted i r)"
    and silent: "event_of i = None \<Longrightarrow> handle i c = (c', r) \<Longrightarrow> c' = c \<and> \<not> accepted i r"
begin

lemma handle_cases:
  assumes "handle i c = (c', r)"
  obtains (put) e where "event_of i = Some e" "accepted i r" "ch_buf c' = ch_buf c @ [e]" "ch_cap c' = ch_cap c"
      "length (ch_buf c) < ch_cap c"
  | (lost) "\<not> accepted i r" "c' = c"
proof (cases "event_of i")
  case None
  then show thesis using silent [OF None assms] lost by blast
next
  case (Some e)
  from offers [OF Some assms] show thesis
    by (cases rule: try_send_cases) (use put lost Some in auto)
qed

lemma handle_ok: "handle i c = (c', r) \<Longrightarrow> chan_ok c \<Longrightarrow> chan_ok c'"
  by (erule handle_cases) (auto simp: chan_ok_def)

text \<open>An event that is offered is refused exactly when the channel is full.\<close>

lemma refused_iff_full:
  assumes "handle i c = (c', r)" and "event_of i = Some e"
  shows "\<not> accepted i r \<longleftrightarrow> ch_cap c \<le> length (ch_buf c)"
  using offers [OF assms(2,1)] by (auto simp: try_send_def split: if_splits)

text \<open>A run of any inputs: the events put on the channel, in order.\<close>

fun run :: "'i list \<Rightarrow> event_channel \<Rightarrow> event_channel \<times> 'r list" where
  "run [] c = (c, [])"
| "run (i # is) c = (case handle i c of (c1, r) \<Rightarrow> case run is c1 of (c2, rs) \<Rightarrow> (c2, r # rs))"

definition taken :: "'i list \<Rightarrow> 'r list \<Rightarrow> receive_event list" where
  "taken is rs = map (\<lambda>(i, r). the (event_of i)) (filter (\<lambda>(i, r). accepted i r) (zip is rs))"

lemma run_appends:
  "run is c = (c', rs) \<Longrightarrow> ch_buf c' = ch_buf c @ taken is rs \<and> ch_cap c' = ch_cap c \<and> length rs = length is
     \<and> (chan_ok c \<longrightarrow> chan_ok c')"
proof (induction "is" arbitrary: c c' rs)
  case Nil
  then show ?case by (simp add: taken_def)
next
  case (Cons i "is")
  obtain c1 r where h: "handle i c = (c1, r)" by fastforce
  obtain c2 rs2 where n: "run is c1 = (c2, rs2)" by fastforce
  have e: "c' = c2" "rs = r # rs2" using Cons.prems h n by simp_all
  show ?case using h
  proof (cases rule: handle_cases)
    case (put e)
    then show ?thesis using Cons.IH [OF n] e handle_ok [OF h] by (simp add: taken_def)
  next
    case lost
    then show ?thesis using Cons.IH [OF n] e by (simp add: taken_def)
  qed
qed

lemma run_no_loss:
  assumes "run is c = (c', rs)" and "length (ch_buf c) + length is \<le> ch_cap c" and "\<And>i. i \<in> set is \<Longrightarrow> event_of i \<noteq> None"
  shows "ch_buf c' = ch_buf c @ map (\<lambda>i. the (event_of i)) is"
  using assms
proof (induction "is" arbitrary: c c' rs)
  case (Cons i "is")
  obtain c1 r where h: "handle i c = (c1, r)" by fastforce
  obtain c2 rs2 where n: "run is c1 = (c2, rs2)" by fastforce
  obtain e where ev: "event_of i = Some e" using Cons.prems(3) [of i] by auto
  have acc: "accepted i r" using refused_iff_full [OF h ev] Cons.prems(2) by auto
  from h acc have c1: "ch_buf c1 = ch_buf c @ [e]" "ch_cap c1 = ch_cap c"
    using ev by (auto elim!: handle_cases)
  have "ch_buf c2 = ch_buf c1 @ map (\<lambda>i. the (event_of i)) is"
    by (rule Cons.IH [OF n]) (use Cons.prems c1 in auto)
  then show ?case using Cons.prems(1) h n c1 ev by simp
qed simp

end

end
