(* ===== verification/Json.thy ===== *)
theory Json
  imports GoValue
begin

text \<open>
  What the sources use of \<open>encoding/json\<close>: \<open>Unmarshal\<close> into an untyped value or into a struct's
  fields, and \<open>Marshal\<close>. Texts are byte strings. A text is first parsed into \<open>json\<close>, which keeps
  numbers as literals and the members of an object in their order; decoding then follows the Go
  type. An error's text is not modelled. The shortest decimal form of a float is the
  implementation's.
\<close>

datatype json = JNull | JBool bool | JNum string | JStr string | JArr "json list" | JObj "(string \<times> json) list"

section \<open>Bytes\<close>

definition byte :: "char \<Rightarrow> nat" where "byte c = of_char c"

definition is_space :: "char \<Rightarrow> bool" where
  "is_space c \<longleftrightarrow> byte c = 32 \<or> byte c = 9 \<or> byte c = 10 \<or> byte c = 13"

definition is_digit :: "char \<Rightarrow> bool" where
  "is_digit c \<longleftrightarrow> 48 \<le> byte c \<and> byte c \<le> 57"

definition skip_ws :: "string \<Rightarrow> string" where
  "skip_ws s = dropWhile is_space s"

lemma length_skip_ws: "length (skip_ws s) \<le> length s"
  by (simp add: skip_ws_def length_dropWhile_le)

text \<open>The length of the valid UTF-8 sequence a text starts with, if it is valid.\<close>

definition utf8_len :: "string \<Rightarrow> nat option" where
  "utf8_len s = (case map byte (take 4 s) of
       [] \<Rightarrow> None
     | b0 # bs \<Rightarrow>
        (let cont = (\<lambda>b. 128 \<le> b \<and> b \<le> (191::nat));
             second = (\<lambda>lo hi. bs \<noteq> [] \<and> lo \<le> bs ! 0 \<and> bs ! 0 \<le> (hi::nat));
             conts = (\<lambda>n. n \<le> length bs \<and> list_all cont (take (n - 1) (drop 1 bs)))
         in if b0 < 128 then Some 1
            else if 194 \<le> b0 \<and> b0 \<le> 223 \<and> second 128 191 then Some 2
            else if b0 = 224 \<and> second 160 191 \<and> conts 2 then Some 3
            else if ((225 \<le> b0 \<and> b0 \<le> 236) \<or> b0 = 238 \<or> b0 = 239) \<and> second 128 191 \<and> conts 2 then Some 3
            else if b0 = 237 \<and> second 128 159 \<and> conts 2 then Some 3
            else if b0 = 240 \<and> second 144 191 \<and> conts 3 then Some 4
            else if 241 \<le> b0 \<and> b0 \<le> 243 \<and> second 128 191 \<and> conts 3 then Some 4
            else if b0 = 244 \<and> second 128 143 \<and> conts 3 then Some 4
            else None))"

definition utf8_encode :: "nat \<Rightarrow> string" where
  "utf8_encode r = map char_of
     (if r < 128 then [r]
      else if r < 2048 then [192 + r div 64, 128 + r mod 64]
      else if r < 65536 then [224 + r div 4096, 128 + r div 64 mod 64, 128 + r mod 64]
      else [240 + r div 262144, 128 + r div 4096 mod 64, 128 + r div 64 mod 64, 128 + r mod 64])"

definition replacement :: "nat" where "replacement = 65533"

section \<open>Parsing\<close>

definition hex4 :: "string \<Rightarrow> nat option" where
  "hex4 s = (if length s < 4 then None
     else case map digit_value (take 4 s) of
       [Some a, Some b, Some c, Some d] \<Rightarrow>
         (if a < 16 \<and> b < 16 \<and> c < 16 \<and> d < 16 then Some (((a * 16 + b) * 16 + c) * 16 + d) else None)
     | _ \<Rightarrow> None)"

definition surrogate :: "nat \<Rightarrow> bool" where
  "surrogate r \<longleftrightarrow> 55296 \<le> r \<and> r \<le> 57343"

text \<open>After a backslash: the bytes denoted and the rest of the text.\<close>

definition json_escape :: "string \<Rightarrow> (string \<times> string) option" where
  "json_escape s = (case s of
       [] \<Rightarrow> None
     | c # cs \<Rightarrow>
        if c = CHR 0x22 \<or> c = CHR 0x5C \<or> c = CHR ''/'' then Some ([c], cs)
        else if c = CHR ''b'' then Some ([CHR 0x08], cs)
        else if c = CHR ''f'' then Some ([CHR 0x0C], cs)
        else if c = CHR ''n'' then Some ([CHR 0x0A], cs)
        else if c = CHR ''r'' then Some ([CHR 0x0D], cs)
        else if c = CHR ''t'' then Some ([CHR 0x09], cs)
        else if c = CHR ''u'' then
          (case hex4 cs of
             None \<Rightarrow> None
           | Some r \<Rightarrow>
               if surrogate r then
                 (case (if take 2 (drop 4 cs) = [CHR 0x5C, CHR ''u''] then hex4 (drop 6 cs) else None) of
                    Some r2 \<Rightarrow> if r < 56320 \<and> 56320 \<le> r2 \<and> r2 \<le> 57343
                      then Some (utf8_encode (65536 + (r - 55296) * 1024 + (r2 - 56320)), drop 10 cs)
                      else Some (utf8_encode replacement, drop 4 cs)
                  | None \<Rightarrow> Some (utf8_encode replacement, drop 4 cs))
               else Some (utf8_encode r, drop 4 cs))
        else None)"

lemma json_escape_shorter: "json_escape s = Some (u, rest) \<Longrightarrow> length rest < length s"
  by (auto simp: json_escape_def split: list.splits if_splits option.splits)

text \<open>The contents of a string literal whose opening quote was consumed.\<close>

function json_str :: "string \<Rightarrow> (string \<times> string) option" where
  "json_str [] = None"
| "json_str (c # cs) =
     (if c = CHR 0x22 then Some ([], cs)
      else if byte c < 32 then None
      else if c = CHR 0x5C then
        (case json_escape cs of
           None \<Rightarrow> None
         | Some (u, rest) \<Rightarrow> map_option (\<lambda>(t, r). (u @ t, r)) (json_str rest))
      else if byte c < 128 then map_option (\<lambda>(t, r). (c # t, r)) (json_str cs)
      else (case utf8_len (c # cs) of
           None \<Rightarrow> map_option (\<lambda>(t, r). (utf8_encode replacement @ t, r)) (json_str cs)
         | Some n \<Rightarrow> map_option (\<lambda>(t, r). (c # take (n - 1) cs @ t, r)) (json_str (drop (n - 1) cs))))"
  by pat_completeness auto
termination by (relation "measure length") (auto dest: json_escape_shorter)

text \<open>A number literal and what follows it.\<close>

definition digits :: "string \<Rightarrow> string \<times> string" where
  "digits s = (takeWhile is_digit s, dropWhile is_digit s)"

definition json_frac :: "string \<Rightarrow> (string \<times> string) option" where
  "json_frac s = (case s of
       c # cs \<Rightarrow> if c = CHR ''.''
         then (case digits cs of (ds, r) \<Rightarrow> if ds = [] then None else Some (c # ds, r))
         else Some ([], s)
     | [] \<Rightarrow> Some ([], s))"

definition json_exp :: "string \<Rightarrow> (string \<times> string) option" where
  "json_exp s = (case s of
       c # cs \<Rightarrow> if c = CHR ''e'' \<or> c = CHR ''E''
         then (let (sg, cs') = (case cs of
                   x # xs \<Rightarrow> if x = CHR ''+'' \<or> x = CHR ''-'' then ([x], xs) else ([], cs)
                 | [] \<Rightarrow> ([], cs))
               in case digits cs' of (ds, r) \<Rightarrow> if ds = [] then None else Some (c # sg @ ds, r))
         else Some ([], s)
     | [] \<Rightarrow> Some ([], s))"

definition json_number :: "string \<Rightarrow> (string \<times> string) option" where
  "json_number s =
     (let (sg, s1) = (case s of c # cs \<Rightarrow> if c = CHR ''-'' then ([c], cs) else ([], s) | [] \<Rightarrow> ([], s))
      in case digits s1 of (ds, r) \<Rightarrow>
         if ds = [] then None
         else let (ip, r1) = (if hd ds = CHR ''0'' then (''0'', tl ds @ r) else (ds, r))
              in case json_frac r1 of None \<Rightarrow> None
               | Some (fp, r2) \<Rightarrow> (case json_exp r2 of None \<Rightarrow> None
                   | Some (ep, r3) \<Rightarrow> Some (sg @ ip @ fp @ ep, r3)))"

definition strip_prefix :: "string \<Rightarrow> string \<Rightarrow> string option" where
  "strip_prefix p s = (if take (length p) s = p then Some (drop (length p) s) else None)"

text \<open>
  A value at the start of a text, after white space. Every nested call has less fuel; the length of
  the text is enough because each level consumes a character.
\<close>

fun json_value :: "nat \<Rightarrow> string \<Rightarrow> (json \<times> string) option"
  and json_elements :: "nat \<Rightarrow> string \<Rightarrow> (json list \<times> string) option"
  and json_members :: "nat \<Rightarrow> string \<Rightarrow> ((string \<times> json) list \<times> string) option" where
  "json_value 0 s = None"
| "json_value (Suc n) s = (case skip_ws s of
       [] \<Rightarrow> None
     | c # cs \<Rightarrow>
        if c = CHR ''{'' then
          (case skip_ws cs of
             d # ds \<Rightarrow> if d = CHR ''}'' then Some (JObj [], ds)
               else map_option (\<lambda>(ms, r). (JObj ms, r)) (json_members n cs)
           | [] \<Rightarrow> None)
        else if c = CHR ''['' then
          (case skip_ws cs of
             d # ds \<Rightarrow> if d = CHR '']'' then Some (JArr [], ds)
               else map_option (\<lambda>(vs, r). (JArr vs, r)) (json_elements n cs)
           | [] \<Rightarrow> None)
        else if c = CHR 0x22 then map_option (\<lambda>(t, r). (JStr t, r)) (json_str cs)
        else if c = CHR ''t'' then map_option (\<lambda>r. (JBool True, r)) (strip_prefix ''true'' (c # cs))
        else if c = CHR ''f'' then map_option (\<lambda>r. (JBool False, r)) (strip_prefix ''false'' (c # cs))
        else if c = CHR ''n'' then map_option (\<lambda>r. (JNull, r)) (strip_prefix ''null'' (c # cs))
        else map_option (\<lambda>(l, r). (JNum l, r)) (json_number (c # cs)))"
| "json_elements 0 s = None"
| "json_elements (Suc n) s = (case json_value n s of
       None \<Rightarrow> None
     | Some (v, r) \<Rightarrow> (case skip_ws r of
           c # cs \<Rightarrow> if c = CHR '']'' then Some ([v], cs)
             else if c = CHR '','' then map_option (\<lambda>(vs, q). (v # vs, q)) (json_elements n cs)
             else None
         | [] \<Rightarrow> None))"
| "json_members 0 s = None"
| "json_members (Suc n) s = (case skip_ws s of
       c # cs \<Rightarrow> if c = CHR 0x22 then (case json_str cs of
           None \<Rightarrow> None
         | Some (k, r) \<Rightarrow> (case skip_ws r of
               d # ds \<Rightarrow> if d = CHR '':'' then (case json_value n ds of
                   None \<Rightarrow> None
                 | Some (v, q) \<Rightarrow> (case skip_ws q of
                       e # es \<Rightarrow> if e = CHR ''}'' then Some ([(k, v)], es)
                         else if e = CHR '','' then map_option (\<lambda>(ms, z). ((k, v) # ms, z)) (json_members n es)
                         else None
                     | [] \<Rightarrow> None))
                 else None
             | [] \<Rightarrow> None))
         else None
     | [] \<Rightarrow> None)"

text \<open>Every success leaves less text, and more fuel does not change a success.\<close>

lemma json_str_shorter: "json_str s = Some (t, r) \<Longrightarrow> length r < length s"
proof (induction s arbitrary: t r rule: json_str.induct)
  case (2 c cs)
  show ?case
  proof (cases "c = CHR 0x22 \<or> byte c < 32")
    case True
    then show ?thesis using "2.prems" by (auto split: if_splits)
  next
    case False
    then show ?thesis using "2.prems" "2.IH"
      by (fastforce split: if_splits option.splits dest: json_escape_shorter)
  qed
qed simp

lemma json_frac_length: "json_frac s = Some (x, r) \<Longrightarrow> length r \<le> length s"
  by (auto simp: json_frac_def digits_def length_dropWhile_le le_SucI split: list.splits if_splits)

lemma json_exp_length: "json_exp s = Some (x, r) \<Longrightarrow> length r \<le> length s"
  by (auto simp: json_exp_def digits_def length_dropWhile_le le_SucI split: list.splits if_splits)

lemma digits_shorter: "digits s = (ds, r) \<Longrightarrow> ds \<noteq> [] \<Longrightarrow> length (tl ds @ r) < length s"
proof -
  assume d: "digits s = (ds, r)" "ds \<noteq> []"
  then have "ds @ r = s" by (auto simp: digits_def)
  then show ?thesis using d(2) by (cases ds) auto
qed

lemma json_number_shorter:
  assumes "json_number s = Some (l, r)"
  shows "length r < length s"
proof -
  define s1 where "s1 = (case s of c # cs \<Rightarrow> if c = CHR ''-'' then cs else s | [] \<Rightarrow> s)"
  obtain ds q where d: "digits s1 = (ds, q)" by fastforce
  have s1: "length s1 \<le> length s" by (auto simp: s1_def split: list.splits)
  from assms d obtain r1 fp r2 ep where ds: "ds \<noteq> []" and r1: "r1 = (if hd ds = CHR ''0'' then tl ds @ q else q)"
    and fr: "json_frac r1 = Some (fp, r2)" and ex: "json_exp r2 = Some (ep, r)"
    unfolding json_number_def s1_def
    by (cases s; auto simp: Let_def split: if_splits option.splits prod.splits)
  have "length r1 < length s1" using digits_shorter [OF d ds] by (simp add: r1)
  then show ?thesis using json_frac_length [OF fr] json_exp_length [OF ex] s1 by linarith
qed

lemma strip_prefix_length: "strip_prefix p s = Some r \<Longrightarrow> length r \<le> length s - length p"
  by (auto simp: strip_prefix_def split: if_splits)

lemma skip_ws_Cons: "skip_ws s = c # cs \<Longrightarrow> length cs < length s"
  using length_skip_ws [of s] by simp

lemma json_shorter:
  "json_value n s = Some (v, r) \<Longrightarrow> length r < length s"
  "json_elements n s = Some (vs, r) \<Longrightarrow> length r < length s"
  "json_members n s = Some (ms, r) \<Longrightarrow> length r < length s"
proof (induction n s and n s and n s arbitrary: v r and vs r and ms r
    rule: json_value_json_elements_json_members.induct)
  case (2 n s)
  from "2.prems" obtain c cs where c: "skip_ws s = c # cs" by (cases "skip_ws s") auto
  have len: "length cs < length s" by (rule skip_ws_Cons [OF c])
  have sub: "skip_ws cs = d # ds \<Longrightarrow> length ds < length s" for d ds using skip_ws_Cons len by fastforce
  have pre: "strip_prefix (x # xs) (c # cs) = Some q \<Longrightarrow> length q < length s" for x xs q
    using strip_prefix_length [of "x # xs" "c # cs" q] len by simp
  have num: "json_number (c # cs) = Some (l, q) \<Longrightarrow> length q < length s" for l q
    using json_number_shorter [of "c # cs" l q] len by simp
  have str: "json_str cs = Some (t, q) \<Longrightarrow> length q < length s" for t q
    using json_str_shorter [of cs t q] len by simp
  consider (obj) "c = CHR ''{''" | (arr) "c = CHR ''[''" | (lit) "c \<noteq> CHR ''{''" "c \<noteq> CHR ''[''" by blast
  then show ?case
  proof cases
    case obj
    show ?thesis
    proof (cases "skip_ws cs")
      case Nil
      then show ?thesis using "2.prems" obj c by simp
    next
      case (Cons d ds)
      show ?thesis
      proof (cases "d = CHR ''}''")
        case True
        then show ?thesis using "2.prems" obj c Cons sub by auto
      next
        case False
        then obtain ms where "json_members n cs = Some (ms, r)" using "2.prems" obj c Cons by auto
        then have "length r < length cs" by (rule "2.IH"(1) [OF c obj Cons False])
        then show ?thesis using len by linarith
      qed
    qed
  next
    case arr
    then have nobj: "c \<noteq> CHR ''{''" by simp
    show ?thesis
    proof (cases "skip_ws cs")
      case Nil
      then show ?thesis using "2.prems" arr c by simp
    next
      case (Cons d ds)
      show ?thesis
      proof (cases "d = CHR '']''")
        case True
        then show ?thesis using "2.prems" arr c Cons sub by auto
      next
        case False
        then obtain vs where "json_elements n cs = Some (vs, r)" using "2.prems" arr c Cons by auto
        then have "length r < length cs" by (rule "2.IH"(2) [OF c nobj arr Cons False])
        then show ?thesis using len by linarith
      qed
    qed
  next
    case lit
    then show ?thesis using "2.prems" pre num str c by (auto split: if_splits)
  qed
next
  case (4 n s)
  from "4.prems" obtain v q c cs where v: "json_value n s = Some (v, q)" "skip_ws q = c # cs"
    by (auto split: option.splits list.splits)
  have len: "length cs < length s" using "4.IH"(1) [OF v(1)] skip_ws_Cons [OF v(2)] by linarith
  show ?case
    using "4.prems" v len "4.IH"(2) [OF v(1) refl v(2)] by (fastforce split: if_splits)
next
  case (6 n s)
  from "6.prems" obtain k cs r1 ds v q e es where
    c: "skip_ws s = CHR 0x22 # cs" "json_str cs = Some (k, r1)" "skip_ws r1 = CHR '':'' # ds"
      "json_value n ds = Some (v, q)" "skip_ws q = e # es"
    by (auto split: option.splits list.splits if_splits)
  have "length ds < length s" using skip_ws_Cons [OF c(1)] json_str_shorter [OF c(2)] skip_ws_Cons [OF c(3)] by linarith
  moreover have "length q < length ds" by (rule "6.IH"(1)) (use c in auto)
  ultimately have len: "length es < length s" using skip_ws_Cons [OF c(5)] by linarith
  have "json_members n es = Some (ms', q') \<Longrightarrow> e = CHR '','' \<Longrightarrow> length q' < length es" for ms' q'
    by (rule "6.IH"(2)) (use c in auto)
  then show ?case using "6.prems" c len by (fastforce split: if_splits)
qed auto

text \<open>Any fuel from twice the length on gives the same result: the fuel of \<open>json_parse\<close> is enough.\<close>

lemma json_fuel:
  "(2 * length s + 1 \<le> n \<longrightarrow> 2 * length s + 1 \<le> m \<longrightarrow> json_value n s = json_value m s) \<and>
   (2 * length s + 2 \<le> n \<longrightarrow> 2 * length s + 2 \<le> m \<longrightarrow> json_elements n s = json_elements m s) \<and>
   (2 * length s + 2 \<le> n \<longrightarrow> 2 * length s + 2 \<le> m \<longrightarrow> json_members n s = json_members m s)"
proof (induction s arbitrary: n m rule: length_induct)
  case (1 s)
  have E: "json_elements n t = json_elements m t" "json_members n t = json_members m t"
    if "length t < length s" "2 * length t + 2 \<le> n" "2 * length t + 2 \<le> m" for t n m
    using 1 that by blast+
  have V: "json_value n s = json_value m s" if le: "2 * length s + 1 \<le> n" "2 * length s + 1 \<le> m" for n m
  proof -
    obtain n' m' where nm: "n = Suc n'" "m = Suc m'" using le by (cases n; cases m) auto
    have "json_elements n' cs = json_elements m' cs" "json_members n' cs = json_members m' cs"
      if "skip_ws s = c # cs" for c cs
      using skip_ws_Cons [OF that] \<open>2 * length s + 1 \<le> n\<close> \<open>2 * length s + 1 \<le> m\<close> nm by (auto intro!: E)
    then show ?thesis by (simp add: nm split: list.splits)
  qed
  have V': "json_value n t = json_value m t"
    if "length t < length s" "2 * length t + 1 \<le> n" "2 * length t + 1 \<le> m" for t n m
    using 1 that by blast
  have "json_elements n s = json_elements m s" if le: "2 * length s + 2 \<le> n" "2 * length s + 2 \<le> m" for n m
  proof -
    obtain n' m' where nm: "n = Suc n'" "m = Suc m'" using le by (cases n; cases m) auto
    have v: "json_value n' s = json_value m' s" using le nm by (intro V) auto
    have "json_elements n' cs = json_elements m' cs" if "json_value m' s = Some (v, r)" "skip_ws r = c # cs" for v r c cs
      using json_shorter(1) [OF that(1)] skip_ws_Cons [OF that(2)] le nm by (intro E) auto
    then show ?thesis by (simp add: nm v split: option.splits list.splits)
  qed
  moreover have "json_members n s = json_members m s" if le: "2 * length s + 2 \<le> n" "2 * length s + 2 \<le> m" for n m
  proof -
    obtain n' m' where nm: "n = Suc n'" "m = Suc m'" using le by (cases n; cases m) auto
    have v: "json_value n' ds = json_value m' ds"
      if "skip_ws s = CHR 0x22 # cs" "json_str cs = Some (k, r)" "skip_ws r = d # ds" for cs k r d ds
      using skip_ws_Cons [OF that(1)] json_str_shorter [OF that(2)] skip_ws_Cons [OF that(3)] le nm
      by (intro V') auto
    have "json_members n' es = json_members m' es"
      if "skip_ws s = CHR 0x22 # cs" "json_str cs = Some (k, r)" "skip_ws r = d # ds" "json_value m' ds = Some (v, q)"
        "skip_ws q = e # es" for cs k r d ds v q e es
      using skip_ws_Cons [OF that(1)] json_str_shorter [OF that(2)] skip_ws_Cons [OF that(3)] json_shorter(1) [OF that(4)]
        skip_ws_Cons [OF that(5)] le nm
      by (intro E) auto
    then show ?thesis by (simp add: nm v split: option.splits list.splits)
  qed
  ultimately show ?case using V by blast
qed

definition json_parse :: "string \<Rightarrow> json option" where
  "json_parse s = (case json_value (2 * length s + 2) s of
       Some (v, r) \<Rightarrow> if skip_ws r = [] then Some v else None
     | None \<Rightarrow> None)"

lemma json_parse_fuel:
  "2 * length s + 2 \<le> n \<Longrightarrow> json_parse s = (case json_value n s of
     Some (v, r) \<Rightarrow> if skip_ws r = [] then Some v else None | None \<Rightarrow> None)"
  unfolding json_parse_def by (subst json_fuel [of s n "2 * length s + 2", THEN conjunct1, rule_format]) auto

text \<open>
  Parsing does not depend on the bound given to the recursion: any bound from twice the length of the
  text on yields the same value and the same rest, or the same refusal.
\<close>

lemma json_parser_fuel_enough:
  assumes "2 * length s + 1 \<le> n"
  shows "json_value n s = json_value (2 * length s + 1) s \<and>
    json_parse s = (case json_value (2 * length s + 1) s of
       Some (v, r) \<Rightarrow> if skip_ws r = [] then Some v else None | None \<Rightarrow> None)"
proof -
  have e: "json_value m s = json_value (2 * length s + 1) s" if "2 * length s + 1 \<le> m" for m
    using json_fuel [of s m "2 * length s + 1"] that by blast
  show ?thesis using e [OF assms] e [of "2 * length s + 2"] by (simp add: json_parse_def)
qed

section \<open>Numbers\<close>

text \<open>
  \<open>strconv.ParseFloat(s, 64)\<close> of a number literal: the nearest value to \<open>m * 10^k\<close>. The quotient is
  computed to more than 64 bits and its last bit made sticky, which rounds correctly. \<open>None\<close> is a
  magnitude out of range.
\<close>

definition nat_of_digits :: "string \<Rightarrow> nat" where
  "nat_of_digits ds = foldl (\<lambda>n c. 10 * n + (byte c - 48)) 0 ds"

definition f64_of_ratio :: "bool \<Rightarrow> nat \<Rightarrow> nat \<Rightarrow> float64 option" where
  "f64_of_ratio neg n d =
     (let s = bitlen d + 66 - bitlen n; q = n * 2 ^ s div d; r = n * 2 ^ s mod d;
          b = encode_float 52 11 neg (2 * q + (if r = 0 then 0 else 1)) (- int s - 1)
      in if decode_float 52 11 b = Inf neg then None else Some (word_of_nat b))"

definition parse_float :: "string \<Rightarrow> float64 option" where
  "parse_float l =
     (let neg = (l \<noteq> [] \<and> hd l = CHR ''-''); l1 = (if neg then tl l else l);
          ip = takeWhile is_digit l1; l2 = dropWhile is_digit l1;
          fp = (if l2 \<noteq> [] \<and> hd l2 = CHR ''.'' then takeWhile is_digit (tl l2) else []);
          l3 = (if l2 \<noteq> [] \<and> hd l2 = CHR ''.'' then dropWhile is_digit (tl l2) else l2);
          l4 = tl l3; eneg = (l4 \<noteq> [] \<and> hd l4 = CHR ''-'');
          ed = (if l4 \<noteq> [] \<and> (hd l4 = CHR ''-'' \<or> hd l4 = CHR ''+'') then tl l4 else l4);
          x = (if l3 = [] then 0 else if eneg then - int (nat_of_digits ed) else int (nat_of_digits ed));
          k = x - int (length fp); m = nat_of_digits (ip @ fp)
      in if 0 \<le> k then f64_of_ratio neg (m * 10 ^ nat k) 1 else f64_of_ratio neg m (10 ^ nat (- k)))"

section \<open>Unmarshal\<close>

definition json_error :: error where
  "json_error = ExtError ''encoding/json''"

text \<open>Into an \<open>interface{}\<close>: a repeated member overwrites the earlier one.\<close>

definition put_entry :: "(string \<times> goval) list \<Rightarrow> string \<Rightarrow> goval \<Rightarrow> (string \<times> goval) list" where
  "put_entry kvs k v = filter (\<lambda>e. fst e \<noteq> k) kvs @ [(k, v)]"

fun json_any :: "json \<Rightarrow> goval option" where
  "json_any JNull = Some VNil"
| "json_any (JBool b) = Some (VBool b)"
| "json_any (JNum l) = map_option VFloat64 (parse_float l)"
| "json_any (JStr s) = Some (VString s)"
| "json_any (JArr vs) =
     map_option VSlice (foldr (\<lambda>v acc. case json_any v of
         None \<Rightarrow> None | Some g \<Rightarrow> map_option (\<lambda>gs. g # gs) acc) vs (Some []))"
| "json_any (JObj ms) =
     map_option VMap (foldl (\<lambda>acc (k, v). case json_any v of
         None \<Rightarrow> None | Some g \<Rightarrow> map_option (\<lambda>kvs. put_entry kvs k g) acc) (Some []) ms)"

definition unmarshal_any :: "string \<Rightarrow> goval result" where
  "unmarshal_any s = (case json_parse s of
       None \<Rightarrow> Err json_error
     | Some j \<Rightarrow> (case json_any j of None \<Rightarrow> Err json_error | Some v \<Rightarrow> Ok v))"

text \<open>Into a \<open>map[string]interface{}\<close>; \<open>null\<close> leaves the map nil, which finds nothing.\<close>

definition unmarshal_map :: "string \<Rightarrow> (string \<rightharpoonup> goval) result" where
  "unmarshal_map s = (case json_parse s of
       Some JNull \<Rightarrow> Ok Map.empty
     | Some (JObj ms) \<Rightarrow> (case json_any (JObj ms) of
           Some (VMap kvs) \<Rightarrow> Ok (map_of kvs) | _ \<Rightarrow> Err json_error)
     | _ \<Rightarrow> Err json_error)"

text \<open>
  Into a struct: the members in their order, each into the field of its name, which is compared
  without case (for ASCII letters); \<open>null\<close> leaves a field alone, and members without a field are
  skipped. \<open>None\<close> is a member of the wrong type.
\<close>

definition lower :: "char \<Rightarrow> char" where
  "lower c = (if 65 \<le> byte c \<and> byte c \<le> 90 then char_of (byte c + 32) else c)"

definition field_is :: "string \<Rightarrow> string \<Rightarrow> bool" where
  "field_is name key \<longleftrightarrow> map lower key = map lower name"

definition struct_field :: "string \<Rightarrow> (json \<Rightarrow> 'a \<Rightarrow> 'a option) \<Rightarrow> (string \<times> json) list \<Rightarrow> 'a \<Rightarrow> 'a option" where
  "struct_field name dec ms x = foldl (\<lambda>acc (k, v). if field_is name k then Option.bind acc (dec v) else acc) (Some x) ms"

fun into_string :: "json \<Rightarrow> string \<Rightarrow> string option" where
  "into_string JNull x = Some x"
| "into_string (JStr s) x = Some s"
| "into_string _ x = None"

fun into_bool :: "json \<Rightarrow> bool \<Rightarrow> bool option" where
  "into_bool JNull x = Some x"
| "into_bool (JBool b) x = Some b"
| "into_bool _ x = None"

fun into_uint16 :: "json \<Rightarrow> 16 word \<Rightarrow> 16 word option" where
  "into_uint16 JNull x = Some x"
| "into_uint16 (JNum l) x = (case parse_uint 10 16 l of Ok n \<Rightarrow> Some (word_of_nat n) | _ \<Rightarrow> None)"
| "into_uint16 _ x = None"

text \<open>Into a \<open>map[string]interface{}\<close>: members are added to what is there.\<close>

fun into_map :: "json \<Rightarrow> (string \<times> goval) list \<Rightarrow> (string \<times> goval) list option" where
  "into_map JNull x = Some []"
| "into_map (JObj ms) x = foldl (\<lambda>acc (k, v). case json_any v of
     None \<Rightarrow> None | Some g \<Rightarrow> map_option (\<lambda>kvs. put_entry kvs k g) acc) (Some x) ms"
| "into_map _ x = None"

section \<open>Marshal\<close>

definition hex_lower :: "nat \<Rightarrow> char" where
  "hex_lower d = (if d < 10 then char_of (48 + d) else char_of (87 + d))"

definition hex_escape :: "nat \<Rightarrow> string" where
  "hex_escape r = [CHR 0x5C, CHR ''u'', hex_lower (r div 4096 mod 16), hex_lower (r div 256 mod 16),
     hex_lower (r div 16 mod 16), hex_lower (r mod 16)]"

text \<open>A byte below 128, with the escapes of the default (HTML-safe) encoder.\<close>

definition quote_char :: "char \<Rightarrow> string" where
  "quote_char c =
     (if c = CHR 0x22 \<or> c = CHR 0x5C then [CHR 0x5C, c]
      else if c = CHR 0x08 then [CHR 0x5C, CHR ''b'']
      else if c = CHR 0x0C then [CHR 0x5C, CHR ''f'']
      else if c = CHR 0x0A then [CHR 0x5C, CHR ''n'']
      else if c = CHR 0x0D then [CHR 0x5C, CHR ''r'']
      else if c = CHR 0x09 then [CHR 0x5C, CHR ''t'']
      else if byte c < 32 \<or> c = CHR ''<'' \<or> c = CHR ''>'' \<or> c = CHR ''&'' then hex_escape (byte c)
      else [c])"

function quote_body :: "string \<Rightarrow> string" where
  "quote_body [] = []"
| "quote_body (c # cs) =
     (if byte c < 128 then quote_char c @ quote_body cs
      else case utf8_len (c # cs) of
             None \<Rightarrow> hex_escape replacement @ quote_body cs
           | Some n \<Rightarrow>
               (let r = c # take (n - 1) cs
                in (if r = utf8_encode 8232 \<or> r = utf8_encode 8233
                    then hex_escape (if r = utf8_encode 8232 then 8232 else 8233) else r)
                   @ quote_body (drop (n - 1) cs)))"
  by pat_completeness auto
termination by (relation "measure length") auto

definition json_quote :: "string \<Rightarrow> string" where
  "json_quote s = CHR 0x22 # quote_body s @ [CHR 0x22]"

text \<open>Standard base64 with padding, the text of a byte slice.\<close>

definition base64_char :: "nat \<Rightarrow> char" where
  "base64_char i = ''ABCDEFGHIJKLMNOPQRSTUVWXYZabcdefghijklmnopqrstuvwxyz0123456789+/'' ! (i mod 64)"

fun base64 :: "nat list \<Rightarrow> string" where
  "base64 (a # b # c # bs) = (let n = (a * 256 + b) * 256 + c
     in [base64_char (n div 262144), base64_char (n div 4096), base64_char (n div 64), base64_char n] @ base64 bs)"
| "base64 [a, b] = (let n = (a * 256 + b) * 256
     in [base64_char (n div 262144), base64_char (n div 4096), base64_char (n div 64), CHR ''=''])"
| "base64 [a] = (let n = a * 65536 in [base64_char (n div 262144), base64_char (n div 4096), CHR ''='', CHR ''=''])"
| "base64 [] = []"

definition json_list :: "string result list \<Rightarrow> string result" where
  "json_list rs = rmap (\<lambda>xs. CHR ''['' # join_with '','' xs @ '']'') (traverse (\<lambda>x. x) rs)"

definition json_float64 :: "go_impl \<Rightarrow> float64 \<Rightarrow> string result" where
  "json_float64 I f = (case f64_val f of Fin s m e \<Rightarrow> Ok (impl_json64 I f) | _ \<Rightarrow> Err json_error)"

definition json_float32 :: "go_impl \<Rightarrow> float32 \<Rightarrow> string result" where
  "json_float32 I f = (case f32_val f of Fin s m e \<Rightarrow> Ok (impl_json32 I f) | _ \<Rightarrow> Err json_error)"

fun marshal :: "go_impl \<Rightarrow> goval \<Rightarrow> string result" where
  "marshal I VNil = Ok ''null''"
| "marshal I (VBool b) = Ok (show_bool b)"
| "marshal I (VInt w) = Ok (show_int (sint w))"
| "marshal I (VInt8 w) = Ok (show_int (sint w))"
| "marshal I (VInt16 w) = Ok (show_int (sint w))"
| "marshal I (VInt32 w) = Ok (show_int (sint w))"
| "marshal I (VInt64 w) = Ok (show_int (sint w))"
| "marshal I (VUint w) = Ok (show_nat (unat w))"
| "marshal I (VUint8 w) = Ok (show_nat (unat w))"
| "marshal I (VUint16 w) = Ok (show_nat (unat w))"
| "marshal I (VUint32 w) = Ok (show_nat (unat w))"
| "marshal I (VUint64 w) = Ok (show_nat (unat w))"
| "marshal I (VFloat32 f) = json_float32 I f"
| "marshal I (VFloat64 f) = json_float64 I f"
| "marshal I (VString s) = Ok (json_quote s)"
| "marshal I (VBytes bs) = Ok (CHR 0x22 # base64 (map byte bs) @ [CHR 0x22])"
| "marshal I (VBools bs) = json_list (map (\<lambda>b. Ok (show_bool b)) bs)"
| "marshal I (VUint16s ws) = json_list (map (\<lambda>w. Ok (show_nat (unat w))) ws)"
| "marshal I (VInt32s ws) = json_list (map (\<lambda>w. Ok (show_int (sint w))) ws)"
| "marshal I (VFloat64s fs) = json_list (map (json_float64 I) fs)"
| "marshal I (VSlice vs) = json_list (map (marshal I) vs)"
| "marshal I (VMap kvs) = rmap (\<lambda>xs. CHR ''{'' # join_with '','' xs @ ''}'')
     (traverse (\<lambda>(k, r). rmap (\<lambda>t. json_quote k @ CHR '':'' # t) r)
       (sort_key fst (map (\<lambda>(k, v). (k, marshal I v)) kvs)))"
| "marshal I (VOther t p) = of_answer (impl_json_other I t p)"

lemma unmarshal_any_no_nil [simp]: "no_nil (unmarshal_any s)"
  by (auto simp: unmarshal_any_def split: option.split)

lemma json_list_no_nil: "(\<And>r. r \<in> set rs \<Longrightarrow> no_nil r) \<Longrightarrow> no_nil (json_list rs)"
  by (simp add: json_list_def no_nil_traverse)

lemma marshal_no_nil [simp]: "no_nil (marshal I v)"
proof (induction v)
  case (VMap kvs)
  then have "no_nil r" if "(k, r) \<in> set (map (\<lambda>(k, v). (k, marshal I v)) kvs)" for k r
    using that by auto
  then show ?case by (auto intro!: no_nil_traverse)
qed (auto simp: json_float32_def json_float64_def intro!: json_list_no_nil split: fval.split)

section \<open>Text survives\<close>

lemma digit_value_hex: "r < 16 \<Longrightarrow> digit_value (hex_lower r) = Some r"
  by (auto simp: hex_lower_def digit_value_def)

lemma hex4_escape: "r < 65536 \<Longrightarrow> hex4 (drop 2 (hex_escape r) @ s) = Some r"
proof -
  assume "r < 65536"
  then have "r div 4096 < 16" by (simp add: div_less_iff_less_mult)
  moreover have "((r div 4096 * 16 + r div 256 mod 16) * 16 + r div 16 mod 16) * 16 + r mod 16 = r"
  proof -
    have "r div 256 div 16 = r div 4096" "r div 16 div 16 = r div 256"
      by (simp_all add: div_mult2_eq [symmetric])
    then have "r div 4096 * 16 + r div 256 mod 16 = r div 256" "r div 256 * 16 + r div 16 mod 16 = r div 16"
      by (metis div_mult_mod_eq)+
    then show ?thesis by simp
  qed
  ultimately show ?thesis by (simp add: hex4_def hex_escape_def digit_value_hex)
qed

lemma char_of_byte [simp]: "char_of (byte c) = c"
  by (simp add: byte_def)

lemma json_str_escape:
  "json_escape cs = Some (u, r) \<Longrightarrow> json_str (CHR 0x5C # cs) = map_option (\<lambda>(t, q). (u @ t, q)) (json_str r)"
  by (simp add: byte_def)

lemma json_escape_chars:
  "json_escape (CHR 0x22 # s) = Some ([CHR 0x22], s)" "json_escape (CHR 0x5C # s) = Some ([CHR 0x5C], s)"
  "json_escape (CHR ''b'' # s) = Some ([CHR 0x08], s)" "json_escape (CHR ''f'' # s) = Some ([CHR 0x0C], s)"
  "json_escape (CHR ''n'' # s) = Some ([CHR 0x0A], s)" "json_escape (CHR ''r'' # s) = Some ([CHR 0x0D], s)"
  "json_escape (CHR ''t'' # s) = Some ([CHR 0x09], s)"
  by (simp_all add: json_escape_def)

lemma json_escape_hex:
  "byte c < 128 \<Longrightarrow> json_escape (tl (hex_escape (byte c)) @ s) = Some ([c], s)"
  using hex4_escape [of "byte c" s]
  by (simp add: json_escape_def hex_escape_def surrogate_def utf8_encode_def)

lemma json_str_quote_char:
  assumes "byte c < 128"
  shows "json_str (quote_char c @ s) = map_option (\<lambda>(t, r). (c # t, r)) (json_str s)"
proof -
  consider (esc) u where "quote_char c = [CHR 0x5C, u]" "json_escape (u # s) = Some ([c], s)"
    | (hex) "quote_char c = hex_escape (byte c)"
    | (plain) "quote_char c = [c]" "c \<noteq> CHR 0x22" "c \<noteq> CHR 0x5C" "\<not> byte c < 32"
  proof (cases "quote_char c = hex_escape (byte c)")
    case False
    show ?thesis
    proof (cases "\<exists>u. quote_char c = [CHR 0x5C, u] \<and> json_escape (u # s) = Some ([c], s)")
      case True
      then show ?thesis using esc by blast
    next
      case no: False
      have "c \<noteq> CHR 0x22" "c \<noteq> CHR 0x5C" "c \<noteq> CHR 0x08" "c \<noteq> CHR 0x0C" "c \<noteq> CHR 0x0A" "c \<noteq> CHR 0x0D" "c \<noteq> CHR 0x09"
        using no json_escape_chars [of s] by (auto simp: quote_char_def)
      then show ?thesis using plain False by (auto simp: quote_char_def split: if_splits)
    qed
  qed (rule hex)
  then show ?thesis
  proof cases
    case esc
    then show ?thesis using json_str_escape [OF esc(2)] by simp
  next
    case hex
    have "hex_escape (byte c) = CHR 0x5C # tl (hex_escape (byte c))" by (simp add: hex_escape_def)
    then have "quote_char c @ s = CHR 0x5C # tl (hex_escape (byte c)) @ s" using hex by (metis append_Cons)
    then show ?thesis using json_str_escape [OF json_escape_hex [OF assms, of s]] by (simp del: json_str.simps)
  next
    case plain
    then show ?thesis using assms by simp
  qed
qed

lemma json_str_quote:
  "list_all (\<lambda>c. byte c < 128) s \<Longrightarrow> json_str (quote_body s @ CHR 0x22 # r) = Some (s, r)"
  by (induction s) (simp_all add: json_str_quote_char)

section \<open>Integers survive\<close>

lemma f64_of_ratio_int:
  assumes "n < 2 ^ 64"
  shows "f64_of_ratio neg n 1 = Some (word_of_nat (encode_float 52 11 neg n 0))"
proof -
  define s where "s = bitlen 1 + 66 - bitlen n"
  have e: "encode_float 52 11 neg (2 * (n * 2 ^ s)) (- int s - 1) = encode_float 52 11 neg n 0"
  proof -
    have "2 * (n * 2 ^ s) = n * 2 ^ Suc s" "- int s - 1 = 0 - int (Suc s)" by simp_all
    then show ?thesis by (simp only: encode_float_scale)
  qed
  have "decode_float 52 11 (encode_float 52 11 neg n 0) \<noteq> Inf neg" using assms by (rule encode_finite64)
  moreover have "f64_of_ratio neg n 1 = (let b = encode_float 52 11 neg (2 * (n * 2 ^ s)) (- int s - 1)
      in if decode_float 52 11 b = Inf neg then None else Some (word_of_nat b))"
    by (simp add: f64_of_ratio_def Let_def s_def)
  ultimately show ?thesis unfolding e Let_def by simp
qed

lemma is_digit_digit_char [simp]: "d < 10 \<Longrightarrow> is_digit (digit_char d)"
  by (simp add: is_digit_def digit_char_def byte_def)

lemma show_nat_all_digits: "list_all is_digit (show_nat n)"
  using show_nat_digits [of n] by (auto simp: list_all_iff)

lemma nat_of_digits_show_nat: "nat_of_digits (show_nat n) = n"
proof (induction n rule: show_nat.induct)
  case (1 n)
  show ?case
  proof (cases "n < 10")
    case True
    then show ?thesis by (simp add: show_nat.simps [of n] nat_of_digits_def digit_char_def byte_def)
  next
    case False
    then have "nat_of_digits (show_nat (n div 10)) = n div 10" using 1 by blast
    moreover have "nat_of_digits (xs @ [digit_char d]) = 10 * nat_of_digits xs + d" if "d < 10" for xs d
      using that by (simp add: nat_of_digits_def digit_char_def byte_def)
    ultimately show ?thesis using False by (subst show_nat.simps) simp
  qed
qed

lemma takeWhile_digits: "list_all P xs \<Longrightarrow> takeWhile P xs = xs" "list_all P xs \<Longrightarrow> dropWhile P xs = []"
  by (induction xs) auto

text \<open>The text of an integer of at most 64 bits is read as the nearest float, the one \<open>float64(i)\<close> gives.\<close>

lemma parse_float_show_int:
  assumes "\<bar>i\<bar> < 2 ^ 64"
  shows "parse_float (show_int i) = Some (f64_of_int i)"
proof -
  note d = show_nat_all_digits takeWhile_digits [OF show_nat_all_digits]
  have hd: "hd (show_nat n) \<noteq> CHR ''-''" for n
    using show_nat_all_digits [of n] by (cases "show_nat n") (auto simp: is_digit_def byte_def)
  have "nat \<bar>i\<bar> < 2 ^ 64" using assms by (simp add: nat_less_iff)
  then have r: "f64_of_ratio neg (nat \<bar>i\<bar>) 1 = Some (word_of_nat (encode_float 52 11 neg (nat \<bar>i\<bar>) 0))" for neg
    by (rule f64_of_ratio_int)
  show ?thesis
  proof (cases "i < 0")
    case True
    then have "nat (- i) = nat \<bar>i\<bar>" by simp
    then show ?thesis using True r
      by (simp add: parse_float_def show_int_def Let_def d nat_of_digits_show_nat f64_of_int_def)
  next
    case False
    then have "nat i = nat \<bar>i\<bar>" by simp
    then show ?thesis using False r hd
      by (simp add: parse_float_def show_int_def Let_def d nat_of_digits_show_nat f64_of_int_def)
  qed
qed

section \<open>Documents survive\<close>

text \<open>
  \<open>reads t j\<close>: the text \<open>t\<close> in front of a delimiter is read as \<open>j\<close>, with any sufficient fuel.
\<close>

definition delimited :: "string \<Rightarrow> bool" where
  "delimited r \<longleftrightarrow> r = [] \<or> hd r = CHR '','' \<or> hd r = CHR ''}'' \<or> hd r = CHR '']''"

definition reads :: "string \<Rightarrow> json \<Rightarrow> bool" where
  "reads t j \<longleftrightarrow> (\<forall>n r. delimited r \<longrightarrow> 2 * length (t @ r) + 1 \<le> n \<longrightarrow> json_value n (t @ r) = Some (j, r))"

lemma readsD: "reads t j \<Longrightarrow> delimited r \<Longrightarrow> 2 * length (t @ r) + 1 \<le> n \<Longrightarrow> json_value n (t @ r) = Some (j, r)"
  unfolding reads_def by blast

lemma reads_parse: "reads t j \<Longrightarrow> json_parse t = Some j"
  using readsD [of t j "[]" "2 * length t + 2"] by (simp add: json_parse_def delimited_def skip_ws_def)

definition ascii :: "string \<Rightarrow> bool" where
  "ascii s \<longleftrightarrow> list_all (\<lambda>c. byte c < 128) s"

lemma skip_ws_quote [simp]: "skip_ws (CHR 0x22 # s) = CHR 0x22 # s"
  by (simp add: skip_ws_def is_space_def byte_def)

lemma skip_ws_delims [simp]:
  "skip_ws (CHR '':'' # s) = CHR '':'' # s" "skip_ws (CHR '','' # s) = CHR '','' # s"
  "skip_ws (CHR ''}'' # s) = CHR ''}'' # s" "skip_ws (CHR ''{'' # s) = CHR ''{'' # s" "skip_ws [] = []"
  by (simp_all add: skip_ws_def is_space_def byte_def)

lemma reads_quote: "ascii s \<Longrightarrow> reads (json_quote s) (JStr s)"
  unfolding reads_def
proof (intro allI impI)
  fix n r
  assume "ascii s" and "2 * length (json_quote s @ r) + 1 \<le> n"
  then show "json_value n (json_quote s @ r) = Some (JStr s, r)"
    by (cases n) (simp_all add: json_quote_def json_str_quote ascii_def)
qed

lemma reads_literals: "reads ''null'' JNull" "reads ''true'' (JBool True)" "reads ''false'' (JBool False)"
  unfolding reads_def
  by (auto simp: skip_ws_def is_space_def byte_def strip_prefix_def elim!: Suc_le_D [THEN exE] dest!: Suc_le_D)

lemma show_nat_zero: "hd (show_nat n) = CHR ''0'' \<Longrightarrow> show_nat n = ''0''"
proof (induction n rule: show_nat.induct)
  case (1 n)
  show ?case
  proof (cases "n < 10")
    case True
    moreover have "digit_char 0 = CHR ''0''" by code_simp
    ultimately have "digit_char n = CHR ''0'' \<Longrightarrow> n = 0" using digit_value_digit_char
      by (metis option.inject zero_less_numeral)
    moreover have "show_nat 0 = ''0''" by code_simp
    moreover have "hd (show_nat n) = digit_char n" using True by (simp add: show_nat.simps [of n])
    ultimately show ?thesis using "1.prems" by metis
  next
    case False
    have ne: "show_nat (n div 10) \<noteq> []" by (subst show_nat.simps) simp
    then have "hd (show_nat (n div 10)) = CHR ''0''" using False "1.prems" by (simp add: show_nat.simps [of n])
    then have "show_nat (n div 10) = ''0''" using 1 False by blast
    then have "nat_of_digits (show_nat (n div 10)) = 0" by (simp add: nat_of_digits_def byte_def)
    then show ?thesis using False by (simp add: nat_of_digits_show_nat)
  qed
qed

lemma delimited_not_digit: "delimited r \<Longrightarrow> takeWhile is_digit r = [] \<and> dropWhile is_digit r = r"
  by (cases r) (auto simp: delimited_def is_digit_def byte_def)

lemma digits_show_nat: "delimited r \<Longrightarrow> digits (show_nat n @ r) = (show_nat n, r)"
  using takeWhile_digits [OF show_nat_all_digits] delimited_not_digit
  by (simp add: digits_def takeWhile_append2 dropWhile_append2 show_nat_all_digits [unfolded list_all_iff])

lemma json_number_show_int: "delimited r \<Longrightarrow> json_number (show_int i @ r) = Some (show_int i, r)"
proof -
  assume d: "delimited r"
  have fe: "json_frac r = Some ([], r)" "json_exp r = Some ([], r)"
    using d by (cases r; auto simp: json_frac_def json_exp_def delimited_def)+
  have z: "(if hd (show_nat n) = CHR ''0'' then (''0'', tl (show_nat n) @ r) else (show_nat n, r)) = (show_nat n, r)" for n
    using show_nat_zero [of n] by auto
  have hd: "hd (show_nat n) \<noteq> CHR ''-''" for n
    using show_nat_all_digits [of n] by (cases "show_nat n") (auto simp: is_digit_def byte_def)
  have sp: "(case show_nat n @ r of [] \<Rightarrow> ([], show_nat n @ r) | c # cs \<Rightarrow> if c = CHR ''-'' then ([c], cs) else ([], show_nat n @ r))
      = ([], show_nat n @ r)" for n
    using hd [of n] by (cases "show_nat n") auto
  show ?thesis
    by (cases "i < 0") (simp_all add: json_number_def show_int_def Let_def digits_show_nat [OF d] z fe sp split: list.split)
qed

lemma show_int_head: "\<exists>c cs. show_int i = c # cs \<and> (c = CHR ''-'' \<or> is_digit c)"
proof (cases "i < 0")
  case False
  then show ?thesis using show_nat_all_digits [of "nat i"]
    by (cases "show_nat (nat i)") (auto simp: show_int_def)
qed (simp add: show_int_def)

lemma reads_int: "reads (show_int i) (JNum (show_int i))"
  unfolding reads_def
proof (intro allI impI)
  fix n r
  assume r: "delimited r" and n: "2 * length (show_int i @ r) + 1 \<le> n"
  obtain c cs where c: "show_int i = c # cs" "c = CHR ''-'' \<or> is_digit c" using show_int_head by blast
  have "skip_ws (show_int i @ r) = show_int i @ r"
    using c by (auto simp: skip_ws_def is_space_def is_digit_def byte_def)
  moreover have "c \<notin> {CHR ''{'', CHR ''['', CHR 0x22, CHR ''t'', CHR ''f'', CHR ''n''}"
    using c(2) by (auto simp: is_digit_def byte_def)
  moreover obtain n' where "n = Suc n'" using n by (cases n) auto
  ultimately show "json_value n (show_int i @ r) = Some (JNum (show_int i), r)"
    using json_number_show_int [OF r, of i] c(1) by auto
qed

text \<open>The text of an object from the texts of its members.\<close>

definition member_text :: "string \<times> string \<Rightarrow> string" where
  "member_text kt = (case kt of (k, t) \<Rightarrow> json_quote k @ CHR '':'' # t)"

definition object_text :: "(string \<times> string) list \<Rightarrow> string" where
  "object_text kts = CHR ''{'' # join_with '','' (map member_text kts) @ ''}''"

definition member_reads :: "string \<times> string \<Rightarrow> string \<times> json \<Rightarrow> bool" where
  "member_reads kt kj \<longleftrightarrow> fst kt = fst kj \<and> ascii (fst kt) \<and> reads (snd kt) (snd kj)"

lemma members_read:
  assumes "list_all2 member_reads kts kjs" and "kts \<noteq> []"
    and "2 * length (join_with '','' (map member_text kts) @ CHR ''}'' # r) + 2 \<le> n"
  shows "json_members n (join_with '','' (map member_text kts) @ CHR ''}'' # r) = Some (kjs, r)"
  using assms
proof (induction kts kjs arbitrary: n rule: list_all2_induct)
  case Nil
  then show ?case by simp
next
  case (Cons kt kts kj kjs)
  obtain k t where kt: "kt = (k, t)" by fastforce
  obtain j where kj: "kj = (k, j)" and a: "ascii k" and rd: "reads t j"
    using Cons.hyps(1) kt by (cases kj) (auto simp: member_reads_def)
  obtain n' where n': "n = Suc n'" using Cons.prems(2) by (cases n) auto
  note q = json_str_quote [of k, folded ascii_def, OF a]
  show ?case
  proof (cases kts)
    case Nil
    then have "kjs = []" using Cons.hyps(2) by simp
    moreover have "json_value n' (t @ CHR ''}'' # r) = Some (j, CHR ''}'' # r)"
      by (rule readsD [OF rd]) (use Cons.prems(2) n' Nil kt in \<open>auto simp: delimited_def member_text_def json_quote_def\<close>)
    ultimately show ?thesis using Nil kt kj n' q
      by (simp add: member_text_def json_quote_def)
  next
    case (Cons kt2 kts2)
    define rest where "rest = join_with '','' (map member_text kts) @ CHR ''}'' # r"
    have tx: "join_with '','' (map member_text (kt # kts)) @ CHR ''}'' # r =
        CHR 0x22 # quote_body k @ CHR 0x22 # CHR '':'' # t @ CHR '','' # rest"
      by (simp add: Cons kt member_text_def json_quote_def rest_def)
    have len: "2 * length (CHR 0x22 # quote_body k @ CHR 0x22 # CHR '':'' # t @ CHR '','' # rest) + 2 \<le> Suc n'"
      using Cons.prems(2) tx n' by metis
    then have v: "json_value n' (t @ CHR '','' # rest) = Some (j, CHR '','' # rest)"
      by (intro readsD [OF rd]) (auto simp: delimited_def)
    have m: "json_members n' rest = Some (kjs, r)"
      using Cons.IH [of n'] Cons len by (simp add: rest_def)
    show ?thesis unfolding tx n' using q v m kj by simp
  qed
qed

lemma reads_object:
  assumes "list_all2 member_reads kts kjs"
  shows "reads (object_text kts) (JObj kjs)"
  unfolding reads_def
proof (intro allI impI)
  fix n r
  assume n: "2 * length (object_text kts @ r) + 1 \<le> n"
  then obtain n' where n': "n = Suc n'" by (cases n) auto
  show "json_value n (object_text kts @ r) = Some (JObj kjs, r)"
  proof (cases kts)
    case Nil
    then show ?thesis using assms n' by (simp add: object_text_def)
  next
    case (Cons kt kts')
    have "json_members n' (join_with '','' (map member_text kts) @ CHR ''}'' # r) = Some (kjs, r)"
      by (rule members_read [OF assms]) (use n n' Cons in \<open>auto simp: object_text_def\<close>)
    moreover obtain z where "join_with '','' (map member_text kts) = CHR 0x22 # z"
      by (cases kts'; cases kt) (auto simp: Cons member_text_def json_quote_def)
    ultimately show ?thesis using n' by (simp add: object_text_def)
  qed
qed

end
