(* ===== verification/Conv.thy ===== *)
theory Conv
  imports GoValue
begin

text \<open>
  Package \<open>pkg/conv\<close>: the conversions between dynamic values that the adapters call
  (\<open>conv.go\<close>) and the normaliser \<open>ValueToType\<close> of \<open>reflect.go\<close>, which brings a decoded value to
  the Go type that an EdgeX value type stands for. The lemmas say that a normalised value has
  that Go type, that integers are reduced modulo the target's width and kept when they fit, and
  which inputs are refused.

  A Go function returning \<open>(zero, err)\<close> on failure is modelled by \<open>Err\<close>: every caller in the
  sources discards the value when the error is not nil.
\<close>

section \<open>conv.go\<close>

definition ToBool :: "goval \<Rightarrow> bool result" where
  "ToBool v = (case v of VBool b \<Rightarrow> Ok b | _ \<Rightarrow> Err (Errorf ''only support bool value'' []))"

definition ToUint16 :: "goval \<Rightarrow> 16 word result" where
  "ToUint16 v = (case v of VUint16 u \<Rightarrow> Ok u | _ \<Rightarrow> Err (Errorf ''only support uint16 value'' []))"

text \<open>\<open>(uint, bool)\<close> as an option.\<close>

definition ToUint :: "go_impl \<Rightarrow> goval \<Rightarrow> 64 word option" where
  "ToUint I v = (case v of
       VUint u \<Rightarrow> Some u
     | VInt i \<Rightarrow> if 0 \<le> sint i then Some i else None
     | VString s \<Rightarrow> (case parse_uint 10 64 s of Ok n \<Rightarrow> Some (word_of_nat n) | _ \<Rightarrow> None)
     | VUint64 u \<Rightarrow> Some u
     | VInt64 i \<Rightarrow> if 0 \<le> sint i then Some i else None
     | VFloat64 f \<Rightarrow> if fval_nonneg (f64_val f) then Some (fval_to_uint I (f64_val f)) else None
     | _ \<Rightarrow> None)"

definition ToBoolSlice :: "goval \<Rightarrow> bool list result" where
  "ToBoolSlice v = (case v of
       VNil \<Rightarrow> Err (Errorf ''only bool, []bool supported, got nil'' [])
     | VBool b \<Rightarrow> Ok [b]
     | VBools bs \<Rightarrow> Ok bs
     | _ \<Rightarrow> Err (Errorf ''only bool, []bool supported, got %s'' [gotype v]))"

definition ToUint16Slice :: "goval \<Rightarrow> 16 word list result" where
  "ToUint16Slice v = (case v of
       VNil \<Rightarrow> Err (Errorf ''only uint16, []uint16 supported, got nil'' [])
     | VUint16 u \<Rightarrow> Ok [u]
     | VUint16s us \<Rightarrow> Ok us
     | _ \<Rightarrow> Err (Errorf ''only uint16, []uint16 supported, got %s'' [gotype v]))"

definition ToFloat64 :: "goval \<Rightarrow> float64 result" where
  "ToFloat64 v = (case v of
       VNil \<Rightarrow> Err (Errorf ''cannot convert nil to float64'' [])
     | VFloat64 f \<Rightarrow> Ok f
     | VFloat32 f \<Rightarrow> Ok (f64_of_f32 f)
     | VInt i \<Rightarrow> Ok (f64_of_int (sint i))
     | VInt32 i \<Rightarrow> Ok (f64_of_int (sint i))
     | VInt64 i \<Rightarrow> Ok (f64_of_int (sint i))
     | VUint u \<Rightarrow> Ok (f64_of_int (uint u))
     | VUint32 u \<Rightarrow> Ok (f64_of_int (uint u))
     | VUint64 u \<Rightarrow> Ok (f64_of_int (uint u))
     | _ \<Rightarrow> Err (Errorf ''cannot convert %T to float64'' [gotype v]))"

definition ToInt32 :: "go_impl \<Rightarrow> goval \<Rightarrow> 32 word result" where
  "ToInt32 I v = (case v of
       VNil \<Rightarrow> Err (Errorf ''cannot convert nil to int32'' [])
     | VInt32 i \<Rightarrow> Ok i
     | VInt i \<Rightarrow> Ok (ucast i)
     | VInt64 i \<Rightarrow> Ok (ucast i)
     | VFloat64 f \<Rightarrow> Ok (fval_to_sint I (f64_val f))
     | VFloat32 f \<Rightarrow> Ok (fval_to_sint I (f32_val f))
     | VUint u \<Rightarrow> Ok (ucast u)
     | VUint32 u \<Rightarrow> Ok u
     | VUint64 u \<Rightarrow> Ok (ucast u)
     | _ \<Rightarrow> Err (Errorf ''cannot convert %T to int32'' [gotype v]))"

definition ToFloat64Slice :: "goval \<Rightarrow> float64 list result" where
  "ToFloat64Slice v = (case v of
       VNil \<Rightarrow> Err (Errorf ''only float64, []float64 supported, got nil'' [])
     | VFloat64 f \<Rightarrow> Ok [f]
     | VFloat64s fs \<Rightarrow> Ok fs
     | _ \<Rightarrow> Err (Errorf ''only float64, []float64 supported, got %s'' [gotype v]))"

definition ToInt32Slice :: "goval \<Rightarrow> 32 word list result" where
  "ToInt32Slice v = (case v of
       VNil \<Rightarrow> Err (Errorf ''only int32, []int32 supported, got nil'' [])
     | VInt32 i \<Rightarrow> Ok [i]
     | VInt32s is \<Rightarrow> Ok is
     | _ \<Rightarrow> Err (Errorf ''only int32, []int32 supported, got %s'' [gotype v]))"

section \<open>reflect.go\<close>

definition toUint64 :: "go_impl \<Rightarrow> goval \<Rightarrow> 64 word result" where
  "toUint64 I v = (case v of
       VUint64 u \<Rightarrow> Ok u
     | VUint u \<Rightarrow> Ok u
     | VUint32 u \<Rightarrow> Ok (ucast u)
     | VUint16 u \<Rightarrow> Ok (ucast u)
     | VUint8 u \<Rightarrow> Ok (ucast u)
     | VInt i \<Rightarrow> if sint i < 0
         then Err (Errorf ''cannot convert negative int %d to Uint64'' [show_int (sint i)]) else Ok i
     | VInt64 i \<Rightarrow> if sint i < 0
         then Err (Errorf ''cannot convert negative int64 %d to Uint64'' [show_int (sint i)]) else Ok i
     | VInt32 i \<Rightarrow> if sint i < 0
         then Err (Errorf ''cannot convert negative int32 %d to Uint64'' [show_int (sint i)])
         else Ok (scast i)
     | VFloat64 f \<Rightarrow> if fval_neg (f64_val f)
         then Err (Errorf ''cannot convert negative float64 %f to Uint64'' [impl_fmt64 I f])
         else Ok (fval_to_uint I (f64_val f))
     | _ \<Rightarrow> Err (Errorf ''cannot convert %T to Uint64'' [gotype v]))"

definition toUint8 :: "go_impl \<Rightarrow> goval \<Rightarrow> 8 word result" where
  "toUint8 I v = rmap ucast (toUint64 I v)"

definition toUint16 :: "go_impl \<Rightarrow> goval \<Rightarrow> 16 word result" where
  "toUint16 I v = rmap ucast (toUint64 I v)"

definition toUint32 :: "go_impl \<Rightarrow> goval \<Rightarrow> 32 word result" where
  "toUint32 I v = rmap ucast (toUint64 I v)"

definition toInt64 :: "go_impl \<Rightarrow> goval \<Rightarrow> 64 word result" where
  "toInt64 I v = (case v of
       VInt64 i \<Rightarrow> Ok i
     | VInt i \<Rightarrow> Ok i
     | VInt32 i \<Rightarrow> Ok (scast i)
     | VInt16 i \<Rightarrow> Ok (scast i)
     | VInt8 i \<Rightarrow> Ok (scast i)
     | VUint64 u \<Rightarrow> Ok u
     | VUint u \<Rightarrow> Ok u
     | VUint32 u \<Rightarrow> Ok (ucast u)
     | VFloat64 f \<Rightarrow> Ok (fval_to_sint I (f64_val f))
     | _ \<Rightarrow> Err (Errorf ''cannot convert %T to Int64'' [gotype v]))"

definition toInt8 :: "go_impl \<Rightarrow> goval \<Rightarrow> 8 word result" where
  "toInt8 I v = rmap ucast (toInt64 I v)"

definition toInt16 :: "go_impl \<Rightarrow> goval \<Rightarrow> 16 word result" where
  "toInt16 I v = rmap ucast (toInt64 I v)"

definition toInt32 :: "go_impl \<Rightarrow> goval \<Rightarrow> 32 word result" where
  "toInt32 I v = rmap ucast (toInt64 I v)"

definition toFloat64 :: "goval \<Rightarrow> float64 result" where
  "toFloat64 v = (case v of
       VFloat64 f \<Rightarrow> Ok f
     | VFloat32 f \<Rightarrow> Ok (f64_of_f32 f)
     | VInt i \<Rightarrow> Ok (f64_of_int (sint i))
     | VInt64 i \<Rightarrow> Ok (f64_of_int (sint i))
     | VUint u \<Rightarrow> Ok (f64_of_int (uint u))
     | VUint64 u \<Rightarrow> Ok (f64_of_int (uint u))
     | _ \<Rightarrow> Err (Errorf ''cannot convert %T to Float64'' [gotype v]))"

definition toFloat32 :: "goval \<Rightarrow> float32 result" where
  "toFloat32 v = rmap f32_of_f64 (toFloat64 v)"

definition toString :: "go_impl \<Rightarrow> goval \<Rightarrow> string result" where
  "toString I v = (case v of
       VString s \<Rightarrow> Ok s
     | VBytes bs \<Rightarrow> Ok bs
     | _ \<Rightarrow> Ok (sprint_v I v))"

definition toBool :: "goval \<Rightarrow> bool result" where
  "toBool v = (case v of
       VBool b \<Rightarrow> Ok b
     | VInt i \<Rightarrow> Ok (i \<noteq> 0)
     | VInt64 i \<Rightarrow> Ok (i \<noteq> 0)
     | VUint u \<Rightarrow> Ok (u \<noteq> 0)
     | VUint64 u \<Rightarrow> Ok (u \<noteq> 0)
     | _ \<Rightarrow> Err (Errorf ''cannot convert %T to Bool'' [gotype v]))"

definition toBinary :: "goval \<Rightarrow> string result" where
  "toBinary v = (case v of
       VBytes bs \<Rightarrow> Ok bs
     | VString s \<Rightarrow> Ok s
     | _ \<Rightarrow> Err (Errorf ''cannot convert %T to Binary'' [gotype v]))"

definition ValueToType :: "go_impl \<Rightarrow> goval \<Rightarrow> string \<Rightarrow> goval result" where
  "ValueToType I v t =
     (if t = ''Uint8'' then rmap VUint8 (toUint8 I v)
      else if t = ''Uint16'' then rmap VUint16 (toUint16 I v)
      else if t = ''Uint32'' then rmap VUint32 (toUint32 I v)
      else if t = ''Uint64'' then rmap VUint64 (toUint64 I v)
      else if t = ''Int8'' then rmap VInt8 (toInt8 I v)
      else if t = ''Int16'' then rmap VInt16 (toInt16 I v)
      else if t = ''Int32'' then rmap VInt32 (toInt32 I v)
      else if t = ''Int64'' then rmap VInt64 (toInt64 I v)
      else if t = ''Float32'' then rmap VFloat32 (toFloat32 v)
      else if t = ''Float64'' then rmap VFloat64 (toFloat64 v)
      else if t = ''String'' then rmap VString (toString I v)
      else if t = ''Bool'' then rmap VBool (toBool v)
      else if t = ''Binary'' then rmap VBytes (toBinary v)
      else Ok v)"

section \<open>The Go type behind an EdgeX value type\<close>

definition edgex_gotype :: "string \<Rightarrow> string option" where
  "edgex_gotype t = map_of
     [(''Uint8'', ''uint8''), (''Uint16'', ''uint16''), (''Uint32'', ''uint32''),
      (''Uint64'', ''uint64''), (''Int8'', ''int8''), (''Int16'', ''int16''),
      (''Int32'', ''int32''), (''Int64'', ''int64''), (''Float32'', ''float32''),
      (''Float64'', ''float64''), (''String'', ''string''), (''Bool'', ''bool''),
      (''Binary'', ''[]uint8'')] t"

text \<open>Width and signedness of the integer value types.\<close>

definition edgex_int :: "string \<Rightarrow> (nat \<times> bool) option" where
  "edgex_int t = map_of
     [(''Uint8'', (8, False)), (''Uint16'', (16, False)), (''Uint32'', (32, False)),
      (''Uint64'', (64, False)), (''Int8'', (8, True)), (''Int16'', (16, True)),
      (''Int32'', (32, True)), (''Int64'', (64, True))] t"

text \<open>The value of width \<open>w\<close> congruent to \<open>i\<close>: two's complement wrap-around.\<close>

definition wrap_int :: "nat \<Rightarrow> bool \<Rightarrow> int \<Rightarrow> int" where
  "wrap_int w sg i = (if sg then signed_take_bit (w - 1) i else take_bit w i)"

definition fits_int :: "nat \<Rightarrow> bool \<Rightarrow> int \<Rightarrow> bool" where
  "fits_int w sg i \<longleftrightarrow>
     (if sg then - (2 ^ (w - 1)) \<le> i \<and> i < 2 ^ (w - 1) else 0 \<le> i \<and> i < 2 ^ w)"

lemma wrap_int_fits: "fits_int w sg i \<Longrightarrow> wrap_int w sg i = i"
  by (auto simp: fits_int_def wrap_int_def signed_take_bit_int_eq_self take_bit_int_eq_self)

lemmas value_to_type_defs =
  ValueToType_def toUint8_def toUint16_def toUint32_def toInt8_def toInt16_def toInt32_def

text \<open>
  Whatever \<open>ValueToType\<close> returns for a known EdgeX type has the Go type of that EdgeX type.
\<close>

lemma value_to_type_gotype:
  assumes "ValueToType I v t = Ok r" and "edgex_gotype t = Some g"
  shows "gotype r = g"
  using assms by (auto simp: ValueToType_def edgex_gotype_def rmap_Ok_iff split: if_splits)

subsection \<open>Integers\<close>

text \<open>How the readings of a word relate, and what the narrowing and widening casts do to them.\<close>

lemma sint_bound_up: "sint (w :: 'n::len word) < 2 ^ LENGTH('n)"
proof -
  have "sint w < 2 ^ (LENGTH('n) - 1)" by (rule sint_lt)
  also have "(2::int) ^ (LENGTH('n) - 1) \<le> 2 ^ LENGTH('n)" by (intro power_increasing) auto
  finally show ?thesis .
qed

lemma uint_of_nonneg: "0 \<le> sint (w :: 'n::len word) \<Longrightarrow> uint w = sint w"
proof -
  assume "0 \<le> sint w"
  then have "take_bit LENGTH('n) (sint w) = sint w"
    using sint_bound_up [of w] by (intro take_bit_int_eq_self)
  with uint_sint [of w] show ?thesis by (rule trans)
qed

lemma uint_scast: "uint (scast (w :: 'm::len word) :: 'n::len word) = take_bit LENGTH('n) (sint w)"
  by (subst scast_eq) (simp only: uint_word_of_int_eq)

lemma uint_scast_nonneg: "0 \<le> sint (w :: 32 word) \<Longrightarrow> uint (scast w :: 64 word) = sint w"
proof -
  assume "0 \<le> sint w"
  moreover have "sint w < 2 ^ 64" using sint_bound_up [of w] by simp
  ultimately have "take_bit 64 (sint w) = sint w" by (intro take_bit_int_eq_self)
  then show ?thesis by (simp only: uint_scast) simp
qed

lemma take_bit_uint:
  assumes "LENGTH('m) \<le> k" shows "take_bit k (uint (w :: 'm::len word)) = uint w"
proof -
  have "uint w < 2 ^ LENGTH('m)" by (rule unsigned_less)
  also have "(2::int) ^ LENGTH('m) \<le> 2 ^ k" using assms by (intro power_increasing) auto
  finally show ?thesis by (simp add: take_bit_int_eq_self)
qed

lemma uint_widen:
  "LENGTH('m) \<le> LENGTH('n) \<Longrightarrow> uint (ucast (w :: 'm::len word) :: 'n::len word) = uint w"
  by (simp add: unsigned_ucast_eq take_bit_uint)

lemma sint_word_uint: "sint (w :: 'n::len word) = signed_take_bit (LENGTH('n) - 1) (uint w)"
  by (simp add: sint_uint)

lemma sint_narrow:
  "LENGTH('n) \<le> LENGTH('m) \<Longrightarrow> uint w = take_bit LENGTH('m) i \<Longrightarrow>
   sint (ucast (w :: 'm::len word) :: 'n::len word) = signed_take_bit (LENGTH('n) - 1) i"
  by (simp add: sint_word_uint unsigned_ucast_eq signed_take_bit_take_bit min_def)

lemma uint_narrow:
  "LENGTH('n) \<le> LENGTH('m) \<Longrightarrow> uint w = take_bit LENGTH('m) i \<Longrightarrow>
   uint (ucast (w :: 'm::len word) :: 'n::len word) = take_bit LENGTH('n) i"
  by (simp add: unsigned_ucast_eq min_def)

lemma toUint64_int:
  assumes "goint v = Some i" and "toUint64 I v = Ok w"
  shows "uint w = i"
  using assms
  by (cases v) (auto simp: toUint64_def uint_widen uint_of_nonneg uint_scast_nonneg split: if_splits)

lemma toInt64_int:
  assumes "goint v = Some i" and "toInt64 I v = Ok w"
  shows "uint w = take_bit 64 i"
  using assms
  by (cases v) (auto simp: toInt64_def uint_widen uint_scast take_bit_uint
      intro: uint_sint [where 'a = 64, simplified])

lemma wrap_int_False [simp]: "wrap_int w False i = take_bit w i"
  by (simp add: wrap_int_def)

lemma wrap_int_True [simp]: "wrap_int w True i = signed_take_bit (w - 1) i"
  by (simp add: wrap_int_def)

lemma toUint64_take_bit: "goint v = Some i \<Longrightarrow> toUint64 I v = Ok w \<Longrightarrow> uint w = take_bit 64 i"
  using toUint64_int [of v i I w] take_bit_uint [of 64 w] by simp

lemma sint_of_take_bit: "uint (w :: 64 word) = take_bit 64 i \<Longrightarrow> sint w = signed_take_bit 63 i"
  by (simp add: sint_word_uint signed_take_bit_take_bit min_def)

text \<open>
  An integer value normalised to an integer type is the input reduced modulo the type's width
  (so \<open>uint8(u)\<close> and its kin truncate silently), for every pair of integer types that is
  accepted at all.
\<close>

lemma value_to_type_int:
  assumes "ValueToType I v t = Ok r" and "edgex_int t = Some (w, sg)" and "goint v = Some i"
  shows "goint r = Some (wrap_int w sg i)"
proof -
  have u: "\<And>x. toUint64 I v = Ok x \<Longrightarrow> uint x = take_bit 64 i"
    using assms(3) by (rule toUint64_take_bit)
  have s: "\<And>x. toInt64 I v = Ok x \<Longrightarrow> uint x = take_bit 64 i"
    using assms(3) by (rule toInt64_int)
  show ?thesis using assms(1,2)
    by (auto simp: value_to_type_defs edgex_int_def rmap_Ok_iff sint_of_take_bit
        dest!: u s simp: uint_narrow [where i = i] sint_narrow [where i = i] split: if_splits)
qed

text \<open>
  An integer type is refused only for a negative value asked for as unsigned, and for the two
  narrow types each of the two readers leaves out.
\<close>

lemma value_to_type_refuses:
  assumes "goint v = Some i" and "edgex_int t = Some (w, sg)"
  shows "(\<exists>e. ValueToType I v t = Err e) \<longleftrightarrow>
    (if sg then gotype v = ''uint8'' \<or> gotype v = ''uint16''
     else i < 0 \<or> gotype v = ''int8'' \<or> gotype v = ''int16'')"
proof -
  have u: "(\<exists>e. toUint64 I v = Err e) \<longleftrightarrow> i < 0 \<or> gotype v = ''int8'' \<or> gotype v = ''int16''"
    using assms(1) by (cases v) (auto simp: toUint64_def)
  have s: "(\<exists>e. toInt64 I v = Err e) \<longleftrightarrow> gotype v = ''uint8'' \<or> gotype v = ''uint16''"
    using assms(1) by (cases v) (auto simp: toInt64_def)
  have r: "\<And>(f :: 'x \<Rightarrow> 'y) g q. (\<exists>e. rmap g (rmap f q) = Err e) \<longleftrightarrow> (\<exists>e. q = Err e)"
    by (case_tac q) auto
  have r1: "\<And>(f :: 'x \<Rightarrow> 'y) q. (\<exists>e. rmap f q = Err e) \<longleftrightarrow> (\<exists>e. q = Err e)"
    by (case_tac q) auto
  show ?thesis using assms(2)
    by (auto simp: value_to_type_defs edgex_int_def r r1 u s split: if_splits)
qed

text \<open>
  C14: normalising a value to a known EdgeX type yields that type's Go type, and an integer input
  becomes the integer congruent to it modulo the type's width: exact when it fits, silently wrapped
  when it does not.
\<close>

theorem value_to_type_typed:
  assumes "ValueToType I v t = Ok r"
  shows "(\<forall>g. edgex_gotype t = Some g \<longrightarrow> gotype r = g) \<and>
    (\<forall>w sg i. edgex_int t = Some (w, sg) \<longrightarrow> goint v = Some i \<longrightarrow>
       goint r = Some (wrap_int w sg i) \<and> (fits_int w sg i \<longrightarrow> goint r = Some i))"
  using assms value_to_type_gotype [of I v t r] value_to_type_int [of I v t r]
  by (auto simp: wrap_int_fits)

theorem value_to_type_typed_witness:
  "\<forall>I. goint (VUint8 0x34) = Some (wrap_int 8 False 0x1234) \<and> ValueToType I (VUint16 0x1234) ''Uint8'' = Ok (VUint8 0x34)"
proof
  fix I
  have e: "ValueToType I (VUint16 0x1234) ''Uint8'' = Ok (VUint8 0x34)"
    by (simp add: value_to_type_defs toUint64_def)
  with value_to_type_typed [OF e]
  show "goint (VUint8 0x34) = Some (wrap_int 8 False 0x1234) \<and>
      ValueToType I (VUint16 0x1234) ''Uint8'' = Ok (VUint8 0x34)"
    by (simp add: edgex_int_def)
qed

text \<open>
  An integer is refused by an integer type exactly when it is negative and the type unsigned, or
  when it has one of the two narrow types that the signed and the unsigned reader leave out.
\<close>

theorem value_to_type_int_error:
  assumes "goint v = Some i" and "edgex_int t = Some (w, sg)"
  shows "(\<exists>e. ValueToType I v t = Err e) \<longleftrightarrow>
    (if sg then gotype v = ''uint8'' \<or> gotype v = ''uint16''
     else i < 0 \<or> gotype v = ''int8'' \<or> gotype v = ''int16'')"
  using assms by (rule value_to_type_refuses)

theorem value_to_type_int_error_witness:
  "\<forall>I. \<exists>e. ValueToType I (VUint16 7) ''Int32'' = Err e"
  using value_to_type_int_error [of "VUint16 7" 7 "''Int32''" 32 True] by (simp add: edgex_int_def)

text \<open>JSON numbers, which reach the code as \<open>float64\<close>.\<close>

lemma toUint64_float:
  assumes "0 \<le> i" and "i < 2 ^ 53"
  shows "toUint64 I (VFloat64 (f64_of_int i)) = Ok (word_of_int i)"
  using assms by (simp add: toUint64_def fval_neg_of_int fval_to_uint_of_int)

lemma toInt64_float:
  assumes "\<bar>i\<bar> < 2 ^ 53"
  shows "toInt64 I (VFloat64 (f64_of_int i)) = Ok (word_of_int i)"
  using assms by (simp add: toInt64_def fval_to_sint_of_int abs_less_iff)

lemma uint_word64: "uint (word_of_int i :: 64 word) = take_bit 64 i"
  by (simp add: uint_word_of_int_eq)

text \<open>
  C29: a JSON number that is an integer (below 2^53, so exact in a \<open>float64\<close>) reaches the integer type
  it is normalised to unchanged when it fits that type.
\<close>

theorem value_to_type_json_number:
  assumes "\<bar>i\<bar> < 2 ^ 53" and "edgex_int t = Some (w, sg)" and "fits_int w sg i"
  shows "\<exists>r. ValueToType I (VFloat64 (f64_of_int i)) t = Ok r \<and> goint r = Some i"
proof -
  have w: "wrap_int w sg i = i" using assms(3) by (rule wrap_int_fits)
  show ?thesis
  proof (cases sg)
    case True
    have "toInt64 I (VFloat64 (f64_of_int i)) = Ok (word_of_int i)"
      using assms(1) by (rule toInt64_float)
    then show ?thesis using True assms(2) w
      by (auto simp: value_to_type_defs edgex_int_def sint_of_take_bit uint_word64
          sint_narrow [where i = i] split: if_splits)
  next
    case False
    then have "0 \<le> i" using assms(3) by (simp add: fits_int_def)
    then have "toUint64 I (VFloat64 (f64_of_int i)) = Ok (word_of_int i)"
      using assms(1) by (intro toUint64_float) auto
    then show ?thesis using False assms(2) w
      by (auto simp: value_to_type_defs edgex_int_def uint_word64
          uint_narrow [where i = i] split: if_splits)
  qed
qed

theorem value_to_type_json_number_witness:
  "\<forall>I. \<exists>r. ValueToType I (VFloat64 (f64_of_int (- 40))) ''Int16'' = Ok r \<and> goint r = Some (- 40)"
  using value_to_type_json_number [of "- 40" "''Int16''" 16 True] by (simp add: edgex_int_def fits_int_def)

lemma ToUint_decimal: "n < 2 ^ 64 \<Longrightarrow> ToUint I (VString (show_nat n)) = Some (word_of_nat n)"
  by (simp add: ToUint_def parse_uint_show_nat)

lemma ToUint_negative: "goint v = Some i \<Longrightarrow> i < 0 \<Longrightarrow> ToUint I v = None"
  by (cases v) (auto simp: ToUint_def)

section \<open>No conversion panics\<close>

lemma ToBool_total [simp]: "ToBool v \<noteq> Panic m"
  by (auto simp: ToBool_def split: goval.splits)

lemma ToBoolSlice_total [simp]: "ToBoolSlice v \<noteq> Panic m"
  by (auto simp: ToBoolSlice_def ToBool_def rmap_Panic_iff split: goval.splits)

lemma ToUint16Slice_total [simp]: "ToUint16Slice v \<noteq> Panic m"
  by (auto simp: ToUint16Slice_def ToUint16_def rmap_Panic_iff split: goval.splits)

lemma ValueToType_no_nil [simp]: "no_nil (ValueToType I v t)"
  by (rule no_nil_total) (auto simp: ValueToType_def rmap_Panic_iff rbind_Panic_iff toUint8_def toUint16_def toUint32_def
      toUint64_def toInt8_def toInt16_def toInt32_def toInt64_def toFloat32_def toFloat64_def toString_def toBool_def
      toBinary_def split: goval.splits if_splits)

end
