(* ===== verification/Codec.thy ===== *)
theory Codec
  imports Conv
begin

text \<open>
  Package \<open>pkg/parser\<close>: the named decoders (\<open>decoder.go\<close>), which turn Modbus registers into a
  MAC address, an IPv4 address or a 32-bit number, and the named encoders (\<open>encoder.go\<close>), which
  turn such a value back into registers; then the round trips between them.
\<close>

unbundle bit_operations_syntax

section \<open>decoder.go\<close>

text \<open>\<open>byte(r >> 8)\<close> and \<open>byte(r & 0xFF)\<close>.\<close>

definition hi_byte :: "16 word \<Rightarrow> 8 word" where
  "hi_byte r = ucast (drop_bit 8 r)"

definition lo_byte :: "16 word \<Rightarrow> 8 word" where
  "lo_byte r = ucast (r AND 0xFF)"

definition decodeMACAddress :: "goval \<Rightarrow> goval result" where
  "decodeMACAddress rawData = (case rawData of
       VUint16s data \<Rightarrow>
         if length data < 3
         then Err (Errorf ''data too short for MAC address: expected 3 registers'' [])
         else Ok (VString (join_with '':''
                [show_hex2 (hi_byte (data ! 0)), show_hex2 (lo_byte (data ! 0)),
                 show_hex2 (hi_byte (data ! 1)), show_hex2 (lo_byte (data ! 1)),
                 show_hex2 (hi_byte (data ! 2)), show_hex2 (lo_byte (data ! 2))]))
     | _ \<Rightarrow> Err (Errorf ''invalid data type: expected []uint16 for MAC address'' []))"

definition decodeIPv4Address :: "goval \<Rightarrow> goval result" where
  "decodeIPv4Address rawData = (case rawData of
       VUint16s data \<Rightarrow>
         if length data < 2
         then Err (Errorf ''data too short for IPv4 address: expected 2 registers'' [])
         else Ok (VString (join_with ''.''
                [show_nat (unat (hi_byte (data ! 0))), show_nat (unat (lo_byte (data ! 0))),
                 show_nat (unat (hi_byte (data ! 1))), show_nat (unat (lo_byte (data ! 1)))]))
     | _ \<Rightarrow> Err (Errorf ''invalid data type: expected []uint16 for IPv4 address'' []))"

definition decode_toUint32 :: "goval \<Rightarrow> goval result" where
  "decode_toUint32 rawData = (case rawData of
       VUint16s data \<Rightarrow>
         if length data < 2
         then Err (Errorf ''data too short for uint32: expected 2 registers'' [])
         else Ok (VUint32 (push_bit 16 (ucast (data ! 0)) OR ucast (data ! 1)))
     | _ \<Rightarrow> Err (Errorf ''invalid data type: expected []uint16 for uint32'' []))"

definition decoderMap :: "string \<rightharpoonup> (goval \<Rightarrow> goval result)" where
  "decoderMap = map_of
     [(''decodeMACAddress'', decodeMACAddress),
      (''decodeIPv4Address'', decodeIPv4Address),
      (''toUint32'', decode_toUint32)]"

definition DecodeRData :: "string \<Rightarrow> goval \<Rightarrow> goval result" where
  "DecodeRData functionName rawReadData = (case decoderMap functionName of
       None \<Rightarrow> Err (Errorf ''parser with name '%s' not found'' [functionName])
     | Some fn \<Rightarrow> fn rawReadData)"

section \<open>encoder.go\<close>

text \<open>\<open>uint16(hi)<<8 | uint16(lo)\<close>, and the byte slice of \<open>2 k\<close> entries cut into registers.\<close>

definition mk_reg :: "8 word \<Rightarrow> 8 word \<Rightarrow> 16 word" where
  "mk_reg h l = push_bit 8 (ucast h) OR ucast l"

text \<open>The loop \<open>for i, p := range parts { val, err := strconv.ParseUint(p, base, 8); ...; b[i] = byte(val) }\<close>.\<close>

definition parse_octets :: "string \<Rightarrow> nat \<Rightarrow> string list \<Rightarrow> 8 word list result" where
  "parse_octets fmt base parts =
     traverse (\<lambda>p. wrap_err fmt [p] (rmap word_of_nat (parse_uint base 8 p))) parts"

definition encodeMACAddress :: "goval \<Rightarrow> 16 word list result" where
  "encodeMACAddress v = (case v of
       VString s \<Rightarrow>
         let parts = split_on (CHR '':'') s
         in if length parts \<noteq> 6 then Err (Errorf ''encodeMACAddress: invalid format %q'' [s])
            else rbind (parse_octets ''encodeMACAddress: bad octet %q: %w'' 16 parts) (\<lambda>b.
              Ok [mk_reg (b ! 0) (b ! 1), mk_reg (b ! 2) (b ! 3), mk_reg (b ! 4) (b ! 5)])
     | _ \<Rightarrow> Err (Errorf ''encodeMACAddress: expected string, got %T'' [gotype v]))"

definition encodeIPv4Address :: "goval \<Rightarrow> 16 word list result" where
  "encodeIPv4Address v = (case v of
       VString s \<Rightarrow>
         let parts = split_on (CHR ''.'') s
         in if length parts \<noteq> 4 then Err (Errorf ''encodeIPv4Address: invalid format %q'' [s])
            else rbind (parse_octets ''encodeIPv4Address: bad octet %q: %w'' 10 parts) (\<lambda>b.
              Ok [mk_reg (b ! 0) (b ! 1), mk_reg (b ! 2) (b ! 3)])
     | _ \<Rightarrow> Err (Errorf ''encodeIPv4Address: expected string, got %T'' [gotype v]))"

definition toUint16Slice :: "goval \<Rightarrow> 16 word list result" where
  "toUint16Slice v = (case v of
       VUint32 val \<Rightarrow> Ok [ucast (drop_bit 16 val), ucast (val AND 0xFFFF)]
     | _ \<Rightarrow> Err (Errorf ''input type must be uint32, got %T'' [gotype v]))"

definition encoderMap :: "string \<rightharpoonup> (goval \<Rightarrow> 16 word list result)" where
  "encoderMap = map_of
     [(''encodeMACAddress'', encodeMACAddress),
      (''encodeIPv4Address'', encodeIPv4Address),
      (''toUint16Slice'', toUint16Slice)]"

definition EncodeWData :: "string \<Rightarrow> goval \<Rightarrow> goval result" where
  "EncodeWData functionName rawWriteData = (case encoderMap functionName of
       None \<Rightarrow> Err (Errorf ''parser with name '%s' not found'' [functionName])
     | Some fn \<Rightarrow> rmap VUint16s (fn rawWriteData))"

section \<open>Bytes and registers\<close>

lemma low_masks:
  "(0xFF :: 16 word) = mask 8" "(0xFFFF :: 32 word) = mask 16"
  by (simp_all add: mask_eq_exp_minus_1)

lemma bit_below: "bit (w :: 'n::len word) n \<Longrightarrow> n < LENGTH('n)"
  by (rule bit_imp_le_length)

lemma mk_reg_bytes [simp]: "mk_reg (hi_byte r) (lo_byte r) = r"
  unfolding mk_reg_def hi_byte_def lo_byte_def low_masks
  by (rule bit_word_eqI) (auto simp: bit_simps)

lemma hi_byte_mk_reg [simp]: "hi_byte (mk_reg h l) = h"
  unfolding mk_reg_def hi_byte_def
  by (rule bit_word_eqI) (auto simp: bit_simps dest: bit_below)

lemma lo_byte_mk_reg [simp]: "lo_byte (mk_reg h l) = l"
  unfolding mk_reg_def lo_byte_def low_masks
  by (rule bit_word_eqI) (auto simp: bit_simps dest: bit_below)

lemma word_of_nat_unat8 [simp]: "(word_of_nat (unat (b :: 8 word)) :: 8 word) = b"
  by simp

section \<open>Round trips\<close>

text \<open>Octets printed by the decoder are read back by the encoder.\<close>

lemma parse_octets_hex:
  "parse_octets fmt 16 (map show_hex2 bs) = Ok bs"
proof -
  have "parse_octets fmt 16 (map show_hex2 bs) = Ok (map (\<lambda>b. b) bs)"
    unfolding parse_octets_def
    by (induction bs) (simp_all add: parse_uint_hex2)
  then show ?thesis by simp
qed

lemma parse_octets_decimal:
  "parse_octets fmt 10 (map (\<lambda>b. show_nat (unat b)) bs) = Ok bs"
proof (induction bs)
  case Nil
  then show ?case by (simp add: parse_octets_def)
next
  case (Cons b bs)
  have "unat b < 2 ^ 8" using unsigned_less [of b, where 'a = nat] by simp
  then have "parse_uint 10 8 (show_nat (unat b)) = Ok (unat b)" by (rule parse_uint_show_nat)
  with Cons show ?case by (simp add: parse_octets_def)
qed

lemma show_hex2_no_colon: "CHR '':'' \<notin> set (show_hex2 b)"
proof -
  have "unat b div 16 < 16"
    using unsigned_less [of b, where 'a = nat] by (simp add: less_mult_imp_div_less)
  then show ?thesis using hex_char_neq [of "unat b div 16"] hex_char_neq [of "unat b mod 16"]
    by (auto simp: show_hex2_def)
qed

lemma split_hex: "bs \<noteq> [] \<Longrightarrow> split_on (CHR '':'') (join_with '':'' (map show_hex2 bs)) = map show_hex2 bs"
  using show_hex2_no_colon by (intro split_join) auto

lemma split_decimal:
  "bs \<noteq> [] \<Longrightarrow> split_on (CHR ''.'') (join_with ''.'' (map (\<lambda>b. show_nat (unat b)) bs)) =
     map (\<lambda>b. show_nat (unat (b :: 8 word))) bs"
  using show_nat_no_dot by (intro split_join) auto

lemma encodeMAC_printed:
  "encodeMACAddress (VString (join_with '':'' (map show_hex2 [a, b, c, d, e, f]))) =
     Ok [mk_reg a b, mk_reg c d, mk_reg e f]"
  using split_hex [of "[a, b, c, d, e, f]"] parse_octets_hex [of _ "[a, b, c, d, e, f]"]
  by (simp add: encodeMACAddress_def del: join_with.simps)

lemma encodeIPv4_printed:
  "encodeIPv4Address (VString (join_with ''.'' (map (\<lambda>b. show_nat (unat b)) [a, b, c, d]))) =
     Ok [mk_reg a b, mk_reg c d]"
  using split_decimal [of "[a, b, c, d]"] parse_octets_decimal [of _ "[a, b, c, d]"]
  by (simp add: encodeIPv4Address_def del: join_with.simps)

lemma decodeMAC_regs:
  "decodeMACAddress (VUint16s [r0, r1, r2]) = Ok (VString (join_with '':'' (map show_hex2
     [hi_byte r0, lo_byte r0, hi_byte r1, lo_byte r1, hi_byte r2, lo_byte r2])))"
  by (simp add: decodeMACAddress_def)

lemma decodeIPv4_regs:
  "decodeIPv4Address (VUint16s [r0, r1]) = Ok (VString (join_with ''.'' (map (\<lambda>b. show_nat (unat b))
     [hi_byte r0, lo_byte r0, hi_byte r1, lo_byte r1])))"
  by (simp add: decodeIPv4Address_def)

lemma reg_pair_uint32:
  "drop_bit 16 (push_bit 16 (ucast h) OR ucast l :: 32 word) = ucast (h :: 16 word)"
  "ucast ((push_bit 16 (ucast h) OR ucast l :: 32 word) AND 0xFFFF) = (l :: 16 word)"
  unfolding low_masks
  by (rule bit_word_eqI; auto simp: bit_simps dest: bit_below)+

lemma uint32_reg_pair:
  "push_bit 16 (ucast (ucast (drop_bit 16 v) :: 16 word)) OR ucast (ucast (v AND 0xFFFF) :: 16 word)
     = (v :: 32 word)"
  unfolding low_masks by (rule bit_word_eqI) (auto simp: bit_simps)

lemma ucast_up_down [simp]: "ucast (ucast (h :: 16 word) :: 32 word) = h"
  by (rule bit_word_eqI) (auto simp: bit_simps dest: bit_below)

text \<open>
  Registers decoded to a MAC address string and encoded again are the same registers, for
  all 2^48 contents.
\<close>

lemma mac_registers_roundtrip:
  "rbind (DecodeRData ''decodeMACAddress'' (VUint16s [r0, r1, r2])) (EncodeWData ''encodeMACAddress'')
     = Ok (VUint16s [r0, r1, r2])"
  by (simp add: DecodeRData_def decoderMap_def EncodeWData_def encoderMap_def decodeMAC_regs
      encodeMAC_printed del: join_with.simps list.map)

text \<open>
  Registers decoded to a dotted IPv4 address and encoded again are the same registers, for
  all 2^32 contents.
\<close>

lemma ipv4_registers_roundtrip:
  "rbind (DecodeRData ''decodeIPv4Address'' (VUint16s [r0, r1])) (EncodeWData ''encodeIPv4Address'')
     = Ok (VUint16s [r0, r1])"
  by (simp add: DecodeRData_def decoderMap_def EncodeWData_def encoderMap_def decodeIPv4_regs
      encodeIPv4_printed del: join_with.simps list.map)

text \<open>
  The big-endian pair codec is a bijection between 32-bit values and register pairs: both
  compositions of \<open>toUint32\<close> and \<open>toUint16Slice\<close> are the identity.
\<close>

lemma uint32_registers_bijection:
  "rbind (EncodeWData ''toUint16Slice'' (VUint32 v)) (DecodeRData ''toUint32'') = Ok (VUint32 v) \<and>
   rbind (DecodeRData ''toUint32'' (VUint16s [h, l])) (EncodeWData ''toUint16Slice'')
     = Ok (VUint16s [h, l])"
  using reg_pair_uint32 [of h l]
  by (simp add: DecodeRData_def decoderMap_def EncodeWData_def encoderMap_def decode_toUint32_def
      toUint16Slice_def uint32_reg_pair)

text \<open>
  C24: every codec pair is lossless on registers: whatever the registers hold, decoding them to a MAC
  address, a dotted IPv4 address or a 32-bit number and encoding the result gives the same
  registers, and a 32-bit number survives the way to registers and back.
\<close>

theorem codec_registers_roundtrip:
  "rbind (DecodeRData ''decodeMACAddress'' (VUint16s [r0, r1, r2])) (EncodeWData ''encodeMACAddress'') = Ok (VUint16s [r0, r1, r2]) \<and>
   rbind (DecodeRData ''decodeIPv4Address'' (VUint16s [h, l])) (EncodeWData ''encodeIPv4Address'') = Ok (VUint16s [h, l]) \<and>
   rbind (DecodeRData ''toUint32'' (VUint16s [h, l])) (EncodeWData ''toUint16Slice'') = Ok (VUint16s [h, l]) \<and>
   rbind (EncodeWData ''toUint16Slice'' (VUint32 v)) (DecodeRData ''toUint32'') = Ok (VUint32 v)"
  using mac_registers_roundtrip ipv4_registers_roundtrip uint32_registers_bijection by blast

lemma encodeMAC_Ok_regs:
  "encodeMACAddress v = Ok rs \<Longrightarrow> \<exists>r0 r1 r2. rs = [r0, r1, r2]"
  by (auto simp: encodeMACAddress_def Let_def rbind_Ok_iff split: goval.splits if_splits)

lemma encodeIPv4_Ok_regs:
  "encodeIPv4Address v = Ok rs \<Longrightarrow> \<exists>r0 r1. rs = [r0, r1]"
  by (auto simp: encodeIPv4Address_def Let_def rbind_Ok_iff split: goval.splits if_splits)

text \<open>
  Any address text the encoders accept decodes to a canonical text that denotes the same
  registers: decoding after encoding only normalises the spelling (case, leading zeros).
\<close>

theorem address_text_normalised:
  assumes "EncodeWData e (VString s) = Ok r"
    and "(e, d) \<in> {(''encodeMACAddress'', ''decodeMACAddress''), (''encodeIPv4Address'', ''decodeIPv4Address'')}"
  shows "\<exists>s'. DecodeRData d r = Ok (VString s') \<and> EncodeWData e (VString s') = Ok r"
proof -
  from assms consider
      (mac) rs where "e = ''encodeMACAddress''" "d = ''decodeMACAddress''" "r = VUint16s rs"
        "encodeMACAddress (VString s) = Ok rs"
    | (ip) rs where "e = ''encodeIPv4Address''" "d = ''decodeIPv4Address''" "r = VUint16s rs"
        "encodeIPv4Address (VString s) = Ok rs"
    by (auto simp: EncodeWData_def encoderMap_def rmap_Ok_iff)
  then show ?thesis
  proof cases
    case mac
    then obtain r0 r1 r2 where rs: "rs = [r0, r1, r2]" using encodeMAC_Ok_regs by blast
    show ?thesis unfolding mac rs
      by (simp add: DecodeRData_def decoderMap_def EncodeWData_def encoderMap_def decodeMAC_regs
          encodeMAC_printed del: join_with.simps list.map)
  next
    case ip
    then obtain r0 r1 where rs: "rs = [r0, r1]" using encodeIPv4_Ok_regs by blast
    show ?thesis unfolding ip rs
      by (simp add: DecodeRData_def decoderMap_def EncodeWData_def encoderMap_def decodeIPv4_regs
          encodeIPv4_printed del: join_with.simps list.map)
  qed
qed

theorem address_text_normalised_witness:
  "\<exists>s'. DecodeRData ''decodeMACAddress'' (VUint16s [0x0AFF, 0x0001, 0xBCDE]) = Ok (VString s') \<and>
        EncodeWData ''encodeMACAddress'' (VString s') = Ok (VUint16s [0x0AFF, 0x0001, 0xBCDE])"
proof (rule address_text_normalised [where s = "''a:fF:0:01:bc:DE''"])
  show "EncodeWData ''encodeMACAddress'' (VString ''a:fF:0:01:bc:DE'') =
      Ok (VUint16s [0x0AFF, 0x0001, 0xBCDE])"
    by code_simp
qed simp

subsection \<open>Failures\<close>

lemma DecodeRData_no_panic [simp]: "DecodeRData n v \<noteq> Panic m"
  by (cases v) (auto simp: DecodeRData_def decoderMap_def decodeMACAddress_def
      decodeIPv4Address_def decode_toUint32_def split: option.splits if_splits)

lemma parse_octets_no_panic [simp]: "parse_octets fmt base ps \<noteq> Panic m"
  unfolding parse_octets_def
  by (induction ps) (auto simp: rbind_Panic_iff wrap_err_Panic_iff rmap_Panic_iff)

lemma EncodeWData_no_panic [simp]: "EncodeWData n v \<noteq> Panic m"
  by (cases v) (auto simp: EncodeWData_def encoderMap_def encodeMACAddress_def Let_def
      encodeIPv4Address_def toUint16Slice_def rmap_Panic_iff rbind_Panic_iff
      split: option.splits if_splits)

text \<open>No name is both a decoder and an encoder.\<close>

lemma codec_names_disjoint: "decoderMap n \<noteq> None \<Longrightarrow> encoderMap n = None"
  by (auto simp: decoderMap_def encoderMap_def split: if_splits)

end
