(* ===== verification/Model.thy ===== *)
theory Model
  imports Conv
begin

text \<open>
  Package \<open>pkg/model\<close>: the protocol names (\<open>protocol_type.go\<close>), the per-device protocol
  configuration and its process-wide cache (\<open>protocol_config.go\<close>), and the generic resource an
  adapter reads or writes, built from an EdgeX command request (\<open>resource.go\<close>). The lemmas give
  the resource in closed form, independent of the map iteration order, the cache's laws, and the
  agreement of concurrent resolvers.
\<close>

section \<open>protocol\_type.go\<close>

datatype protocol_type = MQTT | ModbusTCP | ModbusRTU | SNMP | OPCUA | HTTPClient | UnknownProtocol

fun protocol_name :: "protocol_type \<Rightarrow> string" where
  "protocol_name MQTT = ''mqtt''"
| "protocol_name ModbusTCP = ''modbus-tcp''"
| "protocol_name ModbusRTU = ''modbus-rtu''"
| "protocol_name SNMP = ''snmp''"
| "protocol_name OPCUA = ''opcua''"
| "protocol_name HTTPClient = ''http-client''"
| "protocol_name UnknownProtocol = ''unknown''"

definition ValidateProtocol :: "string \<Rightarrow> protocol_type result" where
  "ValidateProtocol protocolName =
     (if protocolName = ''modbus-tcp'' then Ok ModbusTCP
      else if protocolName = ''modbus-rtu'' then Ok ModbusRTU
      else if protocolName = ''mqtt'' then Ok MQTT
      else if protocolName = ''snmp'' then Ok SNMP
      else if protocolName = ''opcua'' then Ok OPCUA
      else if protocolName = ''http-client'' then Ok HTTPClient
      else Err (Errorf ''not support protocol type'' []))"

lemma ValidateProtocol_name: "ValidateProtocol n = Ok p \<longleftrightarrow> n = protocol_name p \<and> p \<noteq> UnknownProtocol"
  by (cases p) (auto simp: ValidateProtocol_def)

lemma ValidateProtocol_no_panic [simp]: "ValidateProtocol n \<noteq> Panic m"
  by (simp add: ValidateProtocol_def)

section \<open>protocol\_config.go\<close>

text \<open>\<open>models.ProtocolProperties\<close> is a \<open>map[string]string\<close>, possibly nil (\<open>None\<close>).\<close>

type_synonym properties = "(string \<rightharpoonup> string) option"

record protocol_config =
  pc_Name :: string
  pc_rawProperties :: properties

type_synonym cache_key = "string \<times> string"
type_synonym protocol_cache = "cache_key \<rightharpoonup> protocol_config"

text \<open>The atomic operations of the \<open>sync.Map\<close>.\<close>

definition LoadOrStore :: "cache_key \<Rightarrow> protocol_config \<Rightarrow> protocol_cache \<Rightarrow> protocol_cache \<times> protocol_config" where
  "LoadOrStore key c m = (case m key of Some old \<Rightarrow> (m, old) | None \<Rightarrow> (m(key \<mapsto> c), c))"

definition ResolveProtocolConfig ::
  "string \<Rightarrow> string \<Rightarrow> properties \<Rightarrow> protocol_cache \<Rightarrow> protocol_cache \<times> protocol_config" where
  "ResolveProtocolConfig deviceName protocolName props m =
     (case m (deviceName, protocolName) of
        Some val \<Rightarrow> (m, val)
      | None \<Rightarrow> LoadOrStore (deviceName, protocolName)
                  \<lparr>pc_Name = protocolName, pc_rawProperties = props\<rparr> m)"

definition UpdateProtocolConfig ::
  "string \<Rightarrow> string \<Rightarrow> properties \<Rightarrow> protocol_cache \<Rightarrow> protocol_cache \<times> protocol_config" where
  "UpdateProtocolConfig deviceName protocolName newProps m =
     (let updatedConfig = \<lparr>pc_Name = protocolName, pc_rawProperties = newProps\<rparr>
      in (m((deviceName, protocolName) \<mapsto> updatedConfig), updatedConfig))"

definition RemoveProtocolConfig :: "string \<Rightarrow> string \<Rightarrow> protocol_cache \<Rightarrow> protocol_cache" where
  "RemoveProtocolConfig deviceName protocolName m = m((deviceName, protocolName) := None)"

text \<open>Indexing a nil map finds nothing.\<close>

definition prop_get :: "properties \<Rightarrow> string \<Rightarrow> string option" where
  "prop_get ps k = (case ps of None \<Rightarrow> None | Some m \<Rightarrow> m k)"

definition IsDisabled :: "protocol_config \<Rightarrow> bool" where
  "IsDisabled a = (prop_get (pc_rawProperties a) ''Enabled'' = Some ''false'')"

definition GetEndpoint :: "protocol_config \<Rightarrow> string" where
  "GetEndpoint a = (case pc_rawProperties a of
       None \<Rightarrow> []
     | Some m \<Rightarrow> (case m ''Endpoint'' of Some e \<Rightarrow> e | None \<Rightarrow> []))"

text \<open>A \<open>time.Duration\<close> is a signed 64-bit count of nanoseconds; the product wraps.\<close>

type_synonym duration = "64 word"

definition second :: duration where "second = 1000000000"

definition GetTimeout :: "protocol_config \<Rightarrow> duration" where
  "GetTimeout a = (case pc_rawProperties a of
       None \<Rightarrow> 0
     | Some m \<Rightarrow> (case m ''Timeout'' of
           None \<Rightarrow> 0
         | Some timeoutStr \<Rightarrow> (case atoi timeoutStr of
               Ok timeoutInt \<Rightarrow> word_of_int timeoutInt * second
             | _ \<Rightarrow> 0)))"

definition GetRawProtocolProperties :: "protocol_config \<Rightarrow> properties" where
  "GetRawProtocolProperties a = pc_rawProperties a"

subsection \<open>The cache\<close>

lemma resolve_hit: "m (d, p) = Some c \<Longrightarrow> ResolveProtocolConfig d p ps m = (m, c)"
  by (simp add: ResolveProtocolConfig_def)

lemma resolve_miss:
  "m (d, p) = None \<Longrightarrow> ResolveProtocolConfig d p ps m =
     (m((d, p) \<mapsto> \<lparr>pc_Name = p, pc_rawProperties = ps\<rparr>), \<lparr>pc_Name = p, pc_rawProperties = ps\<rparr>)"
  by (simp add: ResolveProtocolConfig_def LoadOrStore_def)

lemma resolve_stores: "ResolveProtocolConfig d p ps m = (m', c) \<Longrightarrow> m' (d, p) = Some c"
  by (auto simp: ResolveProtocolConfig_def LoadOrStore_def split: option.splits)

lemma resolve_keeps: "ResolveProtocolConfig d p ps m = (m', c) \<Longrightarrow> m \<subseteq>\<^sub>m m'"
  by (auto simp: ResolveProtocolConfig_def LoadOrStore_def map_le_def split: option.splits)

text \<open>Every cached configuration carries the protocol name of its key.\<close>

definition cache_names :: "protocol_cache \<Rightarrow> bool" where
  "cache_names m \<longleftrightarrow> (\<forall>d p c. m (d, p) = Some c \<longrightarrow> pc_Name c = p)"

lemma cache_names_empty: "cache_names Map.empty"
  by (simp add: cache_names_def)

lemma cache_names_resolve:
  "cache_names m \<Longrightarrow> ResolveProtocolConfig d p ps m = (m', c) \<Longrightarrow> cache_names m' \<and> pc_Name c = p"
  by (auto simp: cache_names_def ResolveProtocolConfig_def LoadOrStore_def split: option.splits if_splits)

lemma cache_names_update:
  "cache_names m \<Longrightarrow> UpdateProtocolConfig d p ps m = (m', c) \<Longrightarrow> cache_names m'"
  by (auto simp: cache_names_def UpdateProtocolConfig_def Let_def split: if_splits)

lemma cache_names_remove: "cache_names m \<Longrightarrow> cache_names (RemoveProtocolConfig d p m)"
  by (auto simp: cache_names_def RemoveProtocolConfig_def split: if_splits)

text \<open>The operations on the cache, as a history records them.\<close>

datatype cache_op =
    ResolveOp string string properties | UpdateOp string string properties | RemoveOp string string

fun cache_step :: "protocol_cache \<Rightarrow> cache_op \<Rightarrow> protocol_cache" where
  "cache_step m (ResolveOp d p ps) = fst (ResolveProtocolConfig d p ps m)"
| "cache_step m (UpdateOp d p ps) = fst (UpdateProtocolConfig d p ps m)"
| "cache_step m (RemoveOp d p) = RemoveProtocolConfig d p m"

fun replaces :: "cache_key \<Rightarrow> cache_op \<Rightarrow> bool" where
  "replaces k (ResolveOp d p ps) = False"
| "replaces k (UpdateOp d p ps) = (k = (d, p))"
| "replaces k (RemoveOp d p) = (k = (d, p))"

fun resolves :: "cache_key \<Rightarrow> cache_op \<Rightarrow> bool" where
  "resolves k (ResolveOp d p ps) = (k = (d, p))"
| "resolves k _ = False"

lemma cache_step_stays: "m k = Some c \<Longrightarrow> \<not> replaces k op \<Longrightarrow> cache_step m op k = Some c"
  by (cases op) (auto simp: ResolveProtocolConfig_def LoadOrStore_def UpdateProtocolConfig_def Let_def
      RemoveProtocolConfig_def split: option.split)

lemma cache_step_other: "\<not> replaces k op \<Longrightarrow> \<not> resolves k op \<Longrightarrow> cache_step m op k = m k"
  by (cases op) (auto simp: ResolveProtocolConfig_def LoadOrStore_def UpdateProtocolConfig_def Let_def
      RemoveProtocolConfig_def split: option.split)

lemma cache_steps_stay:
  "m k = Some c \<Longrightarrow> \<forall>op \<in> set ops. \<not> replaces k op \<Longrightarrow> foldl cache_step m ops k = Some c"
  by (induction ops arbitrary: m) (simp_all add: cache_step_stays)

lemma cache_steps_other:
  "\<forall>op \<in> set ops. \<not> replaces k op \<and> \<not> resolves k op \<Longrightarrow> foldl cache_step m ops k = m k"
  by (induction ops arbitrary: m) (simp_all add: cache_step_other)

text \<open>
  C10: what a resolution returns is decided by the history of the cache: after a resolution of a
  device's protocol, and any further operations on the cache (of other devices and protocols, or
  resolutions of this one with other properties) but no update or removal of its configuration, every
  later resolution returns the configuration of the first one, whatever properties it is given, and
  leaves the cache alone; on a cache without one, that is the configuration made of the first properties.
  After an update it is the updated configuration, and after a removal the next resolution starts over
  from its own properties.
\<close>

theorem resolve_first_wins:
  assumes "\<forall>op \<in> set ops. \<not> replaces (d, p) op"
  shows "(\<forall>m1 c. ResolveProtocolConfig d p ps m = (m1, c) \<longrightarrow>
      (m (d, p) = None \<longrightarrow> c = \<lparr>pc_Name = p, pc_rawProperties = ps\<rparr>) \<and>
      ResolveProtocolConfig d p ps' (foldl cache_step m1 ops) = (foldl cache_step m1 ops, c)) \<and>
    (\<forall>m1 c. UpdateProtocolConfig d p ps m = (m1, c) \<longrightarrow> c = \<lparr>pc_Name = p, pc_rawProperties = ps\<rparr> \<and>
      ResolveProtocolConfig d p ps' (foldl cache_step m1 ops) = (foldl cache_step m1 ops, c)) \<and>
    ((\<forall>op \<in> set ops. \<not> resolves (d, p) op) \<longrightarrow>
      snd (ResolveProtocolConfig d p ps' (foldl cache_step (RemoveProtocolConfig d p m) ops)) =
        \<lparr>pc_Name = p, pc_rawProperties = ps'\<rparr>)"
proof (intro conjI allI impI)
  fix m1 c assume r: "ResolveProtocolConfig d p ps m = (m1, c)"
  show "c = \<lparr>pc_Name = p, pc_rawProperties = ps\<rparr>" if "m (d, p) = None" using r resolve_miss [of m, OF that] by simp
  show "ResolveProtocolConfig d p ps' (foldl cache_step m1 ops) = (foldl cache_step m1 ops, c)"
    by (rule resolve_hit [of "foldl cache_step m1 ops", OF cache_steps_stay [of m1, OF resolve_stores [OF r] assms]])
next
  fix m1 c assume u: "UpdateProtocolConfig d p ps m = (m1, c)"
  then show "c = \<lparr>pc_Name = p, pc_rawProperties = ps\<rparr>" by (simp add: UpdateProtocolConfig_def Let_def)
  have "m1 (d, p) = Some c" using u by (auto simp: UpdateProtocolConfig_def Let_def)
  then show "ResolveProtocolConfig d p ps' (foldl cache_step m1 ops) = (foldl cache_step m1 ops, c)"
    using assms by (intro resolve_hit [of "foldl cache_step m1 ops"] cache_steps_stay [of m1])
next
  assume "\<forall>op \<in> set ops. \<not> resolves (d, p) op"
  then have "foldl cache_step (RemoveProtocolConfig d p m) ops (d, p) = RemoveProtocolConfig d p m (d, p)"
    using assms by (intro cache_steps_other) blast
  then have "foldl cache_step (RemoveProtocolConfig d p m) ops (d, p) = None" by (simp add: RemoveProtocolConfig_def)
  then show "snd (ResolveProtocolConfig d p ps' (foldl cache_step (RemoveProtocolConfig d p m) ops)) =
      \<lparr>pc_Name = p, pc_rawProperties = ps'\<rparr>"
    by (simp add: resolve_miss)
qed

text \<open>Another device comes and goes between two resolutions.\<close>

theorem resolve_first_wins_witness:
  "snd (ResolveProtocolConfig ''dev'' ''snmp'' None
     (foldl cache_step (fst (ResolveProtocolConfig ''dev'' ''snmp'' (Some [''Port'' \<mapsto> ''1610'']) Map.empty))
        [ResolveOp ''other'' ''snmp'' None, ResolveOp ''dev'' ''snmp'' None, RemoveOp ''other'' ''snmp''])) =
   \<lparr>pc_Name = ''snmp'', pc_rawProperties = Some [''Port'' \<mapsto> ''1610'']\<rparr>"
proof -
  let ?ops = "[ResolveOp ''other'' ''snmp'' None, ResolveOp ''dev'' ''snmp'' None, RemoveOp ''other'' ''snmp'']"
  have "\<forall>op \<in> set ?ops. \<not> replaces (''dev'', ''snmp'') op" by simp
  from conjunct1 [OF resolve_first_wins [OF this, of "Some [''Port'' \<mapsto> ''1610'']" Map.empty None],
      rule_format, OF surjective_pairing]
  show ?thesis by (simp only: snd_conv resolve_miss)
qed

text \<open>
  The timeout is the configured number of seconds in nanoseconds as long as it fits a
  \<open>time.Duration\<close>, that is, up to 9223372036 seconds either way.
\<close>

theorem timeout_nanoseconds:
  assumes "pc_rawProperties a = Some m" and "m ''Timeout'' = Some s" and "atoi s = Ok t"
    and "\<bar>t\<bar> \<le> 9223372036"
  shows "sint (GetTimeout a) = t * 1000000000"
proof -
  have "GetTimeout a = word_of_int (t * 1000000000)"
    using assms(1-3) by (simp add: GetTimeout_def second_def)
  then have "sint (GetTimeout a) = signed_take_bit 63 (t * 1000000000)"
    by (simp only: sint_of_take_bit [OF uint_word64])
  also have "\<dots> = t * 1000000000"
    using assms(4) by (intro signed_take_bit_int_eq_self) auto
  finally show ?thesis .
qed

theorem timeout_nanoseconds_witness:
  "sint (GetTimeout \<lparr>pc_Name = ''snmp'', pc_rawProperties = Some [''Timeout'' \<mapsto> ''5'']\<rparr>) = 5 * 1000000000"
proof -
  have "atoi ''5'' = Ok 5" by (simp add: atoi_def parse_uint_def digit_value_def)
  then show ?thesis by (intro timeout_nanoseconds [where s = "''5''" and m = "[''Timeout'' \<mapsto> ''5'']"]) simp_all
qed

subsection \<open>Concurrent resolution\<close>

text \<open>
  \<open>ResolveProtocolConfig\<close> is not one atomic step: it loads, and on a miss builds a configuration
  and calls \<open>LoadOrStore\<close>. Any number of goroutines (numbered) may be inside it at once; \<open>jobs i\<close>
  is the key and the properties goroutine \<open>i\<close> was called with.
\<close>

datatype resolver = Entered | Missed | Returned protocol_config

record resolvers =
  rv_cache :: protocol_cache
  rv_pc :: "nat \<Rightarrow> resolver"

type_synonym jobs = "nat \<Rightarrow> cache_key \<times> properties"

definition job_config :: "jobs \<Rightarrow> nat \<Rightarrow> protocol_config" where
  "job_config js i = \<lparr>pc_Name = snd (fst (js i)), pc_rawProperties = snd (js i)\<rparr>"

inductive resolve_step :: "jobs \<Rightarrow> resolvers \<Rightarrow> resolvers \<Rightarrow> bool" for js where
  load_hit: "rv_pc s i = Entered \<Longrightarrow> rv_cache s (fst (js i)) = Some c \<Longrightarrow>
     resolve_step js s (s\<lparr>rv_pc := (rv_pc s)(i := Returned c)\<rparr>)"
| load_miss: "rv_pc s i = Entered \<Longrightarrow> rv_cache s (fst (js i)) = None \<Longrightarrow>
     resolve_step js s (s\<lparr>rv_pc := (rv_pc s)(i := Missed)\<rparr>)"
| store: "rv_pc s i = Missed \<Longrightarrow> LoadOrStore (fst (js i)) (job_config js i) (rv_cache s) = (m, c) \<Longrightarrow>
     resolve_step js s (s\<lparr>rv_cache := m, rv_pc := (rv_pc s)(i := Returned c)\<rparr>)"

inductive resolve_reachable :: "jobs \<Rightarrow> protocol_cache \<Rightarrow> resolvers \<Rightarrow> bool" for js m0 where
  start: "resolve_reachable js m0 \<lparr>rv_cache = m0, rv_pc = (\<lambda>_. Entered)\<rparr>"
| step: "resolve_reachable js m0 s \<Longrightarrow> resolve_step js s t \<Longrightarrow> resolve_reachable js m0 t"

text \<open>The cache only grows, and every configuration returned is the one in the cache.\<close>

definition resolve_inv :: "jobs \<Rightarrow> protocol_cache \<Rightarrow> resolvers \<Rightarrow> bool" where
  "resolve_inv js m0 s \<longleftrightarrow> m0 \<subseteq>\<^sub>m rv_cache s \<and>
     (\<forall>i c. rv_pc s i = Returned c \<longrightarrow> rv_cache s (fst (js i)) = Some c)"

lemma LoadOrStore_cases:
  "LoadOrStore k c m = (m', c') \<Longrightarrow> m' k = Some c' \<and> m \<subseteq>\<^sub>m m' \<and> (\<forall>k'. k' \<noteq> k \<longrightarrow> m' k' = m k')"
  by (auto simp: LoadOrStore_def map_le_def split: option.splits)

lemma resolve_step_inv: "resolve_step js s t \<Longrightarrow> resolve_inv js m0 s \<Longrightarrow> resolve_inv js m0 t"
proof (induction rule: resolve_step.induct)
  case (store s i m c)
  note m = LoadOrStore_cases [OF store(2)]
  have "rv_cache s \<subseteq>\<^sub>m m" using m by blast
  then have "rv_cache s k = Some x \<Longrightarrow> m k = Some x" for k x
    by (metis domI map_le_def)
  moreover have "m0 \<subseteq>\<^sub>m m"
    using store(3) \<open>rv_cache s \<subseteq>\<^sub>m m\<close> by (auto simp: resolve_inv_def intro: map_le_trans)
  ultimately show ?case using store(3) m by (auto simp: resolve_inv_def)
qed (auto simp: resolve_inv_def)

lemma resolve_reachable_inv: "resolve_reachable js m0 s \<Longrightarrow> resolve_inv js m0 s"
proof (induction rule: resolve_reachable.induct)
  case start
  show ?case by (simp add: resolve_inv_def)
next
  case (step s t)
  then show ?case by (blast intro: resolve_step_inv)
qed

text \<open>
  C9: however concurrent resolutions interleave, all goroutines that resolved the same device and
  protocol hold the same configuration, the one the cache keeps.
\<close>

theorem concurrent_resolvers_agree:
  assumes "resolve_reachable js m0 s" and "fst (js i) = fst (js j)"
    and "rv_pc s i = Returned c" and "rv_pc s j = Returned c'"
  shows "c = c' \<and> rv_cache s (fst (js i)) = Some c"
proof -
  have "rv_cache s (fst (js i)) = Some c" "rv_cache s (fst (js j)) = Some c'"
    using resolve_reachable_inv [OF assms(1)] assms(3,4) by (auto simp: resolve_inv_def)
  then show ?thesis using assms(2) by simp
qed

text \<open>Two goroutines race on an empty cache: both miss, the second to store gets the first one's.\<close>

definition race_jobs :: jobs where
  "race_jobs i = ((''d'', ''snmp''), if i = 0 then None else Some Map.empty)"

lemma race_reachable:
  "resolve_reachable race_jobs Map.empty
     \<lparr>rv_cache = [(''d'', ''snmp'') \<mapsto> job_config race_jobs 0],
      rv_pc = (((\<lambda>_. Entered)(0 := Missed, 1 := Missed))(0 := Returned (job_config race_jobs 0)))
        (1 := Returned (job_config race_jobs 0))\<rparr>"
proof -
  define k where "k = (''d'', ''snmp'')"
  define c where "c = job_config race_jobs 0"
  define s1 :: resolvers where "s1 = \<lparr>rv_cache = Map.empty, rv_pc = (\<lambda>_. Entered)(0 := Missed)\<rparr>"
  define s2 :: resolvers where "s2 = s1\<lparr>rv_pc := (rv_pc s1)(1 := Missed)\<rparr>"
  define s3 :: resolvers where "s3 = s2\<lparr>rv_cache := [k \<mapsto> c], rv_pc := (rv_pc s2)(0 := Returned c)\<rparr>"
  define s4 :: resolvers where "s4 = s3\<lparr>rv_cache := [k \<mapsto> c], rv_pc := (rv_pc s3)(1 := Returned c)\<rparr>"
  have key: "fst (race_jobs i) = k" for i by (simp add: race_jobs_def k_def)
  have "resolve_reachable race_jobs Map.empty s1"
    using load_miss [of "\<lparr>rv_cache = Map.empty, rv_pc = (\<lambda>_. Entered)\<rparr>" 0 race_jobs]
    by (auto intro: resolve_reachable.intros simp: s1_def)
  moreover have "resolve_step race_jobs s1 s2"
    unfolding s2_def by (rule load_miss) (simp_all add: s1_def)
  moreover have "resolve_step race_jobs s2 s3"
    unfolding s3_def by (rule store) (simp_all add: s1_def s2_def key LoadOrStore_def c_def)
  moreover have "resolve_step race_jobs s3 s4"
    unfolding s4_def by (rule store) (simp_all add: s1_def s2_def s3_def key LoadOrStore_def)
  ultimately have "resolve_reachable race_jobs Map.empty s4"
    by (blast intro: resolve_reachable.step)
  then show ?thesis by (simp add: s4_def s3_def s2_def s1_def k_def c_def)
qed

theorem concurrent_resolvers_agree_witness:
  "job_config race_jobs 0 = job_config race_jobs 0 \<and>
   [(''d'', ''snmp'') \<mapsto> job_config race_jobs 0] (fst (race_jobs 0)) = Some (job_config race_jobs 0)"
  using concurrent_resolvers_agree [OF race_reachable, of 0 1 "job_config race_jobs 0" "job_config race_jobs 0"]
  by (simp add: race_jobs_def)

section \<open>resource.go\<close>

record resource =
  r_Name :: string
  r_Address :: goval
  r_Length :: "16 word"
  r_Value :: goval
  r_Type :: string
  r_Decoder :: string
  r_Encoder :: string
  r_Args :: "(string \<rightharpoonup> goval) option"

text \<open>The SDK's \<open>CommandRequest\<close> and \<open>CommandValue\<close>, as far as the sources read their fields.\<close>

record command_request =
  rq_DeviceResourceName :: string
  rq_Attributes :: "(string \<times> goval) list"
  rq_Type :: string

record command_value =
  cv_DeviceResourceName :: string
  cv_Type :: string
  cv_Value :: goval

text \<open>\<open>s, _ := value.(string)\<close>.\<close>

definition as_string :: "goval \<Rightarrow> string" where
  "as_string v = (case v of VString s \<Rightarrow> s | _ \<Rightarrow> [])"

text \<open>One iteration of the loop over the attributes.\<close>

definition apply_attribute :: "go_impl \<Rightarrow> resource \<Rightarrow> string \<Rightarrow> goval \<Rightarrow> resource result" where
  "apply_attribute I res key value =
     (if key = ''address'' then Ok (res\<lparr>r_Address := value\<rparr>)
      else if key = ''length'' then
        (case value of VFloat64 f \<Rightarrow> Ok (res\<lparr>r_Length := fval_to_uint I (f64_val f)\<rparr>)
         | _ \<Rightarrow> assert_panic)
      else if key = ''decodeFunc'' then Ok (res\<lparr>r_Decoder := as_string value\<rparr>)
      else if key = ''encodeFunc'' then Ok (res\<lparr>r_Encoder := as_string value\<rparr>)
      else (let m = (case r_Args res of None \<Rightarrow> Map.empty | Some m \<Rightarrow> m)
            in Ok (res\<lparr>r_Args := Some (m(key \<mapsto> value))\<rparr>)))"

fun apply_attributes :: "go_impl \<Rightarrow> resource \<Rightarrow> (string \<times> goval) list \<Rightarrow> resource result" where
  "apply_attributes I res [] = Ok res"
| "apply_attributes I res ((key, value) # kvs) =
     rbind (apply_attribute I res key value) (\<lambda>res'. apply_attributes I res' kvs)"

definition NewResource :: "go_impl \<Rightarrow> command_request \<Rightarrow> resource result" where
  "NewResource I deviceRes = apply_attributes I
     \<lparr>r_Name = rq_DeviceResourceName deviceRes, r_Address = VNil, r_Length = 0, r_Value = VNil,
      r_Type = rq_Type deviceRes, r_Decoder = [], r_Encoder = [], r_Args = None\<rparr>
     (rq_Attributes deviceRes)"

definition NewResourceN :: "go_impl \<Rightarrow> command_request list \<Rightarrow> resource list result" where
  "NewResourceN I deviceResList = traverse (NewResource I) deviceResList"

subsection \<open>The resource in closed form\<close>

definition own_attribute :: "string \<Rightarrow> bool" where
  "own_attribute k \<longleftrightarrow> k = ''address'' \<or> k = ''length'' \<or> k = ''decodeFunc'' \<or> k = ''encodeFunc''"

definition length_attribute_ok :: "(string \<times> goval) list \<Rightarrow> bool" where
  "length_attribute_ok kvs = (case map_of kvs ''length'' of
       None \<Rightarrow> True | Some v \<Rightarrow> (case v of VFloat64 f \<Rightarrow> True | _ \<Rightarrow> False))"

definition extra_attributes :: "(string \<times> goval) list \<Rightarrow> (string \<times> goval) list" where
  "extra_attributes kvs = filter (\<lambda>(k, v). \<not> own_attribute k) kvs"

definition with_attributes :: "go_impl \<Rightarrow> resource \<Rightarrow> (string \<times> goval) list \<Rightarrow> resource" where
  "with_attributes I res kvs = res\<lparr>
     r_Address := (case map_of kvs ''address'' of None \<Rightarrow> r_Address res | Some v \<Rightarrow> v),
     r_Length := (case map_of kvs ''length'' of
        Some (VFloat64 f) \<Rightarrow> fval_to_uint I (f64_val f) | _ \<Rightarrow> r_Length res),
     r_Decoder := (case map_of kvs ''decodeFunc'' of None \<Rightarrow> r_Decoder res | Some v \<Rightarrow> as_string v),
     r_Encoder := (case map_of kvs ''encodeFunc'' of None \<Rightarrow> r_Encoder res | Some v \<Rightarrow> as_string v),
     r_Args := (if extra_attributes kvs = [] then r_Args res
        else Some ((case r_Args res of None \<Rightarrow> Map.empty | Some m \<Rightarrow> m) ++ map_of (extra_attributes kvs)))\<rparr>"

lemma extra_attributes_Cons:
  "extra_attributes ((k, v) # kvs) =
     (if own_attribute k then extra_attributes kvs else (k, v) # extra_attributes kvs)"
  by (simp add: extra_attributes_def)

lemma dom_extra_attributes: "k \<notin> fst ` set kvs \<Longrightarrow> k \<notin> dom (map_of (extra_attributes kvs))"
  by (auto simp: extra_attributes_def dom_map_of_conv_image_fst)

lemma map_of_absent: "k \<notin> fst ` set kvs \<Longrightarrow> map_of kvs k = None"
  by (simp add: map_of_eq_None_iff)

text \<open>Setting an attribute and then the rest, distinct from it, is setting all of them.\<close>

lemma with_attributes_Cons:
  assumes "k \<notin> fst ` set kvs" and "apply_attribute I res k v = Ok res'"
  shows "with_attributes I res' kvs = with_attributes I res ((k, v) # kvs)"
proof -
  note absent = map_of_absent [OF assms(1)]
  consider "k = ''address''" | "k = ''length''" | "k = ''decodeFunc''" | "k = ''encodeFunc''"
    | "\<not> own_attribute k" by (auto simp: own_attribute_def)
  then show ?thesis
  proof cases
    case 5
    let ?m = "case r_Args res of None \<Rightarrow> Map.empty | Some m \<Rightarrow> m"
    have res': "res' = res\<lparr>r_Args := Some (?m(k \<mapsto> v))\<rparr>"
      using 5 assms(2) by (simp add: own_attribute_def apply_attribute_def Let_def)
    have "?m(k \<mapsto> v) ++ map_of (extra_attributes kvs) = ?m ++ (map_of (extra_attributes kvs))(k \<mapsto> v)"
      using dom_extra_attributes [OF assms(1)] by (simp add: map_add_upd_left)
    moreover have "extra_attributes kvs = [] \<Longrightarrow> ?m(k \<mapsto> v) = ?m ++ [k \<mapsto> v]" by simp
    ultimately show ?thesis using 5
      by (auto simp: res' with_attributes_def extra_attributes_Cons own_attribute_def
          cong: option.case_cong goval.case_cong)
  next
    case 2
    then obtain f where "v = VFloat64 f" using assms(2) by (cases v) (auto simp: apply_attribute_def)
    then show ?thesis using 2 assms(2) absent
      by (auto simp: apply_attribute_def with_attributes_def extra_attributes_Cons own_attribute_def
          cong: option.case_cong)
  qed (use assms(2) absent in \<open>auto simp: apply_attribute_def with_attributes_def
      extra_attributes_Cons own_attribute_def cong: option.case_cong goval.case_cong\<close>)
qed

lemma length_ok_iff:
  "length_attribute_ok kvs \<longleftrightarrow> (\<nexists>v. map_of kvs ''length'' = Some v \<and> (\<nexists>f. v = VFloat64 f))"
proof (cases "map_of kvs ''length''")
  case None
  then show ?thesis by (simp add: length_attribute_ok_def)
next
  case (Some v)
  then show ?thesis by (cases v) (simp_all add: length_attribute_ok_def)
qed

lemma length_attribute_ok_Cons:
  "k \<notin> fst ` set kvs \<Longrightarrow> length_attribute_ok ((k, v) # kvs) \<longleftrightarrow>
     length_attribute_ok kvs \<and> (k = ''length'' \<longrightarrow> (\<exists>f. v = VFloat64 f))"
  by (auto simp: length_ok_iff map_of_absent)

lemma apply_attribute_fails:
  "apply_attribute I res k v = (if k = ''length'' \<and> \<not> (\<exists>f. v = VFloat64 f) then assert_panic
     else Ok (case apply_attribute I res k v of Ok r \<Rightarrow> r | _ \<Rightarrow> res))"
  by (cases v) (auto simp: apply_attribute_def Let_def)

lemma apply_attributes_closed:
  "map_entries kvs \<Longrightarrow> apply_attributes I res kvs =
     (if length_attribute_ok kvs then Ok (with_attributes I res kvs) else assert_panic)"
proof (induction kvs arbitrary: res)
  case Nil
  show ?case by (simp add: length_attribute_ok_def with_attributes_def extra_attributes_def)
next
  case (Cons kv kvs)
  obtain k v where kv: "kv = (k, v)" by (cases kv)
  from Cons.prems have k: "k \<notin> fst ` set kvs" and d: "map_entries kvs" by (auto simp: kv)
  show ?case
  proof (cases "k = ''length'' \<and> \<not> (\<exists>f. v = VFloat64 f)")
    case True
    then have "apply_attribute I res k v = assert_panic" by (subst apply_attribute_fails) simp
    with True k show ?thesis by (simp add: kv length_attribute_ok_Cons assert_panic_def)
  next
    case False
    then obtain r where r: "apply_attribute I res k v = Ok r" by (subst (asm) apply_attribute_fails) auto
    show ?thesis using Cons.IH [OF d, of r] with_attributes_Cons [OF k r] False k
      by (auto simp: kv r length_attribute_ok_Cons)
  qed
qed

text \<open>
  C25: building a resource does not depend on the order in which Go visits the attributes: two
  iteration orders of the same map give the same resource, or the same panic.
\<close>

theorem NewResource_order_independent:
  assumes "map_entries kvs" and "map_entries kvs'" and "set kvs = set kvs'"
  shows "NewResource I \<lparr>rq_DeviceResourceName = n, rq_Attributes = kvs, rq_Type = t\<rparr> =
         NewResource I \<lparr>rq_DeviceResourceName = n, rq_Attributes = kvs', rq_Type = t\<rparr>"
proof -
  have m: "map_of kvs = map_of kvs'" using assms by (rule map_of_reorder)
  have e: "map_entries (extra_attributes kvs)" "map_entries (extra_attributes kvs')"
    using assms(1,2) by (auto simp: map_entries_def extra_attributes_def distinct_map_filter)
  have s: "set (extra_attributes kvs) = set (extra_attributes kvs')"
    using assms(3) by (auto simp: extra_attributes_def)
  have "extra_attributes kvs = [] \<longleftrightarrow> extra_attributes kvs' = []"
    using s by (metis set_empty)
  then show ?thesis using map_of_reorder [OF e s] assms(1,2) m
    by (simp add: NewResource_def apply_attributes_closed with_attributes_def length_attribute_ok_def)
qed

theorem NewResource_order_independent_witness:
  "\<forall>I. NewResource I \<lparr>rq_DeviceResourceName = ''x'', rq_Attributes =
       [(''address'', VFloat64 (f64_of_int 8000)), (''primaryTable'', VString ''COILS'')], rq_Type = ''Bool''\<rparr> =
     NewResource I \<lparr>rq_DeviceResourceName = ''x'', rq_Attributes =
       [(''primaryTable'', VString ''COILS''), (''address'', VFloat64 (f64_of_int 8000))], rq_Type = ''Bool''\<rparr>"
  by (intro allI NewResource_order_independent) auto

text \<open>
  Building a resource panics exactly when a \<open>length\<close> attribute is present and is not a JSON
  number (a profile that writes \<open>length: "4"\<close> brings the read or write down); it never returns an
  error.
\<close>

theorem NewResource_panics_iff:
  assumes "map_entries (rq_Attributes q)"
  shows "((\<exists>m. NewResource I q = Panic m) \<longleftrightarrow>
           (\<exists>v. map_of (rq_Attributes q) ''length'' = Some v \<and> (\<nexists>f. v = VFloat64 f))) \<and>
         (\<nexists>e. NewResource I q = Err e)"
  using assms length_ok_iff [of "rq_Attributes q"]
  by (auto simp: NewResource_def apply_attributes_closed assert_panic_def)

theorem NewResource_panics_iff_witness:
  "\<forall>I. ((\<exists>m. NewResource I \<lparr>rq_DeviceResourceName = ''RebootCurrentState'',
        rq_Attributes = [(''address'', VString ''1.3.6''), (''length'', VString ''4'')],
        rq_Type = ''Int32''\<rparr> = Panic m) \<longleftrightarrow> True)"
  using NewResource_panics_iff [of "\<lparr>rq_DeviceResourceName = ''RebootCurrentState'',
      rq_Attributes = [(''address'', VString ''1.3.6''), (''length'', VString ''4'')],
      rq_Type = ''Int32''\<rparr>"]
  by simp

end
