(* ===== verification/Connector.thy ===== *)
theory Connector
  imports Codec Model
begin

text \<open>
  \<open>pkg/protocol/connector.go\<close>: the interfaces every adapter implements and the four functions
  that turn SDK command requests into calls of an adapter and back into command values.

  An adapter's method is a function on the adapter's state \<open>'s\<close> (its struct together with the
  outside world it talks to). A method that receives a \<open>*Resource\<close> or a slice of resources
  returns the resources as it leaves them. The interfaces are locales: \<open>session\<close> for \<open>Session\<close>
  and \<open>reader\<close> for \<open>Reader\<close>, with the laws the callers rely on; each adapter's theory
  interprets them. \<open>NewCommandValue\<close> belongs to the SDK and is an argument.
\<close>

type_synonym 's connect_fn = "'s \<Rightarrow> 's \<times> unit result"
type_synonym 's read_single_fn = "'s \<Rightarrow> resource \<Rightarrow> 's \<times> resource \<times> unit result"
type_synonym 's read_batch_fn = "'s \<Rightarrow> resource list \<Rightarrow> 's \<times> resource list \<times> unit result"
type_synonym 's write_single_fn = "'s \<Rightarrow> resource \<Rightarrow> 's \<times> unit result"
type_synonym 's write_batch_fn = "'s \<Rightarrow> resource list \<Rightarrow> 's \<times> unit result"
type_synonym new_command_value = "string \<Rightarrow> string \<Rightarrow> goval \<Rightarrow> command_value result"

section \<open>Reading\<close>

text \<open>\<open>if res.Decoder != "" { res.Value, err = parser.DecodeRData(res.Decoder, res.Value) }\<close>.\<close>

definition decoded_value :: "resource \<Rightarrow> goval result" where
  "decoded_value res =
     (if r_Decoder res \<noteq> [] then DecodeRData (r_Decoder res) (r_Value res) else Ok (r_Value res))"

definition HandleReadSingle ::
  "go_impl \<Rightarrow> new_command_value \<Rightarrow> 's read_single_fn \<Rightarrow> 's \<Rightarrow> command_request \<Rightarrow> 's \<times> command_value result" where
  "HandleReadSingle I newcv readSingle s req = (case NewResource I req of
       Err e \<Rightarrow> (s, Err e)
     | Panic m \<Rightarrow> (s, Panic m)
     | Ok res \<Rightarrow> (case readSingle s res of (s', res', r) \<Rightarrow>
         (s', rbind r (\<lambda>_. rbind (decoded_value res') (\<lambda>v.
                newcv (rq_DeviceResourceName req) (rq_Type req) v)))))"

text \<open>
  The loop of \<open>HandleReadBatch\<close>: the values built so far are returned together with the error
  that stopped it.
\<close>

fun collect_values ::
  "new_command_value \<Rightarrow> resource list \<Rightarrow> command_request list \<Rightarrow> command_value list \<times> unit result" where
  "collect_values newcv [] reqs = ([], Ok ())"
| "collect_values newcv (res # ress) [] = ([], index_panic)"
| "collect_values newcv (res # ress) (req # reqs) =
     (case wrap_err ''decode err, res: %s, decoder: %s, %v'' [r_Name res, r_Decoder res]
             (decoded_value res) of
        Err e \<Rightarrow> ([], Err e)
      | Panic m \<Rightarrow> ([], Panic m)
      | Ok v \<Rightarrow>
         (case wrap_err ''newCmd value err, res: %s, %v'' [r_Name res]
                 (newcv (rq_DeviceResourceName req) (rq_Type req) v) of
            Err e \<Rightarrow> ([], Err e)
          | Panic m \<Rightarrow> ([], Panic m)
          | Ok cv \<Rightarrow> (case collect_values newcv ress reqs of (cvs, r) \<Rightarrow> (cv # cvs, r))))"

definition HandleReadBatch ::
  "go_impl \<Rightarrow> new_command_value \<Rightarrow> 's read_batch_fn \<Rightarrow> 's \<Rightarrow> command_request list
     \<Rightarrow> 's \<times> command_value list \<times> unit result" where
  "HandleReadBatch I newcv readBatch s req = (case NewResourceN I req of
       Err e \<Rightarrow> (s, [], Err e)
     | Panic m \<Rightarrow> (s, [], Panic m)
     | Ok resList \<Rightarrow> (case readBatch s resList of (s', resList', r) \<Rightarrow>
         (case r of
            Err e \<Rightarrow> (s', [], Err e)
          | Panic m \<Rightarrow> (s', [], Panic m)
          | Ok _ \<Rightarrow> (case collect_values newcv resList' req of (cvs, r') \<Rightarrow> (s', cvs, r')))))"

section \<open>Writing\<close>

text \<open>
  \<open>HandleWriteSingle\<close> passes \<open>res.Decoder\<close> as the encoder's name and the parameter itself (a
  \<open>*CommandValue\<close>, not its value) as the data, as the source does.
\<close>

definition HandleWriteSingle ::
  "go_impl \<Rightarrow> 's write_single_fn \<Rightarrow> 's \<Rightarrow> command_request \<Rightarrow> command_value \<Rightarrow> 's \<times> unit result" where
  "HandleWriteSingle I writeSingle s req param = (case NewResource I req of
       Err e \<Rightarrow> (s, Err e)
     | Panic m \<Rightarrow> (s, Panic m)
     | Ok res0 \<Rightarrow>
        (let res = res0\<lparr>r_Value := cv_Value param\<rparr>
         in case (if r_Encoder res \<noteq> []
                  then EncodeWData (r_Decoder res) (VOther ''*models.CommandValue'' [])
                  else Ok (r_Value res)) of
              Err e \<Rightarrow> (s, Err e)
            | Panic m \<Rightarrow> (s, Panic m)
            | Ok v \<Rightarrow> (case writeSingle s (res\<lparr>r_Value := v\<rparr>) of (s', r) \<Rightarrow>
                (s', wrap_err ''HandleWriteSingle err: resource=%s,val=%v: %w''
                       [rq_DeviceResourceName req] r))))"

fun encode_values :: "resource list \<Rightarrow> command_value list \<Rightarrow> resource list result" where
  "encode_values [] params = Ok []"
| "encode_values (res # ress) [] = index_panic"
| "encode_values (res # ress) (param # params) =
     rbind (if r_Encoder res \<noteq> []
            then wrap_err ''encode err, res: %s, value: %v, encoder: %s, %v''
                   [r_Name res, r_Encoder res] (EncodeWData (r_Encoder res) (cv_Value param))
            else Ok (cv_Value param)) (\<lambda>v.
     rbind (encode_values ress params) (\<lambda>ress'. Ok (res\<lparr>r_Value := v\<rparr> # ress')))"

definition HandleWriteBatch ::
  "go_impl \<Rightarrow> 's write_batch_fn \<Rightarrow> 's \<Rightarrow> command_request list \<Rightarrow> command_value list \<Rightarrow> 's \<times> unit result" where
  "HandleWriteBatch I writeBatch s reqs params =
     (case rbind (NewResourceN I reqs) (\<lambda>resList. encode_values resList params) of
        Err e \<Rightarrow> (s, Err e)
      | Panic m \<Rightarrow> (s, Panic m)
      | Ok resList \<Rightarrow> (case writeBatch s resList of (s', r) \<Rightarrow>
          (s', wrap_err ''HandleWriteBatch err: %w'' [] r)))"

section \<open>The interfaces' laws\<close>

text \<open>What a read may not touch: everything of a resource but its value.\<close>

definition clear_value :: "resource \<Rightarrow> resource" where
  "clear_value res = res\<lparr>r_Value := VNil\<rparr>"

lemma clear_value_update [simp]: "clear_value (res\<lparr>r_Value := v\<rparr>) = clear_value res"
  by (simp add: clear_value_def)

lemma clear_value_fields:
  assumes "clear_value a = clear_value b"
  shows "r_Name a = r_Name b" "r_Type a = r_Type b" "r_Decoder a = r_Decoder b"
    "r_Address a = r_Address b" "r_Length a = r_Length b" "r_Encoder a = r_Encoder b" "r_Args a = r_Args b"
  using assms by (cases a; cases b; simp add: clear_value_def)+

locale session =
  fixes connect disconnect :: "'s connect_fn"
    and connected :: "'s \<Rightarrow> bool"
  assumes connect_connects: "connect s = (s', Ok ()) \<Longrightarrow> connected s'"
    and disconnect_disconnects: "disconnect s = (s', r) \<Longrightarrow> (\<And>m. r \<noteq> Panic m) \<Longrightarrow> \<not> connected s'"
begin

text \<open>
  Whether a disconnection reports success or an error, it is effective, and so is a later
  successful connection.
\<close>

lemma reconnect:
  "disconnect s = (s1, r) \<Longrightarrow> (\<And>m. r \<noteq> Panic m) \<Longrightarrow> connect s1 = (s2, Ok ()) \<Longrightarrow>
     \<not> connected s1 \<and> connected s2"
  using connect_connects disconnect_disconnects by blast

end

locale reader =
  fixes read_single :: "'s read_single_fn"
    and read_batch :: "'s read_batch_fn"
  assumes single_frame: "read_single s res = (s', res', r) \<Longrightarrow> clear_value res' = clear_value res"
    and batch_frame: "read_batch s ps = (s', ps', r) \<Longrightarrow> map clear_value ps' = map clear_value ps"

text \<open>Values and requests that correspond: value \<open>i\<close> was made for request \<open>i\<close>'s name and type.\<close>

definition answers :: "new_command_value \<Rightarrow> command_request \<Rightarrow> command_value \<Rightarrow> bool" where
  "answers newcv req cv \<longleftrightarrow> (\<exists>v. newcv (rq_DeviceResourceName req) (rq_Type req) v = Ok cv)"

lemma collect_values_prefix:
  "collect_values newcv ress reqs = (cvs, r) \<Longrightarrow>
     list_all2 (answers newcv) (take (length cvs) reqs) cvs \<and> length cvs \<le> length ress"
proof (induction newcv ress reqs arbitrary: cvs r rule: collect_values.induct)
  case (3 newcv res ress req reqs)
  then show ?case
    by (auto simp: answers_def wrap_err_Ok_iff split: result.splits prod.splits)
qed auto

lemma collect_values_Ok:
  "collect_values newcv ress reqs = (cvs, Ok ()) \<Longrightarrow> length cvs = length ress"
  by (induction newcv ress reqs arbitrary: cvs rule: collect_values.induct)
    (auto split: result.splits prod.splits)

lemma decoded_value_no_panic [simp]: "decoded_value res \<noteq> Panic m"
  by (simp add: decoded_value_def)

lemma collect_values_no_panic:
  assumes "length ress = length reqs" and newcv: "\<And>n t v m. newcv n t v \<noteq> Panic m"
  shows "snd (collect_values newcv ress reqs) \<noteq> Panic m"
  using assms(1)
proof (induction ress reqs rule: list_induct2)
  case Nil
  then show ?case by simp
next
  case (Cons res ress req reqs)
  then show ?case
    by (auto simp: wrap_err_Panic_iff newcv split: result.splits prod.splits)
qed

lemma NewResource_fields:
  "NewResource I req = Ok res \<Longrightarrow> r_Name res = rq_DeviceResourceName req \<and> r_Type res = rq_Type req
     \<and> r_Value res = VNil"
proof -
  have "apply_attributes I r0 kvs = Ok res \<Longrightarrow>
      r_Name res = r_Name r0 \<and> r_Type res = r_Type r0 \<and> r_Value res = r_Value r0" for r0 kvs
  proof (induction kvs arbitrary: r0)
    case Nil
    then show ?case by simp
  next
    case (Cons kv kvs)
    obtain k v where kv: "kv = (k, v)" by (cases kv)
    from Cons.prems obtain r1 where "apply_attribute I r0 k v = Ok r1" "apply_attributes I r1 kvs = Ok res"
      by (auto simp: kv rbind_Ok_iff)
    moreover from this(1) have "r_Name r1 = r_Name r0 \<and> r_Type r1 = r_Type r0 \<and> r_Value r1 = r_Value r0"
      by (auto simp: apply_attribute_def Let_def split: if_splits goval.splits)
    ultimately show ?case using Cons.IH by auto
  qed
  then show "NewResource I req = Ok res \<Longrightarrow> ?thesis" by (fastforce simp: NewResource_def)
qed

context reader
begin

text \<open>A batch read returns values for a prefix of the requests; all of them when it succeeds.\<close>

lemma batch_values:
  assumes "HandleReadBatch I newcv read_batch s reqs = (s', cvs, r)"
  shows "list_all2 (answers newcv) (take (length cvs) reqs) cvs"
    and "r = Ok () \<Longrightarrow> length cvs = length reqs"
proof -
  show "list_all2 (answers newcv) (take (length cvs) reqs) cvs"
    using assms collect_values_prefix
    by (fastforce simp: HandleReadBatch_def split: result.splits prod.splits)
  assume "r = Ok ()"
  with assms obtain ps ps' where n: "NewResourceN I reqs = Ok ps"
    and b: "read_batch s ps = (s', ps', Ok ())"
    and c: "collect_values newcv ps' reqs = (cvs, Ok ())"
    by (auto simp: HandleReadBatch_def split: result.splits prod.splits)
  have "length ps' = length ps" using batch_frame [OF b] by (metis length_map)
  moreover have "length ps = length reqs" using n by (simp add: NewResourceN_def traverse_length)
  ultimately show "length cvs = length reqs" using collect_values_Ok [OF c] by simp
qed

text \<open>It does not index past the end of the requests.\<close>

lemma batch_no_index_panic:
  assumes "HandleReadBatch I newcv read_batch s reqs = (s', cvs, Panic m)"
    and "\<And>n t v m. newcv n t v \<noteq> Panic m"
  shows "NewResourceN I reqs = Panic m \<or>
    (\<exists>ps ps'. NewResourceN I reqs = Ok ps \<and> read_batch s ps = (s', ps', Panic m))"
proof (cases "NewResourceN I reqs")
  case (Ok ps)
  obtain s1 ps' r where b: "read_batch s ps = (s1, ps', r)" by (cases "read_batch s ps") auto
  have "length ps' = length reqs"
    using batch_frame [OF b] Ok by (metis NewResourceN_def length_map traverse_length)
  then have "snd (collect_values newcv ps' reqs) \<noteq> Panic m"
    using assms(2) by (rule collect_values_no_panic)
  then show ?thesis using assms(1) Ok b
    by (auto simp: HandleReadBatch_def split: result.splits prod.splits)
qed (use assms(1) in \<open>auto simp: HandleReadBatch_def\<close>)

end

section \<open>A connected client is usable\<close>

text \<open>
  The contract of a client as a whole: a successful connection makes it usable, and the operations on a
  usable client leave it usable and do not dereference nil. Where a method trusts the answers of the
  package to be complete (not nil without an error), this holds if they are: \<open>complete\<close>. What follows for the four handlers holds for
  every adapter.
\<close>

locale rw_client =
  session connect disconnect connected + reader read_single read_batch
  for connect :: "'s connect_fn" and disconnect :: "'s connect_fn" and connected :: "'s \<Rightarrow> bool"
    and read_single :: "'s read_single_fn" and read_batch :: "'s read_batch_fn" +
  fixes write_single :: "'s write_single_fn" and write_batch :: "'s write_batch_fn"
    and usable :: "'s \<Rightarrow> bool" and complete :: bool
  assumes connect_no_nil: "connect s = (s', r) \<Longrightarrow> no_nil r"
    and connect_usable: "connect s = (s', Ok ()) \<Longrightarrow> usable s'"
    and read_single_usable: "usable s \<Longrightarrow> read_single s p = (s', p', r) \<Longrightarrow> usable s' \<and> (complete \<longrightarrow> no_nil r)"
    and read_batch_usable: "usable s \<Longrightarrow> read_batch s ps = (s', ps', r) \<Longrightarrow> usable s' \<and> no_nil r"
    and write_single_usable: "usable s \<Longrightarrow> write_single s p = (s', r) \<Longrightarrow> usable s' \<and> (complete \<longrightarrow> no_nil r)"
    and write_batch_usable: "usable s \<Longrightarrow> write_batch s ps = (s', r) \<Longrightarrow> usable s' \<and> (complete \<longrightarrow> no_nil r)"

lemma apply_attributes_no_nil: "no_nil (apply_attributes I res kvs)"
proof (induction kvs arbitrary: res)
  case (Cons kv kvs)
  have "no_nil (apply_attribute I res (fst kv) (snd kv))"
    by (auto simp: apply_attribute_def Let_def split: goval.split)
  with Cons.IH show ?case by (cases kv) (auto intro: no_nil_rbind)
qed simp

lemma decoded_value_no_nil [simp]: "no_nil (decoded_value res)"
  by (rule no_nil_total) simp

lemma EncodeWData_no_nil [simp]: "no_nil (EncodeWData n v)"
  by (rule no_nil_total) simp

lemma NewResource_no_nil [simp]: "no_nil (NewResource I req)"
  by (simp add: NewResource_def apply_attributes_no_nil)

lemma NewResourceN_no_nil [simp]: "no_nil (NewResourceN I reqs)"
  by (simp add: NewResourceN_def no_nil_traverse)

lemma collect_values_no_nil:
  assumes "\<And>n t v. no_nil (newcv n t v)"
  shows "no_nil (snd (collect_values newcv ress reqs))"
  using assms
  by (induction newcv ress reqs rule: collect_values.induct)
    (auto simp: wrap_err_Panic_iff no_nil_def [of "_ _ _ _"] split: result.splits prod.splits)

lemma encode_values_no_nil [simp]: "no_nil (encode_values ress params)"
  by (induction ress params rule: encode_values.induct) (auto intro!: no_nil_rbind)

context rw_client
begin

lemma HandleReadSingle_usable:
  assumes "usable s" and "\<And>n t v. no_nil (newcv n t v)"
    and "HandleReadSingle I newcv read_single s req = (s', r)"
  shows "usable s' \<and> (complete \<longrightarrow> no_nil r)"
proof (cases "NewResource I req")
  case (Ok res)
  obtain s1 res' r' where e: "read_single s res = (s1, res', r')" by (cases "read_single s res") auto
  note u = read_single_usable [OF assms(1) e]
  then show ?thesis using assms(2,3) Ok e by (auto simp: HandleReadSingle_def intro!: no_nil_rbind intro: no_nil_total)
next
  case (Panic m)
  then have "m \<noteq> nil_message" by (metis NewResource_no_nil no_nil_case)
  then show ?thesis using assms(1,3) Panic by (auto simp: HandleReadSingle_def)
qed (use assms(1,3) in \<open>auto simp: HandleReadSingle_def\<close>)

lemma HandleReadBatch_usable:
  assumes "usable s" and "\<And>n t v. no_nil (newcv n t v)"
    and "HandleReadBatch I newcv read_batch s reqs = (s', cvs, r)"
  shows "usable s' \<and> no_nil r"
proof (cases "NewResourceN I reqs")
  case (Ok ps)
  obtain s1 ps' r' where e: "read_batch s ps = (s1, ps', r')" by (cases "read_batch s ps") auto
  note u = read_batch_usable [OF assms(1) e]
  then show ?thesis using assms(2,3) Ok e collect_values_no_nil [of newcv ps' reqs]
    by (auto simp: HandleReadBatch_def split: result.splits prod.splits)
next
  case (Panic m)
  then have "m \<noteq> nil_message" by (metis NewResourceN_no_nil no_nil_case)
  then show ?thesis using assms(1,3) Panic by (auto simp: HandleReadBatch_def)
qed (use assms(1,3) in \<open>auto simp: HandleReadBatch_def\<close>)

lemma HandleWriteSingle_usable:
  assumes "usable s" and "HandleWriteSingle I write_single s req param = (s', r)"
  shows "usable s' \<and> (complete \<longrightarrow> no_nil r)"
proof (cases "NewResource I req")
  case (Panic m)
  then have "m \<noteq> nil_message" by (metis NewResource_no_nil no_nil_case)
  then show ?thesis using assms Panic by (auto simp: HandleWriteSingle_def)
qed (use assms in \<open>auto simp: HandleWriteSingle_def Let_def dest: write_single_usable [OF assms(1)]
    split: result.splits prod.splits if_splits\<close>)

lemma HandleWriteBatch_usable:
  assumes "usable s" and "HandleWriteBatch I write_batch s reqs params = (s', r)"
  shows "usable s' \<and> (complete \<longrightarrow> no_nil r)"
proof (cases "rbind (NewResourceN I reqs) (\<lambda>resList. encode_values resList params)")
  case (Panic m)
  then have "m \<noteq> nil_message" by (metis NewResourceN_no_nil encode_values_no_nil no_nil_rbind no_nil_case)
  then show ?thesis using assms Panic by (auto simp: HandleWriteBatch_def)
qed (use assms in \<open>auto simp: HandleWriteBatch_def dest: write_batch_usable [OF assms(1)] split: prod.splits\<close>)

end

section \<open>Writing through the SDK's requests\<close>

lemma EncodeWData_command_value: "\<exists>e. EncodeWData n (VOther ''*models.CommandValue'' p) = Err e"
  by (auto simp: EncodeWData_def encoderMap_def encodeMACAddress_def encodeIPv4Address_def
      toUint16Slice_def split: option.splits if_splits)

text \<open>
  C36: a single write to a resource that names an encoder always fails and sends nothing: the decoder's
  name is looked up among the encoders, and the command value itself is handed over as the data.
\<close>

theorem write_single_encoder_fails:
  assumes "NewResource I req = Ok res" and "r_Encoder res \<noteq> []"
  shows "\<exists>e. HandleWriteSingle I writeSingle s req param = (s, Err e)"
proof -
  obtain e where "EncodeWData (r_Decoder res) (VOther ''*models.CommandValue'' []) = Err e"
    using EncodeWData_command_value by blast
  then show ?thesis using assms by (simp add: HandleWriteSingle_def)
qed

definition mac_request :: "command_request" where
  "mac_request = \<lparr>rq_DeviceResourceName = ''mac'', rq_Attributes =
     [(''encodeFunc'', VString ''encodeMACAddress''), (''decodeFunc'', VString ''decodeMACAddress'')], rq_Type = ''String''\<rparr>"

theorem write_single_encoder_fails_witness:
  "\<forall>I writeSingle. \<exists>e. HandleWriteSingle I writeSingle () mac_request
     \<lparr>cv_DeviceResourceName = ''mac'', cv_Type = ''String'', cv_Value = VString ''00:11:22:33:44:55''\<rparr> = ((), Err e)"
proof (intro allI)
  fix I writeSingle
  have "\<exists>res. NewResource I mac_request = Ok res \<and> r_Encoder res \<noteq> []"
    by (simp add: NewResource_def mac_request_def apply_attribute_def as_string_def)
  then obtain res where "NewResource I mac_request = Ok res" "r_Encoder res \<noteq> []" by blast
  then show "\<exists>e. HandleWriteSingle I writeSingle () mac_request
     \<lparr>cv_DeviceResourceName = ''mac'', cv_Type = ''String'', cv_Value = VString ''00:11:22:33:44:55''\<rparr> = ((), Err e)"
    by (rule write_single_encoder_fails)
qed

definition encoded_as :: "resource \<Rightarrow> command_value \<Rightarrow> resource \<Rightarrow> bool" where
  "encoded_as res cv res' \<longleftrightarrow> (\<exists>v. res' = res\<lparr>r_Value := v\<rparr> \<and>
     (if r_Encoder res = [] then v = cv_Value cv else EncodeWData (r_Encoder res) (cv_Value cv) = Ok v))"

lemma encode_values_encoded:
  "encode_values ress params = Ok ress' \<Longrightarrow> length ress \<le> length params \<and>
     length ress' = length ress \<and> (\<forall>i < length ress. encoded_as (ress ! i) (params ! i) (ress' ! i))"
proof (induction ress params arbitrary: ress' rule: encode_values.induct)
  case (3 res ress param params)
  then show ?case
    by (fastforce simp: rbind_Ok_iff wrap_err_Ok_iff encoded_as_def nth_Cons' less_Suc_eq_0_disj split: if_splits)
qed (auto simp: index_panic_def)

text \<open>
  C11: a batch write is all or nothing: the adapter is called only when every parameter could be
  encoded, once, with the resource of every request carrying its own encoded parameter; in every
  other case the device's state is what it was and no success is reported.
\<close>

theorem write_batch_all_or_nothing:
  "(\<exists>ress ress'. NewResourceN I reqs = Ok ress \<and> length ress' = length reqs \<and>
      (\<forall>i < length reqs. encoded_as (ress ! i) (params ! i) (ress' ! i)) \<and>
      fst (HandleWriteBatch I writeBatch s reqs params) = fst (writeBatch s ress') \<and>
      (snd (HandleWriteBatch I writeBatch s reqs params) = Ok () \<longleftrightarrow> snd (writeBatch s ress') = Ok ())) \<or>
   fst (HandleWriteBatch I writeBatch s reqs params) = s \<and> snd (HandleWriteBatch I writeBatch s reqs params) \<noteq> Ok ()"
proof (cases "rbind (NewResourceN I reqs) (\<lambda>resList. encode_values resList params)")
  case (Ok ress')
  then obtain ress where n: "NewResourceN I reqs = Ok ress" and e: "encode_values ress params = Ok ress'"
    by (auto simp: rbind_Ok_iff)
  obtain s' r where w: "writeBatch s ress' = (s', r)" by (cases "writeBatch s ress'") auto
  have "length ress = length reqs" using n by (simp add: NewResourceN_def traverse_length)
  moreover have "HandleWriteBatch I writeBatch s reqs params = (s', wrap_err ''HandleWriteBatch err: %w'' [] r)"
    using Ok w by (simp add: HandleWriteBatch_def)
  moreover have "wrap_err ''HandleWriteBatch err: %w'' [] r = Ok () \<longleftrightarrow> r = Ok ()" by (cases r) auto
  ultimately show ?thesis using n encode_values_encoded [OF e] w by auto
qed (auto simp: HandleWriteBatch_def)

theorem write_batch_all_or_nothing_witness:
  "\<forall>I. fst (HandleWriteBatch I (\<lambda>sent ress. (sent + length ress, Ok ())) 0 [mac_request]
     [\<lparr>cv_DeviceResourceName = ''mac'', cv_Type = ''String'', cv_Value = VString ''00:11:22:33:44:55''\<rparr>]) = 1"
proof
  fix I
  let ?w = "\<lambda>sent ress. (sent + length ress, Ok ())"
    and ?cv = "\<lparr>cv_DeviceResourceName = ''mac'', cv_Type = ''String'', cv_Value = VString ''00:11:22:33:44:55''\<rparr>"
  have e: "EncodeWData ''encodeMACAddress'' (VString ''00:11:22:33:44:55'') = Ok (VUint16s [0x0011, 0x2233, 0x4455])"
    by code_simp
  have "snd (HandleWriteBatch I ?w 0 [mac_request] [?cv]) = Ok ()"
    by (simp add: HandleWriteBatch_def NewResourceN_def NewResource_def mac_request_def apply_attribute_def
        as_string_def e)
  with write_batch_all_or_nothing [of I "[mac_request]" "[?cv]" ?w 0]
  show "fst (HandleWriteBatch I ?w 0 [mac_request] [?cv]) = 1" by auto
qed

end
