(* ===== verification/Listeners.thy ===== *)
theory Listeners
  imports Channel Json Connector
begin

text \<open>
  The three listeners of \<open>pkg/adapter/listener_http\<close>, \<open>listener_mqtt\<close> and \<open>listener_snmp\<close>: how each is
  made, started and stopped, and the callback that turns a push of a device into an event on the
  listener's channel. A channel is named by its index in the table of channels. The servers
  themselves (\<open>net/http\<close>, the MQTT broker, the trap socket) are arguments; \<open>time.Now()\<close> is one too.
\<close>

type_synonym chans = "receive_event channel list"

text \<open>\<open>make(chan model.ReceiveEvent, n)\<close>: the new channel's index and the table with it.\<close>

definition new_chan :: "nat \<Rightarrow> chans \<Rightarrow> nat \<times> chans" where
  "new_chan n chs = (length chs, chs @ [make_chan n])"

definition maxDataChannelSize :: nat where "maxDataChannelSize = 256"

text \<open>A callback that uses the channel with index \<open>i\<close>.\<close>

definition on_chan :: "nat \<Rightarrow> (event_channel \<Rightarrow> event_channel \<times> 'r) \<Rightarrow> chans \<Rightarrow> chans \<times> 'r" where
  "on_chan i f chs = (case f (chs ! i) of (c, r) \<Rightarrow> (chs[i := c], r))"

definition host_port :: "string \<Rightarrow> 16 word \<Rightarrow> string" where \<comment> \<open>\<open>fmt.Sprintf("%s:%d", host, port)\<close>\<close>
  "host_port host port = host @ CHR '':'' # show_nat (unat port)"

section \<open>The HTTP listener\<close>

record http_receiver =
  hr_Host :: string
  hr_Port :: "16 word"
  hr_PushUrl :: string
  hr_mux :: "string list" \<comment> \<open>the patterns \<open>handlePush\<close> is registered for\<close>
  hr_AsyncData :: nat
  hr_addr :: string \<comment> \<open>\<open>server.Addr\<close>\<close>

text \<open>\<open>HandleFunc\<close> panics for a pattern the multiplexer does not accept.\<close>

definition registerRoutes :: "(string \<Rightarrow> bool) \<Rightarrow> http_receiver \<Rightarrow> http_receiver result" where
  "registerRoutes valid_pattern r =
     (if valid_pattern (hr_PushUrl r) then Ok (r\<lparr>hr_mux := hr_mux r @ [hr_PushUrl r]\<rparr>)
      else Panic ''http: invalid pattern'')"

definition NewHttpReceiver ::
  "(string \<Rightarrow> bool) \<Rightarrow> string \<Rightarrow> 16 word \<Rightarrow> string \<Rightarrow> chans \<Rightarrow> chans \<times> http_receiver result" where
  "NewHttpReceiver valid_pattern host port pushPath chs =
     (case new_chan maxDataChannelSize chs of (ch, chs') \<Rightarrow>
       (chs', registerRoutes valid_pattern
          \<lparr>hr_Host = host, hr_Port = port, hr_PushUrl = pushPath, hr_mux = [], hr_AsyncData = ch,
           hr_addr = host_port host port\<rparr>))"

text \<open>A request as the handler sees it; the body ends, or fails after some bytes.\<close>

record push_request =
  pr_Method :: string
  pr_Body :: "string answer"

record http_reply =
  rp_status :: int
  rp_content_type :: string
  rp_body :: string

definition maxBodyBytes :: nat where "maxBodyBytes = 2 ^ 20"

text \<open>\<open>io.ReadAll(http.MaxBytesReader(w, body, n))\<close>.\<close>

definition read_limited :: "nat \<Rightarrow> string answer \<Rightarrow> string result" where
  "read_limited n body = (case body of
       Inl e \<Rightarrow> Err e
     | Inr s \<Rightarrow> if n < length s then Err (ExtError ''http: request body too large'') else Ok s)"

text \<open>\<open>json.NewEncoder(w).Encode\<close> appends a newline, and its error is dropped.\<close>

definition writeJSON :: "go_impl \<Rightarrow> int \<Rightarrow> goval \<Rightarrow> http_reply" where
  "writeJSON I status payload = \<lparr>rp_status = status, rp_content_type = ''application/json'',
     rp_body = (case marshal I payload of Ok s \<Rightarrow> s @ [CHR 0x0A] | _ \<Rightarrow> [])\<rparr>"

definition writeError :: "go_impl \<Rightarrow> int \<Rightarrow> string \<Rightarrow> http_reply" where
  "writeError I status message = writeJSON I status (VMap [(''error'', VString message)])"

definition http_event :: "gotime \<Rightarrow> string \<Rightarrow> receive_event" where
  "http_event now payload = \<lparr>ev_Source = ''http'', ev_EventName = ''http_alarm_event'', ev_EventTime = now,
     ev_EventData = payload\<rparr>"

definition handlePush :: "go_impl \<Rightarrow> gotime \<times> push_request \<Rightarrow> event_channel \<Rightarrow> event_channel \<times> http_reply" where
  "handlePush I = (\<lambda>(now, req) c.
     if pr_Method req \<noteq> ''POST'' then (c, writeError I 405 ''method not allowed'')
     else case read_limited maxBodyBytes (pr_Body req) of
       Ok payload \<Rightarrow>
         if payload = [] then (c, writeError I 400 ''empty payload'')
         else (case try_send (http_event now payload) c of
            (c', True) \<Rightarrow> (c', writeJSON I 200 (VMap [(''message'', VString ''received'')]))
          | (c', False) \<Rightarrow> (c', writeError I 503 ''server busy''))
     | _ \<Rightarrow> (c, writeError I 500 ''failed to read body''))"

text \<open>\<open>errors.Is\<close>: through the errors that were wrapped with the verb w.\<close>

fun has_w :: "string \<Rightarrow> bool" where
  "has_w (a # b # s) = (a = CHR ''%'' \<and> b = CHR ''w'' \<or> has_w (b # s))"
| "has_w _ = False"

fun errors_Is :: "error \<Rightarrow> error \<Rightarrow> bool" where
  "errors_Is (Wrapf f xs e) t = (Wrapf f xs e = t \<or> has_w f \<and> errors_Is e t)"
| "errors_Is e t = (e = t)"

definition ErrServerClosed :: error where
  "ErrServerClosed = ExtError ''http: Server closed''"

text \<open>The outcome of \<open>Start\<close> from the error with which \<open>ListenAndServe\<close> returns, and of \<open>Stop\<close> from \<open>Shutdown\<close>'s.\<close>

definition http_Start :: "error option \<Rightarrow> unit result" where
  "http_Start served = (case served of
       None \<Rightarrow> Ok ()
     | Some e \<Rightarrow> if errors_Is e ErrServerClosed then Ok () else Err e)"

definition http_Stop :: "unit answer \<Rightarrow> unit result" where
  "http_Stop shutdown = wrap_err ''manual shutdown: %w'' [] (of_answer shutdown)"

text \<open>What the handler offers the channel, and its statuses.\<close>

definition push_event :: "gotime \<times> push_request \<Rightarrow> receive_event option" where
  "push_event = (\<lambda>(now, req).
     if pr_Method req \<noteq> ''POST'' then None
     else case read_limited maxBodyBytes (pr_Body req) of
       Ok payload \<Rightarrow> if payload = [] then None else Some (http_event now payload)
     | _ \<Rightarrow> None)"

lemma writeJSON_status [simp]: "rp_status (writeJSON I s v) = s" "rp_status (writeError I s m) = s"
  by (simp_all add: writeJSON_def writeError_def)

lemma http_producer_laws:
  "push_event i = Some e \<Longrightarrow> handlePush I i c = (c', r) \<Longrightarrow> try_send e c = (c', rp_status r = 200)"
  "push_event i = None \<Longrightarrow> handlePush I i c = (c', r) \<Longrightarrow> c' = c \<and> rp_status r \<noteq> 200"
  by (cases i; auto simp: push_event_def handlePush_def split: result.splits if_splits prod.splits bool.splits)+

interpretation http_push: producer "handlePush I" push_event "\<lambda>i r. rp_status r = 200" for I
  by unfold_locales (rule http_producer_laws, assumption+)+

section \<open>The MQTT listener\<close>

record mqtt_receiver =
  mr_Host :: string
  mr_Port :: "16 word"
  mr_AsyncData :: nat
  mr_srv :: "nat option" \<comment> \<open>the broker object, \<open>nil\<close> before \<open>Start\<close> and after \<open>Stop\<close>\<close>

text \<open>The broker: \<open>mq_new\<close> makes one; the others are method calls on it.\<close>

record 'w mqtt_api =
  mq_new :: "'w \<Rightarrow> 'w \<times> nat"
  mq_add_auth :: "nat \<Rightarrow> 'w \<Rightarrow> 'w \<times> unit answer"
  mq_add_hook :: "nat \<Rightarrow> nat \<Rightarrow> 'w \<Rightarrow> 'w \<times> unit answer" \<comment> \<open>broker, channel of the message hook\<close>
  mq_add_listener :: "nat \<Rightarrow> string \<Rightarrow> string \<Rightarrow> 'w \<Rightarrow> 'w \<times> unit answer" \<comment> \<open>broker, id, address\<close>
  mq_serve :: "nat \<Rightarrow> 'w \<Rightarrow> 'w \<times> unit answer"
  mq_close :: "nat \<Rightarrow> 'w \<Rightarrow> 'w \<times> unit answer"

definition NewMqttReceiver :: "string \<Rightarrow> 16 word \<Rightarrow> chans \<Rightarrow> chans \<times> mqtt_receiver" where
  "NewMqttReceiver host port chs =
     (let port = (if port = 0 then 1883 else port)
      in case new_chan maxDataChannelSize chs of (ch, chs') \<Rightarrow>
        (chs', \<lparr>mr_Host = host, mr_Port = port, mr_AsyncData = ch, mr_srv = None\<rparr>))"

text \<open>The packet's topic and payload; the hook returns the packet unchanged.\<close>

record packet =
  pk_TopicName :: string
  pk_Payload :: string

definition mqtt_event :: "gotime \<Rightarrow> packet \<Rightarrow> receive_event" where
  "mqtt_event now pk = \<lparr>ev_Source = ''mqtt'', ev_EventName = pk_TopicName pk, ev_EventTime = now,
     ev_EventData = pk_Payload pk\<rparr>"

definition OnPublish :: "gotime \<times> packet \<Rightarrow> event_channel \<Rightarrow> event_channel \<times> bool" where
  "OnPublish = (\<lambda>(now, pk) c. try_send (mqtt_event now pk) c)"

interpretation mqtt_publish: producer OnPublish "\<lambda>(now, pk). Some (mqtt_event now pk)" "\<lambda>i r. r"
  by unfold_locales (auto simp: OnPublish_def)

text \<open>
  \<open>Start\<close> is a sequence of calls between which another goroutine may run, and each reads \<open>r.srv\<close>
  anew; a method call on a nil broker panics. The stage is what is still to be done.
\<close>

datatype mqtt_stage = Create | AddAuth | AddHook | AddListener | Serve | Done "unit result"

type_synonym 'w mqtt_state = "mqtt_receiver \<times> 'w"

definition broker_call ::
  "string \<Rightarrow> string list \<Rightarrow> mqtt_stage \<Rightarrow> (nat \<Rightarrow> 'w \<Rightarrow> 'w \<times> unit answer) \<Rightarrow> 'w mqtt_state \<Rightarrow> mqtt_stage \<times> 'w mqtt_state" where
  "broker_call fmt args next_stage call s = (case s of (r, w) \<Rightarrow> case mr_srv r of
       None \<Rightarrow> (Done nil_panic, s)
     | Some b \<Rightarrow> (case call b w of (w', a) \<Rightarrow> case a of
           Inl e \<Rightarrow> (Done (Err (Wrapf fmt args e)), (r, w'))
         | Inr u \<Rightarrow> (next_stage, (r, w'))))"

fun mqtt_stage_step :: "'w mqtt_api \<Rightarrow> mqtt_stage \<Rightarrow> 'w mqtt_state \<Rightarrow> mqtt_stage \<times> 'w mqtt_state" where
  "mqtt_stage_step M Create (r, w) = (case mq_new M w of (w', b) \<Rightarrow> (AddAuth, (r\<lparr>mr_srv := Some b\<rparr>, w')))"
| "mqtt_stage_step M AddAuth s = broker_call ''mqtt broker add auth hook: %w'' [] AddHook (mq_add_auth M) s"
| "mqtt_stage_step M AddHook (r, w) =
     broker_call ''mqtt broker add message hook: %w'' [] AddListener (\<lambda>b. mq_add_hook M b (mr_AsyncData r)) (r, w)"
| "mqtt_stage_step M AddListener (r, w) =
     (let addr = host_port (mr_Host r) (mr_Port r)
      in broker_call ''mqtt broker add listener %s: %w'' [addr] Serve
           (\<lambda>b. mq_add_listener M b ''mqtt-tcp'' addr) (r, w))"
| "mqtt_stage_step M Serve (r, w) = (case mr_srv r of
       None \<Rightarrow> (Done nil_panic, (r, w))
     | Some b \<Rightarrow> (case mq_serve M b w of (w', a) \<Rightarrow> (Done (of_answer a), (r, w'))))"
| "mqtt_stage_step M (Done x) s = (Done x, s)"

text \<open>\<open>Start\<close> run without interruption: five steps.\<close>

definition mqtt_Start :: "'w mqtt_api \<Rightarrow> 'w mqtt_state \<Rightarrow> mqtt_stage \<times> 'w mqtt_state" where
  "mqtt_Start M s = ((\<lambda>(st, s). mqtt_stage_step M st s) ^^ 5) (Create, s)"

definition mqtt_Stop :: "'w mqtt_api \<Rightarrow> 'w mqtt_state \<Rightarrow> 'w mqtt_state \<times> unit result" where
  "mqtt_Stop M s = (case s of (r, w) \<Rightarrow> case mr_srv r of
       None \<Rightarrow> (s, Ok ())
     | Some b \<Rightarrow> (case mq_close M b w of (w', a) \<Rightarrow> case a of
           Inl e \<Rightarrow> ((r, w'), Err (Wrapf ''mqtt broker close: %w'' [] e))
         | Inr u \<Rightarrow> ((r\<lparr>mr_srv := None\<rparr>, w'), Ok ())))"

section \<open>The SNMP trap listener\<close>

record snmp_receiver =
  sr_Host :: string
  sr_Port :: "16 word"
  sr_Community :: string
  sr_AsyncData :: nat
  sr_listener :: "nat option"

definition NewSnmpReceiver :: "string \<Rightarrow> 16 word \<Rightarrow> string \<Rightarrow> chans \<Rightarrow> chans \<times> snmp_receiver" where
  "NewSnmpReceiver host port community chs =
     (let port = (if port = 0 then 162 else port);
          community = (if community = [] then ''public'' else community)
      in case new_chan maxDataChannelSize chs of (ch, chs') \<Rightarrow>
        (chs', \<lparr>sr_Host = host, sr_Port = port, sr_Community = community, sr_AsyncData = ch, sr_listener = None\<rparr>))"

text \<open>The trap socket: its parameters are the port, transport, version and community.\<close>

record 'w trap_api =
  tr_new :: "16 word \<Rightarrow> string \<Rightarrow> string \<Rightarrow> string \<Rightarrow> 'w \<Rightarrow> 'w \<times> nat"
  tr_listen :: "nat \<Rightarrow> string \<Rightarrow> 'w \<Rightarrow> 'w \<times> unit answer"
  tr_close :: "nat \<Rightarrow> 'w \<Rightarrow> 'w"

type_synonym 'w trap_state = "snmp_receiver \<times> 'w"

text \<open>The part of \<open>Start\<close> under the lock, and the rest, before which \<open>Stop\<close> may run.\<close>

definition snmp_prepare :: "'w trap_api \<Rightarrow> 'w trap_state \<Rightarrow> 'w trap_state" where
  "snmp_prepare T s = (case s of (r, w) \<Rightarrow>
     case tr_new T (sr_Port r) ''udp'' ''2c'' (sr_Community r) w of (w', l) \<Rightarrow> (r\<lparr>sr_listener := Some l\<rparr>, w'))"

definition snmp_listen :: "'w trap_api \<Rightarrow> 'w trap_state \<Rightarrow> 'w trap_state \<times> unit result" where
  "snmp_listen T s = (case s of (r, w) \<Rightarrow> case sr_listener r of
       None \<Rightarrow> (s, nil_panic)
     | Some l \<Rightarrow> (let addr = host_port (sr_Host r) (sr_Port r)
         in case tr_listen T l addr w of (w', a) \<Rightarrow>
           ((r, w'), wrap_err ''snmp trap listener on %s: %w'' [addr] (of_answer a))))"

definition snmp_Start :: "'w trap_api \<Rightarrow> 'w trap_state \<Rightarrow> 'w trap_state \<times> unit result" where
  "snmp_Start T s = snmp_listen T (snmp_prepare T s)"

definition snmp_Stop :: "'w trap_api \<Rightarrow> 'w trap_state \<Rightarrow> 'w trap_state \<times> unit result" where
  "snmp_Stop T s = (case s of (r, w) \<Rightarrow> case sr_listener r of
       None \<Rightarrow> (s, Ok ())
     | Some l \<Rightarrow> ((r\<lparr>sr_listener := None\<rparr>, tr_close T l w), Ok ()))"

text \<open>A trap: the fields of gosnmp's packet the callback reads, and the source address as text.\<close>

record trap_pdu =
  tv_Name :: string
  tv_Value :: goval

record trap_packet =
  tp_Enterprise :: string
  tp_GenericTrap :: "64 word"
  tp_SpecificTrap :: "64 word"
  tp_Timestamp :: "64 word"
  tp_Variables :: "trap_pdu list"

text \<open>\<open>net.IP\<close> prints itself, so its \<open>String()\<close> is what \<open>%v\<close> shows.\<close>

fun convertSnmpValue :: "goval \<Rightarrow> goval" where
  "convertSnmpValue (VBytes s) = VString s"
| "convertSnmpValue (VOther t p) = (if t = ''net.IP'' then VString p else VOther t p)"
| "convertSnmpValue v = v"

definition trap_key :: "string \<Rightarrow> string" where
  "trap_key name = replace_all CHR ''.'' CHR ''-'' (trim_prefix CHR ''.'' name)"

definition trap_data :: "trap_pdu list \<Rightarrow> (string \<times> goval) list" where
  "trap_data vars = foldl (\<lambda>data pdu. put_entry data (trap_key (tv_Name pdu)) (convertSnmpValue (tv_Value pdu))) [] vars"

text \<open>The struct \<open>trapPayload\<close> is encoded with its fields in the order of their declaration.\<close>

definition trapPayload :: "string \<Rightarrow> trap_packet \<Rightarrow> (string \<times> goval) list" where
  "trapPayload source packet =
     [(''source_addr'', VString source), (''enterprise'', VString (tp_Enterprise packet)),
      (''generic'', VInt (tp_GenericTrap packet)), (''specific'', VInt (tp_SpecificTrap packet)),
      (''timestamp'', VUint (tp_Timestamp packet)), (''data'', VMap (trap_data (tp_Variables packet)))]"

definition marshal_struct :: "go_impl \<Rightarrow> (string \<times> goval) list \<Rightarrow> string result" where
  "marshal_struct I members = rmap (\<lambda>xs. CHR ''{'' # join_with '','' xs @ ''}'')
     (traverse (\<lambda>(k, v). rmap (\<lambda>t. json_quote k @ CHR '':'' # t) (marshal I v)) members)"

definition snmp_event :: "gotime \<Rightarrow> string \<Rightarrow> receive_event" where
  "snmp_event now payload = \<lparr>ev_Source = ''snmp'', ev_EventName = ''snmp_trap'', ev_EventTime = now,
     ev_EventData = payload\<rparr>"

definition onTrap :: "go_impl \<Rightarrow> gotime \<times> string \<times> trap_packet \<Rightarrow> event_channel \<Rightarrow> event_channel \<times> bool" where
  "onTrap I = (\<lambda>(now, source, packet) c. case marshal_struct I (trapPayload source packet) of
       Ok payloadBytes \<Rightarrow> try_send (snmp_event now payloadBytes) c
     | _ \<Rightarrow> (c, False))"

definition trap_event :: "go_impl \<Rightarrow> gotime \<times> string \<times> trap_packet \<Rightarrow> receive_event option" where
  "trap_event I = (\<lambda>(now, source, packet). case marshal_struct I (trapPayload source packet) of
       Ok payloadBytes \<Rightarrow> Some (snmp_event now payloadBytes) | _ \<Rightarrow> None)"

interpretation snmp_trap: producer "onTrap I" "trap_event I" "\<lambda>i r. r" for I
  by unfold_locales (auto simp: onTrap_def trap_event_def split: result.splits)

section \<open>Pushes over HTTP\<close>

lemma reply_bodies:
  "json_parse (rp_body (writeError I s ''method not allowed'')) = Some (JObj [(''error'', JStr ''method not allowed'')])"
  "json_parse (rp_body (writeError I s ''failed to read body'')) = Some (JObj [(''error'', JStr ''failed to read body'')])"
  "json_parse (rp_body (writeError I s ''empty payload'')) = Some (JObj [(''error'', JStr ''empty payload'')])"
  "json_parse (rp_body (writeError I s ''server busy'')) = Some (JObj [(''error'', JStr ''server busy'')])"
  "json_parse (rp_body (writeJSON I s (VMap [(''message'', VString ''received'')]))) = Some (JObj [(''message'', JStr ''received'')])"
  by (simp_all add: writeError_def writeJSON_def json_quote_def quote_char_def byte_def) code_simp+

text \<open>
  C13: a push is answered with 200 exactly when its body, of at least one byte and at most a mebibyte, was queued; a full queue, an
  empty body, a body that is too long or cannot be read, and another method have their own status
  and leave the queue alone; and every reply is a JSON object with one text.
\<close>

theorem http_push_contract:
  assumes "handlePush I (now, req) c = (c', r)"
  shows "rp_status r = (if pr_Method req \<noteq> ''POST'' then 405 else case pr_Body req of
      Inl e \<Rightarrow> 500
    | Inr s \<Rightarrow> if 2 ^ 20 < length s then 500 else if s = [] then 400
        else if ch_cap c \<le> length (ch_buf c) then 503 else 200) \<and>
    (if rp_status r = 200 then \<exists>s. pr_Body req = Inr s \<and> c' = c\<lparr>ch_buf := ch_buf c @ [http_event now s]\<rparr> else c' = c) \<and>
    (\<exists>k m. json_parse (rp_body r) = Some (JObj [(k, JStr m)]))"
proof (cases "pr_Method req = ''POST''")
  case False
  then show ?thesis using assms reply_bodies(1) by (auto simp: handlePush_def)
next
  case post: True
  show ?thesis
  proof (cases "pr_Body req")
    case (Inl e)
    then show ?thesis using assms post reply_bodies(2) by (auto simp: handlePush_def read_limited_def)
  next
    case (Inr s)
    show ?thesis
    proof (cases "2 ^ 20 < length s \<or> s = []")
      case True
      then show ?thesis using assms post Inr reply_bodies(2,3)
        by (auto simp: handlePush_def read_limited_def maxBodyBytes_def)
    next
      case False
      then show ?thesis using assms post Inr reply_bodies(4,5)
        by (auto simp: handlePush_def read_limited_def maxBodyBytes_def try_send_def split: if_splits)
    qed
  qed
qed

theorem http_push_contract_witness:
  "\<forall>I. rp_status (snd (handlePush I (0, \<lparr>pr_Method = ''POST'', pr_Body = Inr ''on''\<rparr>) (make_chan 1))) = 200 \<and>
     ch_buf (fst (handlePush I (0, \<lparr>pr_Method = ''POST'', pr_Body = Inr ''on''\<rparr>) (make_chan 1))) = [http_event 0 ''on'']"
proof
  fix I
  obtain c' r where h: "handlePush I (0, \<lparr>pr_Method = ''POST'', pr_Body = Inr ''on''\<rparr>) (make_chan 1) = (c', r)" by fastforce
  from http_push_contract [OF h] h
  show "rp_status (snd (handlePush I (0, \<lparr>pr_Method = ''POST'', pr_Body = Inr ''on''\<rparr>) (make_chan 1))) = 200 \<and>
     ch_buf (fst (handlePush I (0, \<lparr>pr_Method = ''POST'', pr_Body = Inr ''on''\<rparr>) (make_chan 1))) = [http_event 0 ''on'']"
    by auto
qed

section \<open>Starting and stopping\<close>

text \<open>
  C35: stopping is safe only before a start began or while it serves: a successful \<open>Stop\<close> that runs between
  two statements of the MQTT listener's \<open>Start\<close>, or between the two halves of the trap listener's,
  makes that start panic, in a goroutine nothing recovers.
\<close>

theorem stop_races_start:
  "(mqtt_Stop M (r, w) = (s', Ok ()) \<and> st \<in> {AddAuth, AddHook, AddListener, Serve} \<longrightarrow>
      mqtt_stage_step M st s' = (Done nil_panic, s')) \<and>
   (snmp_Stop T (snmp_prepare T t) = (t', x) \<longrightarrow> x = Ok () \<and> snmp_listen T t' = (t', nil_panic))"
proof -
  have "mqtt_Stop M (r, w) = (s', Ok ()) \<Longrightarrow> mr_srv (fst s') = None"
    by (auto simp: mqtt_Stop_def split: option.splits prod.splits sum.splits)
  moreover have "mr_srv (fst s') = None \<Longrightarrow> st \<in> {AddAuth, AddHook, AddListener, Serve} \<Longrightarrow>
      mqtt_stage_step M st s' = (Done nil_panic, s')"
    by (cases s') (auto simp: broker_call_def Let_def)
  ultimately show ?thesis
    by (auto simp: snmp_Stop_def snmp_prepare_def snmp_listen_def split: prod.splits)
qed

definition quiet_broker :: "nat mqtt_api" where
  "quiet_broker = \<lparr>mq_new = (\<lambda>w. (Suc w, w)), mq_add_auth = (\<lambda>b w. (w, Inr ())), mq_add_hook = (\<lambda>b ch w. (w, Inr ())),
     mq_add_listener = (\<lambda>b i a w. (w, Inr ())), mq_serve = (\<lambda>b w. (w, Inr ())), mq_close = (\<lambda>b w. (w, Inr ()))\<rparr>"

definition quiet_socket :: "nat trap_api" where
  "quiet_socket = \<lparr>tr_new = (\<lambda>p tp v c w. (Suc w, w)), tr_listen = (\<lambda>l a w. (w, Inr ())), tr_close = (\<lambda>l w. w)\<rparr>"

theorem stop_races_start_witness:
  "\<exists>s1 s2. mqtt_stage_step quiet_broker Create (snd (NewMqttReceiver ''h'' 0 []), 0) = (AddAuth, s1) \<and>
     mqtt_Stop quiet_broker s1 = (s2, Ok ()) \<and> mqtt_stage_step quiet_broker AddAuth s2 = (Done nil_panic, s2) \<and>
     (\<exists>t. snmp_listen quiet_socket t = (t, nil_panic))"
proof -
  let ?r = "(snd (NewMqttReceiver ''h'' 0 []))\<lparr>mr_srv := Some 0\<rparr>"
  have a: "mqtt_stage_step quiet_broker Create (snd (NewMqttReceiver ''h'' 0 []), 0) = (AddAuth, (?r, 1))"
    by (simp add: quiet_broker_def)
  have b: "mqtt_Stop quiet_broker (?r, 1) = ((?r\<lparr>mr_srv := None\<rparr>, 1), Ok ())"
    by (simp add: mqtt_Stop_def quiet_broker_def)
  obtain t' x where c: "snmp_Stop quiet_socket (snmp_prepare quiet_socket (snd (NewSnmpReceiver ''h'' 0 [] []), 0)) = (t', x)"
    by fastforce
  from stop_races_start [of quiet_broker ?r 1 "(?r\<lparr>mr_srv := None\<rparr>, 1)" AddAuth quiet_socket
      "(snd (NewSnmpReceiver ''h'' 0 [] []), 0)" t' x] a b c
  show ?thesis by blast
qed

text \<open>Without interruption, the broker is made, hooked to the receiver's channel and served.\<close>

lemma mqtt_Start_uninterrupted:
  assumes "mq_new M w = (w1, b)" "mq_add_auth M b w1 = (w2, Inr ())" "mq_add_hook M b (mr_AsyncData r) w2 = (w3, Inr ())"
    "mq_add_listener M b ''mqtt-tcp'' (host_port (mr_Host r) (mr_Port r)) w3 = (w4, Inr ())" "mq_serve M b w4 = (w5, a)"
  shows "mqtt_Start M (r, w) = (Done (of_answer a), (r\<lparr>mr_srv := Some b\<rparr>, w5))"
  using assms by (simp add: mqtt_Start_def eval_nat_numeral broker_call_def Let_def)

end
