(* ===== verification/Ingest.thy ===== *)
theory Ingest
  imports Listeners "HOL-Library.Multiset"
begin

text \<open>
  The part of \<open>internal/driver/drive.go\<close> that turns a received event into the SDK's readings:
  looking up the device and its profile, announcing unknown devices, and typing the payload's
  fields. The SDK is a record of what its calls answer; the two iterations over the payload's map
  are arguments \<open>ordB\<close> and \<open>ordS\<close> (the order of the loop that builds the values, and of the loop
  that picks the source name).
\<close>

section \<open>The SDK's data\<close>

record sdk_device =
  sd_Name :: string
  sd_ProfileName :: string
  sd_Protocols :: "(string \<times> (string \<rightharpoonup> string)) list"

record device_resource =
  dr_Name :: string
  dr_ValueType :: string
  dr_Attributes :: "string \<rightharpoonup> goval"

type_synonym device_profile = "device_resource list"

record discovered_device =
  dd_Name :: string
  dd_Protocols :: "(string \<times> (string \<times> string) list) list"
  dd_Description :: string
  dd_Labels :: "string list"

record async_values =
  av_DeviceName :: string
  av_SourceName :: string
  av_CommandValues :: "command_value list"

record sdk =
  sk_GetDeviceByName :: "string \<Rightarrow> sdk_device answer"
  sk_GetProfileByName :: "string \<Rightarrow> device_profile answer"
  sk_Devices :: "sdk_device list"
  sk_NewCommandValue :: new_command_value

type_synonym device_channel = "discovered_device list channel"
type_synonym field_order = "(string \<times> goval) list \<Rightarrow> (string \<times> goval) list"

text \<open>The SDK's \<open>NewCommandValue\<close> returns; an iteration visits every entry once.\<close>

definition sdk_returns :: "sdk \<Rightarrow> bool" where
  "sdk_returns K \<longleftrightarrow> (\<forall>n t v m. sk_NewCommandValue K n t v \<noteq> Panic m)"

definition visits_all :: "field_order \<Rightarrow> bool" where
  "visits_all ord \<longleftrightarrow> (\<forall>xs. mset (ord xs) = mset xs)"

section \<open>Devices and profiles\<close>

definition lookupProfile :: "sdk \<Rightarrow> string \<Rightarrow> device_profile option" where
  "lookupProfile K deviceName = (case sk_GetDeviceByName K deviceName of
       Inl e \<Rightarrow> None
     | Inr device \<Rightarrow> (case sk_GetProfileByName K (sd_ProfileName device) of
           Inl e \<Rightarrow> None
         | Inr profile \<Rightarrow> Some profile))"

text \<open>\<open>net.SplitHostPort\<close>: the host, or \<open>None\<close> for an error.\<close>

fun index_of :: "char \<Rightarrow> string \<Rightarrow> nat option" where
  "index_of c [] = None"
| "index_of c (x # xs) = (if x = c then Some 0 else map_option Suc (index_of c xs))"

definition last_index_of :: "char \<Rightarrow> string \<Rightarrow> nat option" where
  "last_index_of c s = map_option (\<lambda>i. length s - 1 - i) (index_of c (rev s))"

definition split_host :: "string \<Rightarrow> string option" where
  "split_host s = (case last_index_of CHR '':'' s of
       None \<Rightarrow> None
     | Some i \<Rightarrow>
        if hd s = CHR ''['' then
          (case index_of CHR '']'' s of
             None \<Rightarrow> None
           | Some end \<Rightarrow>
              if end + 1 \<noteq> i then None
              else if CHR ''['' \<in> set (drop 1 s) \<or> CHR '']'' \<in> set (drop (end + 1) s) then None
              else Some (take (end - 1) (drop 1 s)))
        else (let host = take i s
              in if CHR '':'' \<in> set host \<or> CHR ''['' \<in> set s \<or> CHR '']'' \<in> set s then None else Some host))"

text \<open>The two loops: the first protocol of the first device whose address is the host.\<close>

definition device_at :: "string \<Rightarrow> sdk_device \<Rightarrow> bool" where
  "device_at host d = list_ex (\<lambda>(n, proto). proto ''Address'' = Some host) (sd_Protocols d)"

definition lookupDeviceByAddr :: "sdk \<Rightarrow> string \<Rightarrow> string \<times> device_profile option" where
  "lookupDeviceByAddr K sourceAddr =
     (let host = (case split_host sourceAddr of None \<Rightarrow> sourceAddr | Some h \<Rightarrow> h)
      in case find (device_at host) (sk_Devices K) of
           Some d \<Rightarrow> (sd_Name d, lookupProfile K (sd_Name d))
         | None \<Rightarrow> (sourceAddr, None))"

definition ensureDevice :: "string \<Rightarrow> string \<Rightarrow> device_channel \<Rightarrow> device_channel" where
  "ensureDevice deviceName source dch = fst (try_send
     [\<lparr>dd_Name = deviceName, dd_Protocols = [(source, [(''Address'', deviceName)])],
       dd_Description = ''Auto-discovered '' @ source @ '' device'',
       dd_Labels = [source, ''auto-discovered'']\<rparr>] dch)"

section \<open>Typing the fields\<close>

definition convertValue :: "go_impl \<Rightarrow> goval \<Rightarrow> string \<Rightarrow> goval" where
  "convertValue I val targetType =
     (if targetType \<in> {''Float64'', ''Float32''} then
        (case val of VFloat64 v \<Rightarrow> VFloat64 v | _ \<Rightarrow> val)
      else if targetType \<in> {''Int32'', ''Int16'', ''Uint16'', ''Uint32'', ''Uint64''} then
        (case val of VFloat64 v \<Rightarrow> VInt32 (fval_to_sint I (f64_val v)) | _ \<Rightarrow> val)
      else if targetType = ''String'' then VString (sprint_v I val)
      else if targetType = ''Bool'' then
        (case val of
           VBool v \<Rightarrow> VBool v
         | VFloat64 v \<Rightarrow> VBool (fval_nonzero (f64_val v))
         | VString v \<Rightarrow> VBool (v = ''true'' \<or> v = ''1'')
         | _ \<Rightarrow> val)
      else val)"

text \<open>Whether a device resource matches a field: by name, or by its address, dots as hyphens.\<close>

definition resource_matches :: "string \<Rightarrow> device_resource \<Rightarrow> bool" where
  "resource_matches fieldName dr = (dr_Name dr = fieldName \<or> (case dr_Attributes dr ''address'' of
       Some (VString addr) \<Rightarrow> addr = fieldName \<or> replace_all CHR ''.'' CHR ''-'' addr = fieldName
     | _ \<Rightarrow> False))"

definition resolveFieldType :: "go_impl \<Rightarrow> device_profile option \<Rightarrow> string \<Rightarrow> goval \<Rightarrow> string \<times> goval" where
  "resolveFieldType I profile fieldName val =
     (case Option.bind profile (find (resource_matches fieldName)) of
        Some dr \<Rightarrow> (dr_ValueType dr, convertValue I val (dr_ValueType dr))
      | None \<Rightarrow> (case val of
            VFloat64 v \<Rightarrow> (''Float64'', VFloat64 v)
          | VString v \<Rightarrow> (''String'', VString v)
          | VBool v \<Rightarrow> (''Bool'', VBool v)
          | _ \<Rightarrow> (''String'', VString (sprint_v I val))))"

text \<open>A field the SDK refuses is skipped.\<close>

fun buildCommandValues ::
  "go_impl \<Rightarrow> new_command_value \<Rightarrow> device_profile option \<Rightarrow> (string \<times> goval) list \<Rightarrow> command_value list result" where
  "buildCommandValues I newcv profile [] = Ok []"
| "buildCommandValues I newcv profile ((key, val) # data) =
     (case resolveFieldType I profile key val of (valueType, typedVal) \<Rightarrow>
        case newcv key valueType typedVal of
          Ok cv \<Rightarrow> rmap (\<lambda>cvs. cv # cvs) (buildCommandValues I newcv profile data)
        | Err e \<Rightarrow> buildCommandValues I newcv profile data
        | Panic m \<Rightarrow> Panic m)"

section \<open>Payloads\<close>

text \<open>
  The anonymous structs of the decoders have two fields: a name (\<open>device_name\<close> or \<open>source_addr\<close>) and
  \<open>data\<close>.
\<close>

definition unmarshal_envelope :: "string \<Rightarrow> string \<Rightarrow> (string \<times> (string \<times> goval) list) result" where
  "unmarshal_envelope name_field bs = (case json_parse bs of
       Some JNull \<Rightarrow> Ok ([], [])
     | Some (JObj ms) \<Rightarrow> (case (struct_field name_field into_string ms [], struct_field ''data'' into_map ms []) of
           (Some n, Some d) \<Rightarrow> Ok (n, d)
         | _ \<Rightarrow> Err json_error)
     | _ \<Rightarrow> Err json_error)"

definition first_key :: "string \<Rightarrow> (string \<times> goval) list \<Rightarrow> string" where
  "first_key dflt data = (case data of [] \<Rightarrow> dflt | (k, v) # _ \<Rightarrow> k)"

definition decodeMqttPayload ::
  "go_impl \<Rightarrow> sdk \<Rightarrow> field_order \<Rightarrow> field_order \<Rightarrow> receive_event \<Rightarrow> device_channel \<Rightarrow> device_channel \<times> async_values result" where
  "decodeMqttPayload I K ordB ordS e dch =
     (case wrap_err ''invalid json: %w'' [] (unmarshal_envelope ''device_name'' (ev_EventData e)) of
        Err x \<Rightarrow> (dch, Err x)
      | Panic m \<Rightarrow> (dch, Panic m)
      | Ok (deviceName, data) \<Rightarrow>
          if deviceName = [] then (dch, Err (Errorf ''missing device_name'' []))
          else if data = [] then (dch, Err (Errorf ''empty data for device %s'' [deviceName]))
          else (let profile = lookupProfile K deviceName;
                    dch1 = (if profile = None then ensureDevice deviceName ''mqtt'' dch else dch)
                in (dch1, rbind (buildCommandValues I (sk_NewCommandValue K) profile (ordB data)) (\<lambda>cmdVals.
                      if cmdVals = [] then Err (Errorf ''no valid fields for device %s'' [deviceName])
                      else Ok \<lparr>av_DeviceName = deviceName, av_SourceName = first_key ''data'' (ordS data),
                               av_CommandValues = cmdVals\<rparr>))))"

definition decodeSnmpTrapPayload ::
  "go_impl \<Rightarrow> sdk \<Rightarrow> field_order \<Rightarrow> field_order \<Rightarrow> receive_event \<Rightarrow> device_channel \<Rightarrow> device_channel \<times> async_values result" where
  "decodeSnmpTrapPayload I K ordB ordS e dch =
     (case wrap_err ''invalid snmp trap json: %w'' [] (unmarshal_envelope ''source_addr'' (ev_EventData e)) of
        Err x \<Rightarrow> (dch, Err x)
      | Panic m \<Rightarrow> (dch, Panic m)
      | Ok (sourceAddr, data) \<Rightarrow>
          if sourceAddr = [] then (dch, Err (Errorf ''missing source_addr'' []))
          else if data = [] then (dch, Err (Errorf ''empty variables for %s'' [sourceAddr]))
          else (case lookupDeviceByAddr K sourceAddr of (deviceName, profile) \<Rightarrow>
                (let dch1 = (if profile = None then ensureDevice deviceName ''snmp'' dch else dch)
                 in (dch1, rbind (buildCommandValues I (sk_NewCommandValue K) profile (ordB data)) (\<lambda>cmdVals.
                      if cmdVals = [] then Err (Errorf ''no valid variables for %s'' [deviceName])
                      else Ok \<lparr>av_DeviceName = deviceName, av_SourceName = first_key ''snmp_trap'' (ordS data),
                               av_CommandValues = cmdVals\<rparr>)))))"

definition decodeReceiveEvent ::
  "go_impl \<Rightarrow> sdk \<Rightarrow> field_order \<Rightarrow> field_order \<Rightarrow> receive_event \<Rightarrow> device_channel \<Rightarrow> device_channel \<times> async_values result" where
  "decodeReceiveEvent I K ordB ordS e dch =
     (if ev_Source e = ''mqtt'' then decodeMqttPayload I K ordB ordS e dch
      else if ev_Source e = ''snmp'' then decodeSnmpTrapPayload I K ordB ordS e dch
      else (dch, Err (Errorf ''unknown source: %s'' [ev_Source e])))"

section \<open>What the SDK accepts\<close>

text \<open>
  \<open>NewCommandValue\<close> as its documentation has it: a value of the Go type behind the value type, with
  the name, type and value it was given.
\<close>

definition sdk_typed :: "new_command_value \<Rightarrow> bool" where
  "sdk_typed newcv \<longleftrightarrow> (\<forall>n t v cv. newcv n t v = Ok cv \<longrightarrow>
     cv = \<lparr>cv_DeviceResourceName = n, cv_Type = t, cv_Value = v\<rparr> \<and> (\<forall>T. edgex_gotype t = Some T \<longrightarrow> gotype v = T))"

definition typed_newcv :: new_command_value where
  "typed_newcv n t v = (if edgex_gotype t = None \<or> edgex_gotype t = Some (gotype v)
     then Ok \<lparr>cv_DeviceResourceName = n, cv_Type = t, cv_Value = v\<rparr> else Err (ExtError ''NewCommandValue''))"

lemma typed_newcv_typed: "sdk_typed typed_newcv"
  by (auto simp: sdk_typed_def typed_newcv_def split: if_splits)

lemma buildCommandValues_member:
  "buildCommandValues I newcv profile data = Ok cvs \<Longrightarrow> cv \<in> set cvs \<Longrightarrow>
     \<exists>k v t w. (k, v) \<in> set data \<and> resolveFieldType I profile k v = (t, w) \<and> newcv k t w = Ok cv"
proof (induction data arbitrary: cvs)
  case (Cons kv data)
  obtain k v where kv: "kv = (k, v)" by fastforce
  obtain t w where r: "resolveFieldType I profile k v = (t, w)" by fastforce
  show ?case
  proof (cases "newcv k t w")
    case (Ok cv1)
    then obtain cvs1 where "buildCommandValues I newcv profile data = Ok cvs1" "cvs = cv1 # cvs1"
      using Cons.prems(1) kv r by (auto simp: rmap_Ok_iff)
    then show ?thesis using Cons.prems(2) Cons.IH kv r Ok by auto
  next
    case (Err e)
    then show ?thesis using Cons.prems Cons.IH kv r by auto
  next
    case (Panic m)
    then show ?thesis using Cons.prems kv r by simp
  qed
qed simp

lemma sdk_typedD:
  assumes "sdk_typed newcv" and "newcv n t v = Ok cv"
  shows "cv_DeviceResourceName cv = n" "cv_Type cv = t" "cv_Value cv = v" "edgex_gotype t = Some T \<Longrightarrow> gotype v = T"
  using assms by (fastforce simp: sdk_typed_def)+

lemma buildCommandValues_filter:
  assumes "\<And>n t v m. newcv n t v \<noteq> Panic m"
  shows "buildCommandValues I newcv profile data = Ok (concat (map (\<lambda>(k, v).
     case newcv k (fst (resolveFieldType I profile k v)) (snd (resolveFieldType I profile k v)) of Ok cv \<Rightarrow> [cv] | _ \<Rightarrow> []) data))"
  by (induction data) (auto simp: assms split: prod.splits result.splits)

text \<open>The types no number becomes a reading of.\<close>

definition unreachable_types :: "string list" where
  "unreachable_types = [''Uint8'', ''Uint16'', ''Uint32'', ''Uint64'', ''Int8'', ''Int16'', ''Int64'', ''Float32'', ''Binary'']"

text \<open>
  The type a profile declares for a field: that of the first resource that bears the field's name, or
  whose address is the field's name, literally or with hyphens for its dots.
\<close>

definition bears_name :: "device_resource \<Rightarrow> string \<Rightarrow> bool" where
  "bears_name dr k \<longleftrightarrow> dr_Name dr = k \<or> (\<exists>a. dr_Attributes dr ''address'' = Some (VString a) \<and>
     (a = k \<or> map (\<lambda>c. if c = CHR ''.'' then CHR ''-'' else c) a = k))"

definition declares :: "device_profile option \<Rightarrow> string \<Rightarrow> string \<Rightarrow> bool" where
  "declares profile k t \<longleftrightarrow> (\<exists>drs i. profile = Some drs \<and> i < length drs \<and> dr_ValueType (drs ! i) = t \<and>
     bears_name (drs ! i) k \<and> (\<forall>j < i. \<not> bears_name (drs ! j) k))"

text \<open>What \<open>json.Unmarshal\<close> puts into an \<open>interface{}\<close>.\<close>

fun from_json :: "goval \<Rightarrow> bool" where
  "from_json VNil = True"
| "from_json (VBool b) = True"
| "from_json (VFloat64 f) = True"
| "from_json (VString s) = True"
| "from_json (VSlice vs) = True"
| "from_json (VMap m) = True"
| "from_json _ = False"

text \<open>
  The reading a field is to give, \<open>t\<close> and \<open>w\<close> its value type and value: a number as \<open>Float64\<close>, or cut off
  to an \<open>Int32\<close>; anything printed as a \<open>String\<close>; a boolean, a number or one of the texts as a \<open>Bool\<close>;
  and without a declaration what the JSON value is.
\<close>

inductive reads_as :: "go_impl \<Rightarrow> device_profile option \<Rightarrow> string \<Rightarrow> goval \<Rightarrow> string \<Rightarrow> goval \<Rightarrow> bool"
  for I profile k where
  float64: "declares profile k ''Float64'' \<Longrightarrow> reads_as I profile k (VFloat64 f) ''Float64'' (VFloat64 f)"
| int32: "declares profile k ''Int32'' \<Longrightarrow> reads_as I profile k (VFloat64 f) ''Int32'' (VInt32 (fval_to_sint I (f64_val f)))"
| printed: "declares profile k ''String'' \<Longrightarrow> reads_as I profile k v ''String'' (VString (sprint_v I v))"
| bool: "declares profile k ''Bool'' \<Longrightarrow> reads_as I profile k (VBool b) ''Bool'' (VBool b)"
| bool_number: "declares profile k ''Bool'' \<Longrightarrow> reads_as I profile k (VFloat64 f) ''Bool'' (VBool (fval_nonzero (f64_val f)))"
| bool_text: "declares profile k ''Bool'' \<Longrightarrow> reads_as I profile k (VString s) ''Bool'' (VBool (s \<in> {''true'', ''1''}))"
| free_number: "\<nexists>t. declares profile k t \<Longrightarrow> reads_as I profile k (VFloat64 f) ''Float64'' (VFloat64 f)"
| free_text: "\<nexists>t. declares profile k t \<Longrightarrow> reads_as I profile k (VString s) ''String'' (VString s)"
| free_bool: "\<nexists>t. declares profile k t \<Longrightarrow> reads_as I profile k (VBool b) ''Bool'' (VBool b)"
| free_other: "\<nexists>t. declares profile k t \<Longrightarrow> v = VNil \<or> (\<exists>vs. v = VSlice vs) \<or> (\<exists>m. v = VMap m) \<Longrightarrow>
    reads_as I profile k v ''String'' (VString (sprint_v I v))"

text \<open>
  \<open>NewCommandValue\<close> as its documentation has it, for the scalar types and for binaries: it returns, and
  accepts exactly the values of the type's Go type (a binary may be too long).
\<close>

definition sdk_exact :: "new_command_value \<Rightarrow> bool" where
  "sdk_exact newcv \<longleftrightarrow> sdk_typed newcv \<and> (\<forall>n t v m. newcv n t v \<noteq> Panic m) \<and>
     (\<forall>n t v. edgex_gotype t = Some (gotype v) \<and> t \<noteq> ''Binary'' \<longrightarrow> (\<exists>cv. newcv n t v = Ok cv))"

lemma bears_name_matches: "bears_name dr k \<longleftrightarrow> resource_matches k dr"
  by (auto simp: bears_name_def resource_matches_def replace_all_def split: option.split goval.split)

lemma declares_find:
  "declares profile k t \<longleftrightarrow> (\<exists>dr. Option.bind profile (find (resource_matches k)) = Some dr \<and> dr_ValueType dr = t)"
  by (cases profile) (auto simp: declares_def bears_name_matches find_Some_iff)

lemma resolve_undeclared: "Option.bind profile (find (resource_matches k)) = None \<Longrightarrow> \<nexists>t. declares profile k t"
  by (simp add: declares_find)

text \<open>The Go types of the unreachable types, and of what becomes of a JSON value for one of them.\<close>

lemma unreachable_gotype:
  "t \<in> set unreachable_types \<Longrightarrow> edgex_gotype t \<in> Some ` {''uint8'', ''uint16'', ''uint32'', ''uint64'', ''int8'',
     ''int16'', ''int64'', ''float32'', ''[]uint8''}"
  by (auto simp: unreachable_types_def edgex_gotype_def)

lemma unreachable_value:
  assumes "t \<in> set unreachable_types" and "from_json v"
  shows "gotype (convertValue I v t) \<in> {''<nil>'', ''bool'', ''float64'', ''string'', ''[]interface {}'',
    ''map[string]interface {}'', ''int32''}"
proof -
  have "t \<noteq> ''String''" "t \<noteq> ''Bool''" using assms(1) by (auto simp: unreachable_types_def)
  then have "convertValue I v t = v \<or> (\<exists>i. convertValue I v t = VInt32 i)"
    by (auto simp: convertValue_def split: goval.split)
  then show ?thesis using assms(2) by (cases v) auto
qed

lemma reads_as_declared:
  assumes "\<And>t. declares profile k t \<longleftrightarrow> t = T"
  shows "reads_as I profile k v t w \<longleftrightarrow> t = T \<and>
    (T = ''Float64'' \<and> (\<exists>f. v = VFloat64 f) \<and> w = v \<or>
     T = ''Int32'' \<and> (\<exists>f. v = VFloat64 f \<and> w = VInt32 (fval_to_sint I (f64_val f))) \<or>
     T = ''String'' \<and> w = VString (sprint_v I v) \<or>
     T = ''Bool'' \<and> ((\<exists>b. v = VBool b) \<and> w = v \<or> (\<exists>f. v = VFloat64 f \<and> w = VBool (fval_nonzero (f64_val f))) \<or>
       (\<exists>s. v = VString s \<and> w = VBool (s = ''true'' \<or> s = ''1''))))"
    (is "_ \<longleftrightarrow> t = T \<and> ?r")
proof
  assume "reads_as I profile k v t w"
  then show "t = T \<and> ?r" by cases (simp_all add: assms)
next
  note intros = reads_as.float64 [of profile k] reads_as.int32 [of profile k] reads_as.printed [of profile k]
    reads_as.bool [of profile k] reads_as.bool_number [of profile k] reads_as.bool_text [of profile k]
  assume "t = T \<and> ?r"
  then have t: "t = T" and ?r by blast+
  from this(2) show "reads_as I profile k v t w" unfolding t
  proof (elim disjE conjE exE)
    fix s assume "T = ''Bool''" "v = VString s" "w = VBool (s = ''true'' \<or> s = ''1'')"
    then show "reads_as I profile k v T w" using intros(6) [of I s] assms by simp
  qed (use intros(1-5) assms in simp)+
qed

lemma declared_facts:
  "edgex_gotype ''Float64'' = Some ''float64''" "edgex_gotype ''Int32'' = Some ''int32''"
  "edgex_gotype ''String'' = Some ''string''" "edgex_gotype ''Bool'' = Some ''bool''"
  "convertValue I v ''Float64'' = v"
  "convertValue I v ''Int32'' = (case v of VFloat64 f \<Rightarrow> VInt32 (fval_to_sint I (f64_val f)) | _ \<Rightarrow> v)"
  "convertValue I v ''String'' = VString (sprint_v I v)"
  "convertValue I v ''Bool'' = (case v of VFloat64 f \<Rightarrow> VBool (fval_nonzero (f64_val f))
     | VString s \<Rightarrow> VBool (s = ''true'' \<or> s = ''1'') | _ \<Rightarrow> v)"
  by (simp_all add: edgex_gotype_def convertValue_def split: goval.split)

lemma reads_as_resolved:
  assumes "from_json v" and "\<And>t. declares profile k t \<Longrightarrow> edgex_gotype t \<noteq> None"
  shows "reads_as I profile k v t w \<longleftrightarrow> resolveFieldType I profile k v = (t, w) \<and> edgex_gotype t = Some (gotype w)"
proof (cases "Option.bind profile (find (resource_matches k))")
  case None
  note n = resolve_undeclared [OF None]
  show ?thesis using n assms(1) None
    by (cases v) (auto simp: reads_as.simps resolveFieldType_def edgex_gotype_def)
next
  case (Some dr)
  then have d: "declares profile k t \<longleftrightarrow> t = dr_ValueType dr" for t by (auto simp: declares_find)
  then have "edgex_gotype (dr_ValueType dr) \<noteq> None" using assms(2) by blast
  then consider "dr_ValueType dr = ''Float64''" | "dr_ValueType dr = ''Int32''" | "dr_ValueType dr = ''String''"
    | "dr_ValueType dr = ''Bool''" | "dr_ValueType dr \<in> set unreachable_types"
    by (auto simp: edgex_gotype_def unreachable_types_def split: if_splits)
  then show ?thesis
  proof cases
    case 5
    then have "\<not> reads_as I profile k v t w" by (auto simp: reads_as.simps d unreachable_types_def)
    moreover have "edgex_gotype (dr_ValueType dr) \<noteq> Some (gotype (convertValue I v (dr_ValueType dr)))"
      using unreachable_gotype [OF 5] unreachable_value [OF 5 assms(1), of I] by force
    ultimately show ?thesis using Some by (auto simp: resolveFieldType_def)
  next
    case 1
    then show ?thesis using assms(1) Some
      by (cases v) (auto simp: resolveFieldType_def reads_as_declared [OF d] declared_facts)
  next
    case 2
    then show ?thesis using assms(1) Some
      by (cases v) (auto simp: resolveFieldType_def reads_as_declared [OF d] declared_facts)
  next
    case 3
    then show ?thesis using Some by (auto simp: resolveFieldType_def reads_as_declared [OF d] declared_facts)
  next
    case 4
    then show ?thesis using assms(1) Some
      by (cases v) (auto simp: resolveFieldType_def reads_as_declared [OF d] declared_facts)
  qed
qed

lemma sdk_exact_answer:
  assumes "sdk_exact newcv" and "edgex_gotype t \<noteq> None" and "t = ''Binary'' \<Longrightarrow> gotype w \<noteq> ''[]uint8''"
  shows "(case newcv k t w of Ok cv \<Rightarrow> [cv] | _ \<Rightarrow> []) =
    (if edgex_gotype t = Some (gotype w) then [\<lparr>cv_DeviceResourceName = k, cv_Type = t, cv_Value = w\<rparr>] else [])"
proof (cases "edgex_gotype t = Some (gotype w)")
  case True
  then have "t \<noteq> ''Binary''" using assms(3) by (auto simp: edgex_gotype_def)
  then obtain cv where cv: "newcv k t w = Ok cv" using True assms(1) unfolding sdk_exact_def by blast
  then have "cv = \<lparr>cv_DeviceResourceName = k, cv_Type = t, cv_Value = w\<rparr>"
    using assms(1) unfolding sdk_exact_def sdk_typed_def by blast
  then show ?thesis using cv True by simp
next
  case False
  then have "newcv k t w \<noteq> Ok cv" for cv
    using assms(1,2) by (auto simp: sdk_exact_def sdk_typed_def)
  then show ?thesis using False by (simp split: result.split)
qed

lemma filter_concat_key:
  assumes "distinct (map fst xs)" and "(k, v) \<in> set xs"
    and "\<And>k' v' c. c \<in> set (f (k', v')) \<Longrightarrow> key c = k'"
  shows "filter (\<lambda>c. key c = k) (concat (map f xs)) = f (k, v)"
  using assms(1,2)
proof (induction xs)
  case (Cons x xs)
  obtain k1 v1 where x: "x = (k1, v1)" by (cases x)
  show ?case
  proof (cases "k1 = k")
    case True
    then have "v1 = v" "k \<notin> fst ` set xs" using Cons.prems x by (auto simp: image_iff)
    have "key c \<noteq> k" if "c \<in> set (concat (map f xs))" for c
    proof -
      from that obtain k' v' where "(k', v') \<in> set xs" "c \<in> set (f (k', v'))" by auto
      then have "key c \<in> fst ` set xs" using assms(3) [of c k' v'] by force
      then show ?thesis using \<open>k \<notin> fst ` set xs\<close> by blast
    qed
    then have "filter (\<lambda>c. key c = k) (concat (map f xs)) = []" unfolding filter_empty_conv by blast
    moreover have "filter (\<lambda>c. key c = k) (f (k, v)) = f (k, v)" using assms(3) by (simp add: filter_id_conv)
    ultimately show ?thesis using x True \<open>v1 = v\<close> by simp
  next
    case False
    then have "filter (\<lambda>c. key c = k) (f (k1, v1)) = []" using assms(3) by (auto simp: filter_empty_conv)
    then show ?thesis using Cons x False by simp
  qed
qed simp

text \<open>
  C18: the readings made of a payload, for a payload with distinct fields, an SDK that accepts exactly the
  values of a type's Go type, and a profile that declares scalar types or binaries: every reading bears the
  name of a field, and a field gives exactly the one reading that its declaration, or its JSON value
  where nothing declares it, calls for (\<open>reads_as\<close>), or none where there is no such reading (a text
  declared \<open>Int32\<close>, any value declared \<open>Uint16\<close>).
\<close>

theorem ingest_values_typed:
  assumes "sdk_exact newcv" and "distinct (map fst data)" and "(k, v) \<in> set data" and "from_json v"
    and "\<forall>t. declares profile k t \<longrightarrow> edgex_gotype t \<noteq> None"
  shows "\<exists>cvs. buildCommandValues I newcv profile data = Ok cvs \<and> cv_DeviceResourceName ` set cvs \<subseteq> fst ` set data \<and>
    (\<forall>t w. reads_as I profile k v t w \<longrightarrow> filter (\<lambda>cv. cv_DeviceResourceName cv = k) cvs =
       [\<lparr>cv_DeviceResourceName = k, cv_Type = t, cv_Value = w\<rparr>]) \<and>
    ((\<nexists>t w. reads_as I profile k v t w) \<longrightarrow> filter (\<lambda>cv. cv_DeviceResourceName cv = k) cvs = [])"
proof -
  let ?f = "\<lambda>(k, v). case newcv k (fst (resolveFieldType I profile k v)) (snd (resolveFieldType I profile k v)) of
      Ok cv \<Rightarrow> [cv] | _ \<Rightarrow> []"
  let ?cvs = "concat (map ?f data)"
  have typed: "sdk_typed newcv" and np: "\<And>n t v m. newcv n t v \<noteq> Panic m"
    using assms(1) by (simp_all add: sdk_exact_def)
  have names: "cv_DeviceResourceName c = k'" if "c \<in> set (?f (k', v'))" for c k' v'
    using that sdk_typedD(1) [OF typed] by (auto split: result.splits)
  obtain t w where r: "resolveFieldType I profile k v = (t, w)" by fastforce
  have "edgex_gotype t \<noteq> None"
  proof (cases "Option.bind profile (find (resource_matches k))")
    case None
    then have "t \<in> {''Float64'', ''String'', ''Bool''}" using r by (auto simp: resolveFieldType_def split: goval.splits)
    then show ?thesis by (auto simp: edgex_gotype_def)
  next
    case (Some dr)
    then have "declares profile k t" using r by (simp add: declares_find resolveFieldType_def)
    then show ?thesis using assms(5) by blast
  qed
  moreover have "gotype w \<noteq> ''[]uint8''" if "t = ''Binary''"
    using r assms(4) that by (cases v) (auto simp: resolveFieldType_def convertValue_def split: option.splits)
  ultimately have f: "?f (k, v) = (if edgex_gotype t = Some (gotype w)
      then [\<lparr>cv_DeviceResourceName = k, cv_Type = t, cv_Value = w\<rparr>] else [])"
    using sdk_exact_answer [OF assms(1), of t w k] r by simp
  have "filter (\<lambda>cv. cv_DeviceResourceName cv = k) ?cvs = ?f (k, v)"
    by (rule filter_concat_key [OF assms(2,3) names])
  moreover have "reads_as I profile k v t' w' \<longleftrightarrow> (t', w') = (t, w) \<and> edgex_gotype t = Some (gotype w)" for t' w'
    using reads_as_resolved [OF assms(4), of profile k I t' w'] assms(5) r by auto
  moreover have "cv_DeviceResourceName ` set ?cvs \<subseteq> fst ` set data" using names by force
  moreover have "buildCommandValues I newcv profile data = Ok ?cvs" by (rule buildCommandValues_filter [OF np])
  ultimately show ?thesis using f by (intro exI [of _ ?cvs]) simp
qed

definition demo_profile :: device_profile where
  "demo_profile = [\<lparr>dr_Name = ''status'', dr_ValueType = ''Bool'', dr_Attributes = Map.empty\<rparr>,
     \<lparr>dr_Name = ''uptime'', dr_ValueType = ''Uint64'', dr_Attributes = Map.empty\<rparr>]"

lemma typed_newcv_exact: "sdk_exact typed_newcv"
  using typed_newcv_typed by (auto simp: sdk_exact_def typed_newcv_def)

theorem ingest_values_typed_witness:
  "\<forall>I. \<exists>cvs. buildCommandValues I typed_newcv (Some demo_profile) [(''status'', VString ''1''), (''note'', VNil)] = Ok cvs \<and>
     filter (\<lambda>cv. cv_DeviceResourceName cv = ''status'') cvs =
       [\<lparr>cv_DeviceResourceName = ''status'', cv_Type = ''Bool'', cv_Value = VBool True\<rparr>]"
proof
  fix I
  let ?data = "[(''status'', VString ''1''), (''note'', VNil)]"
  have d: "declares (Some demo_profile) ''status'' t \<longleftrightarrow> t = ''Bool''" for t
    by (auto simp: declares_find demo_profile_def resource_matches_def)
  then have "reads_as I (Some demo_profile) ''status'' (VString ''1'') ''Bool'' (VBool (''1'' \<in> {''true'', ''1''}))"
    by (intro reads_as.bool_text) simp
  then have "reads_as I (Some demo_profile) ''status'' (VString ''1'') ''Bool'' (VBool True)" by simp
  moreover have "\<forall>t. declares (Some demo_profile) ''status'' t \<longrightarrow> edgex_gotype t \<noteq> None"
    by (simp add: d edgex_gotype_def)
  ultimately show "\<exists>cvs. buildCommandValues I typed_newcv (Some demo_profile) ?data = Ok cvs \<and>
     filter (\<lambda>cv. cv_DeviceResourceName cv = ''status'') cvs =
       [\<lparr>cv_DeviceResourceName = ''status'', cv_Type = ''Bool'', cv_Value = VBool True\<rparr>]"
    using ingest_values_typed [OF typed_newcv_exact, of ?data "''status''" "VString ''1''" "Some demo_profile" I] by simp blast
qed

text \<open>
  C32: a number whose resource has one of the integer types other than \<open>Int32\<close>, or \<open>Float32\<close>, never becomes
  a reading: the driver converts it to an \<open>int32\<close> (or leaves it a \<open>float64\<close>), which the SDK refuses.
\<close>

theorem ingest_numbers_refused:
  assumes "sdk_typed newcv" and "buildCommandValues I newcv (Some profile) data = Ok cvs"
    and "distinct (map fst data)" and "(key, VFloat64 f) \<in> set data"
    and "find (resource_matches key) profile = Some dr" and "dr_ValueType dr \<in> set unreachable_types"
  shows "key \<notin> cv_DeviceResourceName ` set cvs"
proof
  assume "key \<in> cv_DeviceResourceName ` set cvs"
  then obtain cv where cv: "cv \<in> set cvs" "cv_DeviceResourceName cv = key" by auto
  obtain k v t w where m: "(k, v) \<in> set data" "resolveFieldType I (Some profile) k v = (t, w)" "newcv k t w = Ok cv"
    using buildCommandValues_member [OF assms(2) cv(1)] by blast
  have "k = key" using sdk_typedD(1) [OF assms(1) m(3)] cv(2) by simp
  then have "v = VFloat64 f" using m(1) assms(3,4) by (meson eq_key_imp_eq_value)
  then have "t = dr_ValueType dr" "w = convertValue I (VFloat64 f) t" using m(2) assms(5) \<open>k = key\<close>
    by (auto simp: resolveFieldType_def)
  moreover have "\<forall>T. edgex_gotype t = Some T \<longrightarrow> gotype w = T" using sdk_typedD(4) [OF assms(1) m(3)] by blast
  ultimately show False using assms(6)
    by (auto simp: unreachable_types_def edgex_gotype_def convertValue_def)
qed

theorem ingest_numbers_refused_witness:
  "\<forall>I. buildCommandValues I typed_newcv (Some demo_profile) [(''uptime'', VFloat64 0)] = Ok [] \<and>
     ''uptime'' \<notin> cv_DeviceResourceName ` {}"
proof
  fix I
  have b: "buildCommandValues I typed_newcv (Some demo_profile) [(''uptime'', VFloat64 0)] = Ok []"
    by (simp add: resolveFieldType_def demo_profile_def resource_matches_def convertValue_def typed_newcv_def edgex_gotype_def)
  have "find (resource_matches ''uptime'') demo_profile =
      Some \<lparr>dr_Name = ''uptime'', dr_ValueType = ''Uint64'', dr_Attributes = Map.empty\<rparr>"
    by (simp add: demo_profile_def resource_matches_def)
  from ingest_numbers_refused [OF typed_newcv_typed b _ _ this] b
  show "buildCommandValues I typed_newcv (Some demo_profile) [(''uptime'', VFloat64 0)] = Ok [] \<and>
     ''uptime'' \<notin> cv_DeviceResourceName ` {}" by (simp add: unreachable_types_def)
qed

section \<open>The order of the fields\<close>

lemma mset_concat_map: "mset xs = mset ys \<Longrightarrow> mset (concat (map f xs)) = mset (concat (map f ys))"
  by (simp add: mset_concat mset_map flip: sum_mset_sum_list)

text \<open>Results that differ at most in the order of the readings and in the source name.\<close>

fun same_readings :: "async_values result \<Rightarrow> async_values result \<Rightarrow> bool" where
  "same_readings (Ok a) (Ok b) = (av_DeviceName a = av_DeviceName b \<and> mset (av_CommandValues a) = mset (av_CommandValues b))"
| "same_readings (Err e) (Err e') = (e = e')"
| "same_readings _ _ = False"

lemma build_reordered:
  assumes "sdk_returns K" and "visits_all ord" and "visits_all ord'"
  obtains cvs cvs' where "buildCommandValues I (sk_NewCommandValue K) profile (ord data) = Ok cvs"
    "buildCommandValues I (sk_NewCommandValue K) profile (ord' data) = Ok cvs'" "mset cvs = mset cvs'"
proof -
  have "mset (ord data) = mset (ord' data)" using assms(2,3) by (simp add: visits_all_def)
  note m = mset_concat_map [OF this]
  show thesis
    by (rule that, rule buildCommandValues_filter, use assms(1) in \<open>simp add: sdk_returns_def\<close>,
        rule buildCommandValues_filter, use assms(1) in \<open>simp add: sdk_returns_def\<close>, rule m)
qed

text \<open>
  C19: the readings made of an event, the device they belong to and the device announced do not depend on
  the iteration order of Go's maps.
\<close>

theorem ingest_order_independent:
  assumes "sdk_returns K" and "visits_all ordB" and "visits_all ordB'"
    and "decodeReceiveEvent I K ordB ordS e dch = (d, r)" and "decodeReceiveEvent I K ordB' ordS' e dch = (d', r')"
  shows "d = d' \<and> same_readings r r'"
proof -
  have readings: "same_readings
      (rbind (buildCommandValues I (sk_NewCommandValue K) profile (ordB data)) (\<lambda>cvs. if cvs = [] then Err x
         else Ok \<lparr>av_DeviceName = n, av_SourceName = a, av_CommandValues = cvs\<rparr>))
      (rbind (buildCommandValues I (sk_NewCommandValue K) profile (ordB' data)) (\<lambda>cvs. if cvs = [] then Err x
         else Ok \<lparr>av_DeviceName = n, av_SourceName = b, av_CommandValues = cvs\<rparr>))" for profile data x n a b
  proof (rule build_reordered [OF assms(1-3), of I profile data])
    fix cvs cvs'
    assume "buildCommandValues I (sk_NewCommandValue K) profile (ordB data) = Ok cvs"
      "buildCommandValues I (sk_NewCommandValue K) profile (ordB' data) = Ok cvs'" "mset cvs = mset cvs'"
    then show ?thesis by (cases "cvs = []") auto
  qed
  have np: "wrap_err f xs (unmarshal_envelope name bs) \<noteq> Panic m" for f xs name bs m
    by (auto simp: wrap_err_Panic_iff unmarshal_envelope_def split: option.splits json.splits)
  consider "ev_Source e = ''mqtt''" | "ev_Source e = ''snmp''" | "ev_Source e \<noteq> ''mqtt''" "ev_Source e \<noteq> ''snmp''" by blast
  then show ?thesis
  proof cases
    case 1
    then show ?thesis using assms(4,5) readings np
      by (auto simp: decodeReceiveEvent_def decodeMqttPayload_def Let_def split: result.splits if_splits prod.splits)
  next
    case 2
    then show ?thesis using assms(4,5) readings np
      by (auto simp: decodeReceiveEvent_def decodeSnmpTrapPayload_def Let_def split: result.splits if_splits prod.splits)
  next
    case 3
    then show ?thesis using assms(4,5) by (auto simp: decodeReceiveEvent_def)
  qed
qed

end
