(* ===== verification/Traps.thy ===== *)
theory Traps
  imports Ingest
begin

text \<open>
  A trap's way through JSON: what \<open>onTrap\<close> of the SNMP listener puts into an event is what
  \<open>decodeSnmpTrapPayload\<close> of the driver takes out of it, each variable's value as JSON can carry it.
\<close>

section \<open>Values that JSON carries\<close>

fun plain_json :: "goval \<Rightarrow> json option" where
  "plain_json VNil = Some JNull"
| "plain_json (VBool b) = Some (JBool b)"
| "plain_json (VString s) = (if ascii s then Some (JStr s) else None)"
| "plain_json (VFloat32 f) = None"
| "plain_json (VFloat64 f) = None"
| "plain_json v = map_option (\<lambda>i. JNum (show_int i)) (goint v)"

lemma show_nat_unat: "show_nat (unat w) = show_int (uint (w :: 'a::len word))"
  by (simp add: show_int_def nat_uint_eq)

lemma plain_marshal: "plain_json v = Some j \<Longrightarrow> \<exists>t. marshal I v = Ok t \<and> reads t j"
proof -
  assume j: "plain_json v = Some j"
  consider (int) i where "goint v = Some i" | (other) "goint v = None" by (cases "goint v") auto
  then show ?thesis
  proof cases
    case int
    then have "j = JNum (show_int i)" using j by (cases v) simp_all
    moreover have "marshal I v = Ok (show_int i)" using int by (cases v) (simp_all add: show_nat_unat)
    ultimately show ?thesis using reads_int by blast
  next
    case other
    then show ?thesis using j
      by (cases v) (auto simp: reads_literals reads_quote show_bool_def split: if_splits)
  qed
qed

text \<open>A value after \<open>json.Marshal\<close> and \<open>json.Unmarshal\<close>: an integer is a float.\<close>

definition json_image :: "goval \<Rightarrow> goval" where
  "json_image v = (case goint v of Some i \<Rightarrow> VFloat64 (f64_of_int i) | None \<Rightarrow> v)"

lemma sint_bound64: "LENGTH('a) \<le> 64 \<Longrightarrow> \<bar>sint (w :: 'a::len word)\<bar> < 2 ^ 64"
proof -
  assume "LENGTH('a) \<le> 64"
  then have "(2 :: int) ^ (LENGTH('a) - 1) \<le> 2 ^ 63" by (intro power_increasing) auto
  moreover have "- (2 ^ (LENGTH('a) - 1)) \<le> sint w" "sint w < 2 ^ (LENGTH('a) - 1)"
    using sint_greater_eq [of w] sint_less [of w] by simp_all
  ultimately show ?thesis by simp
qed

lemma uint_bound64: "LENGTH('a) \<le> 64 \<Longrightarrow> \<bar>uint (w :: 'a::len word)\<bar> < 2 ^ 64"
proof -
  assume "LENGTH('a) \<le> 64"
  then have "(2 :: int) ^ LENGTH('a) \<le> 2 ^ 64" by (intro power_increasing) auto
  moreover have "uint w < 2 ^ LENGTH('a)" "0 \<le> uint w" by simp_all
  ultimately show ?thesis by linarith
qed

lemma goint_bound: "goint v = Some i \<Longrightarrow> \<bar>i\<bar> < 2 ^ 64"
  by (cases v) (use sint_bound64 uint_bound64 in \<open>force+\<close>)

lemma plain_any: "plain_json v = Some j \<Longrightarrow> json_any j = Some (json_image v)"
proof (cases "goint v")
  case (Some i)
  moreover assume "plain_json v = Some j"
  ultimately have "j = JNum (show_int i)" by (cases v) simp_all
  then show ?thesis using Some parse_float_show_int [OF goint_bound [OF Some]] by (simp add: json_image_def)
next
  case None
  moreover assume "plain_json v = Some j"
  ultimately show ?thesis by (cases v) (auto simp: json_image_def split: if_splits)
qed

section \<open>Objects\<close>

lemma insort_key_map:
  "insort_key fst (k, g v) (map (\<lambda>(k, v). (k, g v)) xs) = map (\<lambda>(k, v). (k, g v)) (insort_key fst (k, v) xs)"
  by (induction xs) auto

lemma sort_key_map: "sort_key fst (map (\<lambda>(k, v). (k, g v)) xs) = map (\<lambda>(k, v). (k, g v)) (sort_key fst xs)"
  by (induction xs) (auto simp: insort_key_map)

lemma traverse_map: "traverse f (map g xs) = traverse (\<lambda>x. f (g x)) xs"
  by (induction xs) simp_all

lemma marshal_VMap: "marshal I (VMap kvs) = marshal_struct I (sort_key fst kvs)"
  by (simp only: marshal.simps marshal_struct_def sort_key_map traverse_map) (simp add: case_prod_unfold)

definition carries :: "go_impl \<Rightarrow> string \<times> goval \<Rightarrow> string \<times> json \<Rightarrow> bool" where
  "carries I kv kj \<longleftrightarrow> fst kv = fst kj \<and> ascii (fst kv) \<and> (\<exists>t. marshal I (snd kv) = Ok t \<and> reads t (snd kj))"

lemma struct_reads:
  assumes "list_all2 (carries I) members kjs"
  shows "\<exists>t. marshal_struct I members = Ok t \<and> reads t (JObj kjs)"
proof -
  have "\<exists>kts. list_all2 member_reads kts kjs \<and>
      traverse (\<lambda>(k, v). rmap (\<lambda>t. json_quote k @ CHR '':'' # t) (marshal I v)) members = Ok (map member_text kts)"
    using assms
  proof (induction rule: list_all2_induct)
    case Nil
    then show ?case by (intro exI [of _ "[]"]) simp
  next
    case (Cons kv members kj kjs)
    obtain k v t where kv: "kv = (k, v)" "marshal I v = Ok t" "member_reads (k, t) kj"
      using Cons.hyps(1) by (cases kv) (auto simp: carries_def member_reads_def)
    obtain kts where "list_all2 member_reads kts kjs"
      "traverse (\<lambda>(k, v). rmap (\<lambda>t. json_quote k @ CHR '':'' # t) (marshal I v)) members = Ok (map member_text kts)"
      using Cons.IH by blast
    then show ?case using kv by (intro exI [of _ "(k, t) # kts"]) (simp add: member_text_def)
  qed
  then obtain kts where "list_all2 member_reads kts kjs" "marshal_struct I members = Ok (object_text kts)"
    by (auto simp: marshal_struct_def object_text_def)
  then show ?thesis using reads_object by blast
qed

definition plain_entries :: "(string \<times> goval) list \<Rightarrow> bool" where
  "plain_entries kvs \<longleftrightarrow> distinct (map fst kvs) \<and> (\<forall>(k, v) \<in> set kvs. ascii k \<and> plain_json v \<noteq> None)"

definition entry_json :: "string \<times> goval \<Rightarrow> string \<times> json" where
  "entry_json kv = (fst kv, the (plain_json (snd kv)))"

lemma carries_map:
  assumes "plain_entries kvs"
  shows "\<exists>t. marshal I (VMap kvs) = Ok t \<and> reads t (JObj (map entry_json (sort_key fst kvs)))"
proof -
  have "carries I kv (entry_json kv)" if "kv \<in> set kvs" for kv
    using assms that plain_marshal by (cases kv) (fastforce simp: plain_entries_def carries_def entry_json_def)
  then have "list_all2 (carries I) (sort_key fst kvs) (map entry_json (sort_key fst kvs))"
    by (simp add: list_all2_conv_all_nth) (metis nth_mem set_sort length_sort)
  then show ?thesis using struct_reads marshal_VMap by simp
qed

text \<open>Reading the members back into a map.\<close>

lemma put_entry_new: "k \<notin> fst ` set kvs \<Longrightarrow> put_entry kvs k v = kvs @ [(k, v)]"
  by (auto simp: put_entry_def filter_id_conv image_iff)

lemma into_map_entries:
  assumes "\<And>kv. kv \<in> set kvs \<Longrightarrow> plain_json (snd kv) \<noteq> None" and "distinct (map fst kvs)"
    and "fst ` set acc \<inter> fst ` set kvs = {}"
  shows "into_map (JObj (map entry_json kvs)) acc = Some (acc @ map (\<lambda>(k, v). (k, json_image v)) kvs)"
  using assms
proof (induction kvs arbitrary: acc)
  case Nil
  then show ?case by simp
next
  case (Cons kv kvs)
  obtain k v where kv: "kv = (k, v)" by fastforce
  obtain j where j: "plain_json v = Some j" "json_any j = Some (json_image v)"
    using Cons.prems(1) [of kv] plain_any kv by auto
  have put: "put_entry acc k (json_image v) = acc @ [(k, json_image v)]"
    by (rule put_entry_new) (use Cons.prems(3) kv in auto)
  have "into_map (JObj (map entry_json kvs)) (acc @ [(k, json_image v)]) =
      Some ((acc @ [(k, json_image v)]) @ map (\<lambda>(k, v). (k, json_image v)) kvs)"
    by (rule Cons.IH) (use Cons.prems kv in auto)
  then show ?case using j put by (simp add: kv) (simp add: entry_json_def)
qed

section \<open>The trap's data\<close>

lemma trap_data_snoc: "trap_data (vars @ [pdu]) = put_entry (trap_data vars) (trap_key (tv_Name pdu)) (convertSnmpValue (tv_Value pdu))"
  by (simp add: trap_data_def)

text \<open>Later variables overwrite earlier ones with the same object identifier.\<close>

definition trap_entry :: "trap_pdu \<Rightarrow> string \<times> goval" where
  "trap_entry pdu = (trap_key (tv_Name pdu), convertSnmpValue (tv_Value pdu))"

lemma map_of_put_entry: "map_of (put_entry kvs k v) = (map_of kvs)(k \<mapsto> v)"
proof -
  have "map_of (filter (\<lambda>e. fst e \<noteq> k) kvs) = (map_of kvs)(k := None)"
    by (induction kvs) (auto simp: fun_eq_iff)
  then show ?thesis by (auto simp: put_entry_def map_add_def fun_eq_iff split: option.splits)
qed

lemma map_of_trap_data: "map_of (trap_data vars) = map_of (rev (map trap_entry vars))"
  by (induction vars rule: rev_induct) (simp_all add: trap_data_snoc trap_entry_def map_of_put_entry trap_data_def [of "[]"])

lemma distinct_put_entry: "distinct (map fst kvs) \<Longrightarrow> distinct (map fst (put_entry kvs k v))"
  by (auto simp: put_entry_def distinct_map_filter)

lemma distinct_trap_data: "distinct (map fst (trap_data vars))"
  by (induction vars rule: rev_induct) (simp_all add: trap_data_snoc distinct_put_entry trap_data_def [of "[]"])

lemma trap_data_entries: "set (trap_data vars) \<subseteq> trap_entry ` set vars"
  by (induction vars rule: rev_induct) (auto simp: trap_data_snoc trap_entry_def put_entry_def trap_data_def [of "[]"])

lemma ascii_trap_key: "ascii name \<Longrightarrow> ascii (trap_key name)"
  by (cases name) (auto simp: ascii_def trap_key_def replace_all_def list_all_iff byte_def)

text \<open>A variable with an ASCII name whose value is nil, a boolean, an ASCII text or an integer.\<close>

definition plain_variable :: "trap_pdu \<Rightarrow> bool" where
  "plain_variable pdu \<longleftrightarrow> ascii (tv_Name pdu) \<and> plain_json (convertSnmpValue (tv_Value pdu)) \<noteq> None"

lemma plain_trap_data: "list_all plain_variable vars \<Longrightarrow> plain_entries (trap_data vars)"
  using trap_data_entries [of vars] distinct_trap_data [of vars]
  by (fastforce simp: plain_entries_def plain_variable_def list_all_iff trap_entry_def ascii_trap_key)

definition envelope_json :: "string \<Rightarrow> trap_packet \<Rightarrow> (string \<times> json) list" where
  "envelope_json source packet =
     [(''source_addr'', JStr source), (''enterprise'', JStr (tp_Enterprise packet)),
      (''generic'', JNum (show_int (sint (tp_GenericTrap packet)))),
      (''specific'', JNum (show_int (sint (tp_SpecificTrap packet)))),
      (''timestamp'', JNum (show_int (uint (tp_Timestamp packet)))),
      (''data'', JObj (map entry_json (sort_key fst (trap_data (tp_Variables packet)))))]"

lemma envelope_fields:
  "struct_field ''source_addr'' into_string (envelope_json source packet) [] = Some source"
  "struct_field ''data'' into_map (envelope_json source packet) [] =
     into_map (JObj (map entry_json (sort_key fst (trap_data (tp_Variables packet))))) []"
  by (simp_all add: struct_field_def envelope_json_def field_is_def lower_def byte_def)

lemma envelope_carried:
  assumes "ascii source" and "ascii (tp_Enterprise packet)" and "plain_entries (trap_data (tp_Variables packet))"
  shows "list_all2 (carries I) (trapPayload source packet) (envelope_json source packet)"
  using assms carries_map [OF assms(3), of I]
  by (simp add: trapPayload_def envelope_json_def carries_def reads_quote reads_int show_nat_unat ascii_def byte_def
      del: marshal.simps(22))

text \<open>
  C8: a trap whose texts (source, enterprise, identifiers, octet strings) are ASCII and whose variables are
  nil, booleans, texts and integers of any width reaches the driver as it was received: the event the
  listener makes of it is decoded to the same source address and to one entry per object identifier,
  with the value of the last variable that has it, every integer \<open>i\<close> as \<open>float64(i)\<close>: itself below
  \<open>2^53\<close>, the nearest float from there on. (Not covered: floats, whose JSON digits are the
  implementation's, and octet strings that are not ASCII, where \<open>encoding/json\<close> replaces what is not
  UTF-8.)
\<close>

theorem trap_roundtrip:
  assumes "ascii source" and "ascii (tp_Enterprise packet)" and "list_all plain_variable (tp_Variables packet)"
  shows "\<exists>bytes data. trap_event I (now, source, packet) = Some (snmp_event now bytes) \<and>
    unmarshal_envelope ''source_addr'' bytes = Ok (source, data) \<and> distinct (map fst data) \<and>
    map_of data = map_option json_image \<circ> map_of (rev (map trap_entry (tp_Variables packet)))"
proof -
  let ?kvs = "trap_data (tp_Variables packet)" and ?img = "\<lambda>(k, v). (k, json_image v)"
  have plain: "plain_entries ?kvs" by (rule plain_trap_data [OF assms(3)])
  obtain bytes where bytes: "marshal_struct I (trapPayload source packet) = Ok bytes"
    "reads bytes (JObj (envelope_json source packet))"
    using struct_reads [OF envelope_carried [OF assms(1,2) plain]] by blast
  have fields: "into_map (JObj (map entry_json (sort_key fst ?kvs))) [] = Some (map ?img (sort_key fst ?kvs))"
    using into_map_entries [of "sort_key fst ?kvs" "[]"] plain
    by (fastforce simp: plain_entries_def distinct_map)
  have dist: "distinct (map fst (sort_key fst ?kvs))" using plain
    by (simp add: plain_entries_def distinct_map)
  have "map_of (sort_key fst ?kvs) = map_of ?kvs"
    by (rule map_of_reorder) (use dist plain in \<open>auto simp: map_entries_def plain_entries_def\<close>)
  then have "map_of (map ?img (sort_key fst ?kvs)) = map_option json_image \<circ> map_of (rev (map trap_entry (tp_Variables packet)))"
    by (simp add: map_of_map map_of_trap_data)
  moreover have "unmarshal_envelope ''source_addr'' bytes = Ok (source, map ?img (sort_key fst ?kvs))"
    using reads_parse [OF bytes(2)] by (simp add: unmarshal_envelope_def envelope_fields fields del: into_map.simps)
  moreover have "distinct (map fst (map ?img (sort_key fst ?kvs)))"
    using dist by (simp add: case_prod_unfold comp_def)
  ultimately show ?thesis using bytes(1) by (auto simp: trap_event_def)
qed

definition demo_trap :: trap_packet where
  "demo_trap = \<lparr>tp_Enterprise = ''.1.3'', tp_GenericTrap = 6, tp_SpecificTrap = 1, tp_Timestamp = 42,
     tp_Variables = [\<lparr>tv_Name = ''.1.3.6'', tv_Value = VInt 21\<rparr>, \<lparr>tv_Name = ''.1.3.7'', tv_Value = VBytes ''ok''\<rparr>]\<rparr>"

theorem trap_roundtrip_witness:
  "\<forall>I. \<exists>bytes data. trap_event I (0, ''10.0.0.1:4242'', demo_trap) = Some (snmp_event 0 bytes) \<and>
     unmarshal_envelope ''source_addr'' bytes = Ok (''10.0.0.1:4242'', data) \<and>
     map_of data ''1-3-6'' = Some (VFloat64 (f64_of_int 21)) \<and> map_of data ''1-3-7'' = Some (VString ''ok'')"
proof
  fix I
  have "list_all plain_variable (tp_Variables demo_trap)"
    by (simp add: demo_trap_def plain_variable_def ascii_def byte_def)
  moreover have "ascii ''10.0.0.1:4242''" "ascii (tp_Enterprise demo_trap)"
    by (simp_all add: ascii_def byte_def demo_trap_def)
  ultimately obtain bytes data where t: "trap_event I (0, ''10.0.0.1:4242'', demo_trap) = Some (snmp_event 0 bytes)"
    "unmarshal_envelope ''source_addr'' bytes = Ok (''10.0.0.1:4242'', data)"
    "map_of data = map_option json_image \<circ> map_of (rev (map trap_entry (tp_Variables demo_trap)))"
    using trap_roundtrip [of "''10.0.0.1:4242''" demo_trap I 0] by blast
  then show "\<exists>bytes data. trap_event I (0, ''10.0.0.1:4242'', demo_trap) = Some (snmp_event 0 bytes) \<and>
     unmarshal_envelope ''source_addr'' bytes = Ok (''10.0.0.1:4242'', data) \<and>
     map_of data ''1-3-6'' = Some (VFloat64 (f64_of_int 21)) \<and> map_of data ''1-3-7'' = Some (VString ''ok'')"
    by (intro exI [of _ bytes] exI [of _ data])
      (simp add: t demo_trap_def trap_entry_def trap_key_def replace_all_def json_image_def)
qed

end
