(* ===== verification/Receivers.thy ===== *)
theory Receivers
  imports Listeners
begin

text \<open>
  \<open>pkg/protocol/listener.go\<close>: the set of listeners. A listener is registered with the caller's channel
  in place of its own, \<open>StartAll\<close> spawns one goroutine per listener, and \<open>StopAll\<close> stops every one
  and collects the errors. The servers' stop calls act on an abstract world.
\<close>

datatype listener = LHttp http_receiver | LMqtt mqtt_receiver | LSnmp snmp_receiver

fun listener_chan :: "listener \<Rightarrow> nat" where
  "listener_chan (LHttp r) = hr_AsyncData r"
| "listener_chan (LMqtt r) = mr_AsyncData r"
| "listener_chan (LSnmp r) = sr_AsyncData r"

fun listener_source :: "listener \<Rightarrow> string" where \<comment> \<open>the \<open>Source\<close> of its events\<close>
  "listener_source (LHttp r) = ''http''"
| "listener_source (LMqtt r) = ''mqtt''"
| "listener_source (LSnmp r) = ''snmp''"

record receivers =
  rs_timeout :: "64 word"
  rs_maxSize :: int
  rs_Servers :: "listener list"
  rs_MergedAsyncData :: nat

text \<open>\<open>make(chan T, n)\<close> panics for a negative size.\<close>

definition NewReceivers :: "64 word \<Rightarrow> int \<Rightarrow> chans \<Rightarrow> chans \<times> receivers result" where
  "NewReceivers timeout maxSize chs =
     (if maxSize < 0 then (chs, Panic ''makechan: size out of range'')
      else case new_chan (nat maxSize) chs of (ch, chs') \<Rightarrow>
        (chs', Ok \<lparr>rs_timeout = timeout, rs_maxSize = maxSize, rs_Servers = [], rs_MergedAsyncData = ch\<rparr>))"

definition add_server :: "listener \<Rightarrow> receivers \<Rightarrow> receivers" where
  "add_server l rc = rc\<lparr>rs_Servers := rs_Servers rc @ [l]\<rparr>"

definition RegisterHttpServer ::
  "(string \<Rightarrow> bool) \<Rightarrow> receivers \<Rightarrow> string \<Rightarrow> 16 word \<Rightarrow> string \<Rightarrow> nat \<Rightarrow> chans \<Rightarrow> chans \<times> receivers result" where
  "RegisterHttpServer valid_pattern rc host port urlHandle ch chs =
     (case NewHttpReceiver valid_pattern host port urlHandle chs of (chs', r) \<Rightarrow>
       (chs', rmap (\<lambda>server. add_server (LHttp (server\<lparr>hr_AsyncData := ch\<rparr>)) rc) r))"

definition RegisterMqttServer :: "receivers \<Rightarrow> string \<Rightarrow> 16 word \<Rightarrow> nat \<Rightarrow> chans \<Rightarrow> chans \<times> receivers" where
  "RegisterMqttServer rc host port ch chs =
     (case NewMqttReceiver host port chs of (chs', server) \<Rightarrow>
       (chs', add_server (LMqtt (server\<lparr>mr_AsyncData := ch\<rparr>)) rc))"

definition RegisterSnmpTrapServer ::
  "receivers \<Rightarrow> string \<Rightarrow> 16 word \<Rightarrow> string \<Rightarrow> nat \<Rightarrow> chans \<Rightarrow> chans \<times> receivers" where
  "RegisterSnmpTrapServer rc host port community ch chs =
     (case NewSnmpReceiver host port community chs of (chs', server) \<Rightarrow>
       (chs', add_server (LSnmp (server\<lparr>sr_AsyncData := ch\<rparr>)) rc))"

text \<open>The goroutines \<open>StartAll\<close> spawns, each to run \<open>Start\<close> of the listener with this index.\<close>

definition StartAll :: "receivers \<Rightarrow> nat list \<times> unit result" where
  "StartAll rc = ([0..<length (rs_Servers rc)], Ok ())"

record 'w stop_api =
  sp_shutdown :: "http_receiver \<Rightarrow> 'w \<Rightarrow> 'w \<times> unit answer"
  sp_mqtt :: "'w mqtt_api"
  sp_trap :: "'w trap_api"

fun listener_Stop :: "'w stop_api \<Rightarrow> listener \<Rightarrow> 'w \<Rightarrow> (listener \<times> 'w) \<times> unit result" where
  "listener_Stop P (LHttp r) w = (case sp_shutdown P r w of (w', a) \<Rightarrow> ((LHttp r, w'), http_Stop a))"
| "listener_Stop P (LMqtt r) w = (case mqtt_Stop (sp_mqtt P) (r, w) of ((r', w'), x) \<Rightarrow> ((LMqtt r', w'), x))"
| "listener_Stop P (LSnmp r) w = (case snmp_Stop (sp_trap P) (r, w) of ((r', w'), x) \<Rightarrow> ((LSnmp r', w'), x))"

text \<open>The loop of \<open>StopAll\<close>: it stops every listener, whatever the earlier ones answered.\<close>

fun stop_loop :: "'w stop_api \<Rightarrow> listener list \<Rightarrow> 'w \<Rightarrow> (listener list \<times> 'w) \<times> error list result" where
  "stop_loop P [] w = (([], w), Ok [])"
| "stop_loop P (l # ls) w = (case listener_Stop P l w of
       ((l', w1), Panic m) \<Rightarrow> ((l' # ls, w1), Panic m)
     | ((l', w1), x) \<Rightarrow> (case stop_loop P ls w1 of ((ls', w2), es) \<Rightarrow>
         ((l' # ls', w2), rmap (\<lambda>es. (case x of Err e \<Rightarrow> e # es | _ \<Rightarrow> es)) es)))"

definition StopAll :: "'w stop_api \<Rightarrow> receivers option \<Rightarrow> 'w \<Rightarrow> (receivers option \<times> 'w) \<times> unit result" where
  "StopAll P rc w = (case rc of
       None \<Rightarrow> ((None, w), Ok ())
     | Some rc \<Rightarrow> (case stop_loop P (rs_Servers rc) w of ((ls, w'), r) \<Rightarrow>
         ((Some (rc\<lparr>rs_Servers := ls\<rparr>), w'),
          rbind r (\<lambda>errs. if errs = [] then Ok () else Err (Joinedf ''stop errors occurred: %v'' errs)))))"

section \<open>Registration\<close>

text \<open>Registering adds one listener on the caller's channel, and one unused channel to the table.\<close>

lemma new_chan_simp [simp]: "new_chan n chs = (length chs, chs @ [make_chan n])"
  by (simp add: new_chan_def)

definition registers :: "nat \<Rightarrow> string \<Rightarrow> receivers \<Rightarrow> chans \<Rightarrow> receivers \<Rightarrow> chans \<Rightarrow> bool" where
  "registers ch src rc chs rc' chs' \<longleftrightarrow> chs' = chs @ [make_chan maxDataChannelSize] \<and>
     (\<exists>l. rs_Servers rc' = rs_Servers rc @ [l] \<and> listener_chan l = ch \<and> listener_source l = src)"

lemma register_http:
  "RegisterHttpServer vp rc h p u ch chs = (chs', Ok rc') \<Longrightarrow> registers ch ''http'' rc chs rc' chs'"
  by (auto simp: RegisterHttpServer_def NewHttpReceiver_def registerRoutes_def registers_def add_server_def
      split: if_splits)

lemma register_mqtt:
  "RegisterMqttServer rc h p ch chs = (chs', rc') \<Longrightarrow> registers ch ''mqtt'' rc chs rc' chs'"
  by (auto simp: RegisterMqttServer_def NewMqttReceiver_def registers_def add_server_def Let_def)

lemma register_snmp:
  "RegisterSnmpTrapServer rc h p co ch chs = (chs', rc') \<Longrightarrow> registers ch ''snmp'' rc chs rc' chs'"
  by (auto simp: RegisterSnmpTrapServer_def NewSnmpReceiver_def registers_def add_server_def Let_def)

section \<open>Stopping\<close>

lemma listener_Stop_no_panic: "snd (listener_Stop P l w) \<noteq> Panic m"
  by (cases l) (auto simp: http_Stop_def wrap_err_Panic_iff of_answer_iff mqtt_Stop_def snmp_Stop_def
      split: prod.splits option.splits sum.splits)

text \<open>
  What stopping asks of a listener's server: an HTTP server is shut down, a broker or a trap socket is
  closed if there is one. The result is what the server answers.
\<close>

fun stop_call :: "'w stop_api \<Rightarrow> listener \<Rightarrow> 'w \<Rightarrow> 'w \<times> unit answer" where
  "stop_call P (LHttp r) w = sp_shutdown P r w"
| "stop_call P (LMqtt r) w = (case mr_srv r of None \<Rightarrow> (w, Inr ()) | Some b \<Rightarrow> mq_close (sp_mqtt P) b w)"
| "stop_call P (LSnmp r) w = (case sr_listener r of None \<Rightarrow> (w, Inr ()) | Some l \<Rightarrow> (tr_close (sp_trap P) l w, Inr ()))"

definition after_stops :: "'w stop_api \<Rightarrow> listener list \<Rightarrow> 'w \<Rightarrow> 'w" where
  "after_stops P ls w = fold (\<lambda>l w. fst (stop_call P l w)) ls w"

text \<open>A listener that holds no broker and no trap socket.\<close>

fun released :: "listener \<Rightarrow> listener" where
  "released (LHttp r) = LHttp r"
| "released (LMqtt r) = LMqtt (r\<lparr>mr_srv := None\<rparr>)"
| "released (LSnmp r) = LSnmp (r\<lparr>sr_listener := None\<rparr>)"

lemma listener_Stop_effect:
  "fst (listener_Stop P l w) = (if isl (snd (stop_call P l w)) then l else released l, fst (stop_call P l w))"
proof (cases l)
  case (LMqtt r)
  then show ?thesis by (cases "mr_srv r") (auto simp: mqtt_Stop_def split: prod.splits sum.splits)
next
  case (LSnmp r)
  then show ?thesis by (cases "sr_listener r") (auto simp: snmp_Stop_def)
qed (simp split: prod.split)

lemma stop_loop_Ok: "\<exists>s es. stop_loop P ls w = (s, Ok es)"
proof (induction ls arbitrary: w)
  case (Cons l ls)
  obtain l' w1 x where h: "listener_Stop P l w = ((l', w1), x)" by (metis prod.exhaust)
  moreover obtain s es where "stop_loop P ls w1 = (s, Ok es)" using Cons by blast
  moreover have "x \<noteq> Panic m" for m using h listener_Stop_no_panic by (metis snd_conv)
  ultimately show ?case by (cases s; cases x) auto
qed simp

lemma stop_loop_effect:
  assumes "stop_loop P ls w = ((ls', w'), r)"
  shows "w' = after_stops P ls w \<and> length ls' = length ls \<and>
    (\<forall>i < length ls. ls' ! i =
       (if isl (snd (stop_call P (ls ! i) (after_stops P (take i ls) w))) then ls ! i else released (ls ! i)))"
  using assms
proof (induction ls arbitrary: w ls' w' r)
  case Nil
  then show ?case by (simp add: after_stops_def)
next
  case (Cons l ls)
  obtain l' w1 x where h: "listener_Stop P l w = ((l', w1), x)" by (metis prod.exhaust)
  then have l': "l' = (if isl (snd (stop_call P l w)) then l else released l)" "w1 = fst (stop_call P l w)"
    using listener_Stop_effect [of P l w] by simp_all
  obtain ls2 w2 es where n: "stop_loop P ls w1 = ((ls2, w2), es)" by (metis prod.exhaust)
  have "\<And>m. x \<noteq> Panic m" using h listener_Stop_no_panic by (metis snd_conv)
  then have out: "ls' = l' # ls2" "w' = w2" using Cons.prems h n by (cases x; simp)+
  have shift: "after_stops P (l # xs) w = after_stops P xs w1" for xs by (simp add: after_stops_def l'(2))
  show ?case unfolding out using Cons.IH [OF n] l'(1)
    by (auto simp: shift nth_Cons take_Cons' after_stops_def [of P "[]"] split: nat.split)
qed

end
