(* ===== verification/Modbus.thy ===== *)
theory Modbus
  imports Connector
begin

text \<open>
  \<open>pkg/adapter/modbus/modbus.go\<close>: the Modbus TCP/RTU adapter. The third-party client is a record
  of calls on an abstract world \<open>'w\<close>; a client object is a handle (a number). Register addresses
  are 1-based in the profiles and 0-based on the wire, in 16-bit arithmetic that wraps.
\<close>

section \<open>Data\<close>

datatype reg_type = HOLDING_REGISTER | INPUT_REGISTER

record modbus_config =
  cf_URL :: string
  cf_Timeout :: duration
  cf_Speed :: "64 word"
  cf_DataBits :: "64 word"
  cf_StopBits :: "64 word"
  cf_Parity :: "64 word"

record 'w modbus_api =
  mb_NewClient :: "modbus_config \<Rightarrow> 'w \<Rightarrow> 'w \<times> nat answer"
  mb_Open :: "nat \<Rightarrow> 'w \<Rightarrow> 'w \<times> unit answer"
  mb_Close :: "nat \<Rightarrow> 'w \<Rightarrow> 'w \<times> unit answer"
  mb_ReadRegisters :: "nat \<Rightarrow> 16 word \<Rightarrow> 16 word \<Rightarrow> reg_type \<Rightarrow> 'w \<Rightarrow> 'w \<times> 16 word list answer"
  mb_ReadCoils :: "nat \<Rightarrow> 16 word \<Rightarrow> 16 word \<Rightarrow> 'w \<Rightarrow> 'w \<times> bool list answer"
  mb_ReadDiscreteInputs :: "nat \<Rightarrow> 16 word \<Rightarrow> 16 word \<Rightarrow> 'w \<Rightarrow> 'w \<times> bool list answer"
  mb_WriteRegister :: "nat \<Rightarrow> 16 word \<Rightarrow> 16 word \<Rightarrow> 'w \<Rightarrow> 'w \<times> unit answer"
  mb_WriteRegisters :: "nat \<Rightarrow> 16 word \<Rightarrow> 16 word list \<Rightarrow> 'w \<Rightarrow> 'w \<times> unit answer"
  mb_WriteCoil :: "nat \<Rightarrow> 16 word \<Rightarrow> bool \<Rightarrow> 'w \<Rightarrow> 'w \<times> unit answer"
  mb_WriteCoils :: "nat \<Rightarrow> 16 word \<Rightarrow> bool list \<Rightarrow> 'w \<Rightarrow> 'w \<times> unit answer"

record modbus_client =
  mc_EndPoint :: string
  mc_ProtocolType :: protocol_type
  mc_Timeout :: duration
  mc_BaudRate :: "64 word"
  mc_DataBits :: "64 word"
  mc_StopBits :: "64 word"
  mc_Parity :: "64 word"
  mc_connected :: bool
  mc_client :: "nat option"

type_synonym 'w modbus_state = "modbus_client \<times> 'w"

text \<open>\<open>tableType\<close> is a string type with four named values.\<close>

type_synonym tableType = string

definition tableCoils :: tableType where "tableCoils = ''COILS''"
definition tableDiscretes :: tableType where "tableDiscretes = ''DISCRETES''"
definition tableHoldingRegisters :: tableType where "tableHoldingRegisters = ''HOLDING_REGISTERS''"
definition tableInputRegisters :: tableType where "tableInputRegisters = ''INPUT_REGISTERS''"

lemmas table_defs =
  tableCoils_def tableDiscretes_def tableHoldingRegisters_def tableInputRegisters_def

lemma table_neq [simp]:
  "tableCoils \<noteq> tableDiscretes" "tableCoils \<noteq> tableHoldingRegisters" "tableCoils \<noteq> tableInputRegisters"
  "tableDiscretes \<noteq> tableCoils" "tableDiscretes \<noteq> tableHoldingRegisters" "tableDiscretes \<noteq> tableInputRegisters"
  "tableHoldingRegisters \<noteq> tableCoils" "tableHoldingRegisters \<noteq> tableDiscretes"
  "tableHoldingRegisters \<noteq> tableInputRegisters" "tableInputRegisters \<noteq> tableCoils"
  "tableInputRegisters \<noteq> tableDiscretes" "tableInputRegisters \<noteq> tableHoldingRegisters"
  by (simp_all add: table_defs)

section \<open>Construction and connection\<close>

text \<open>\<open>if v, ok := args[key]; ok { if u, ok := conv.ToUint(v); ok { field = u } }\<close>.\<close>

definition arg_uint :: "go_impl \<Rightarrow> (string \<rightharpoonup> string) \<Rightarrow> string \<Rightarrow> 64 word \<Rightarrow> 64 word" where
  "arg_uint I args key dflt = (case args key of
       None \<Rightarrow> dflt
     | Some v \<Rightarrow> (case ToUint I (VString v) of Some u \<Rightarrow> u | None \<Rightarrow> dflt))"

definition NewModbusClient ::
  "go_impl \<Rightarrow> string \<Rightarrow> protocol_type \<Rightarrow> duration \<Rightarrow> properties \<Rightarrow> modbus_client result" where
  "NewModbusClient I endpoint pt defaultTimeout args =
     (let c = \<lparr>mc_EndPoint = endpoint, mc_ProtocolType = pt, mc_Timeout = defaultTimeout,
               mc_BaudRate = 0, mc_DataBits = 8, mc_StopBits = 1, mc_Parity = 0,
               mc_connected = False, mc_client = None\<rparr>
      in case args of
           None \<Rightarrow> Ok c
         | Some m \<Rightarrow> Ok (c\<lparr>mc_BaudRate := arg_uint I m ''baud_rate'' (mc_BaudRate c),
                           mc_DataBits := arg_uint I m ''data_bits'' (mc_DataBits c),
                           mc_StopBits := arg_uint I m ''stop_bits'' (mc_StopBits c),
                           mc_Parity := arg_uint I m ''parity'' (mc_Parity c)\<rparr>))"

definition modbus_client_config :: "modbus_client \<Rightarrow> modbus_config" where
  "modbus_client_config m =
     (let cfg = \<lparr>cf_URL = mc_EndPoint m, cf_Timeout = mc_Timeout m, cf_Speed = 0, cf_DataBits = 0,
                 cf_StopBits = 0, cf_Parity = 0\<rparr>
      in if 0 < mc_BaudRate m
         then cfg\<lparr>cf_Speed := mc_BaudRate m, cf_DataBits := mc_DataBits m,
                  cf_StopBits := mc_StopBits m, cf_Parity := mc_Parity m\<rparr>
         else cfg)"

definition modbus_newClient :: "'w modbus_api \<Rightarrow> 'w modbus_state \<Rightarrow> 'w modbus_state \<times> nat result" where
  "modbus_newClient api s = (case s of (m, w) \<Rightarrow>
     (case mb_NewClient api (modbus_client_config m) w of
        (w', Inl e) \<Rightarrow> ((m\<lparr>mc_connected := False\<rparr>, w'), Err (Wrapf ''failed to create modbus protocol: %w'' [] e))
      | (w', Inr h) \<Rightarrow> ((m\<lparr>mc_connected := True\<rparr>, w'), Ok h)))"

definition modbus_open :: "'w modbus_api \<Rightarrow> nat \<Rightarrow> 'w modbus_state \<Rightarrow> 'w modbus_state \<times> unit result" where
  "modbus_open api h s = (case s of (m, w) \<Rightarrow>
     (case mb_Open api h w of
        (w', Inl e) \<Rightarrow> ((m, w'), Err (Wrapf ''failed to connect to device: %w'' [] e))
      | (w', Inr _) \<Rightarrow> ((m\<lparr>mc_connected := True\<rparr>, w'), Ok ())))"

definition modbus_Connect :: "'w modbus_api \<Rightarrow> 'w modbus_state \<Rightarrow> 'w modbus_state \<times> unit result" where
  "modbus_Connect api s = (case s of (m, w) \<Rightarrow>
     (case mc_client m of
        Some h \<Rightarrow> modbus_open api h (m, w)
      | None \<Rightarrow> (case modbus_newClient api (m, w) of
            ((m', w'), Ok h) \<Rightarrow> modbus_open api h (m'\<lparr>mc_client := Some h\<rparr>, w')
          | (s', Err e) \<Rightarrow> (s', Err e)
          | (s', Panic p) \<Rightarrow> (s', Panic p))))"

definition modbus_Disconnect :: "'w modbus_api \<Rightarrow> 'w modbus_state \<Rightarrow> 'w modbus_state \<times> unit result" where
  "modbus_Disconnect api s = (case s of (m, w) \<Rightarrow>
     (case mc_client m of
        None \<Rightarrow> ((m\<lparr>mc_connected := False\<rparr>, w), Ok ())
      | Some h \<Rightarrow> (case mb_Close api h w of (w', a) \<Rightarrow>
          ((m\<lparr>mc_connected := False\<rparr>, w'),
           wrap_err ''failed to disconnect device: %w'' [] (of_answer a)))))"

section \<open>Tables, spans and values\<close>

definition getTableType :: "(string \<rightharpoonup> goval) option \<Rightarrow> tableType" where
  "getTableType args = (case args of
       None \<Rightarrow> tableHoldingRegisters
     | Some m \<Rightarrow> (case m ''primaryTable'' of
           Some (VString t) \<Rightarrow>
             (if t = tableCoils \<or> t = tableDiscretes \<or> t = tableInputRegisters \<or> t = tableHoldingRegisters
              then t else tableHoldingRegisters)
         | _ \<Rightarrow> tableHoldingRegisters))"

text \<open>\<open>uint16(res.Address.(float64))\<close>.\<close>

definition float_addr :: "go_impl \<Rightarrow> goval \<Rightarrow> 16 word result" where
  "float_addr I v = (case v of VFloat64 f \<Rightarrow> Ok (fval_to_uint I (f64_val f)) | _ \<Rightarrow> assert_panic)"

fun span_loop :: "go_impl \<Rightarrow> 16 word \<Rightarrow> 16 word \<Rightarrow> resource list \<Rightarrow> (16 word \<times> 16 word) result" where
  "span_loop I minAddr maxEnd [] = Ok (minAddr, maxEnd - minAddr)"
| "span_loop I minAddr maxEnd (p # ps) = rbind (float_addr I (r_Address p)) (\<lambda>addr.
     (let minAddr' = (if addr < minAddr then addr else minAddr);
          endAddr = addr + r_Length p;
          maxEnd' = (if maxEnd < endAddr then endAddr else maxEnd)
      in span_loop I minAddr' maxEnd' ps))"

definition calculateBatchSpan :: "go_impl \<Rightarrow> resource list \<Rightarrow> (16 word \<times> 16 word) result" where
  "calculateBatchSpan I points = span_loop I 0xFFFF 0 points"

definition extractRegisterValue :: "goval \<Rightarrow> string \<Rightarrow> 16 word \<Rightarrow> goval result" where
  "extractRegisterValue rawData resType len =
     (if 1 < len then Ok rawData
      else case rawData of
             VUint16s v \<Rightarrow> (case v of [] \<Rightarrow> index_panic | x # _ \<Rightarrow> Ok (VUint16 x))
           | VBools v \<Rightarrow> (case v of [] \<Rightarrow> index_panic | x # _ \<Rightarrow> Ok (VBool x))
           | _ \<Rightarrow> Ok rawData)"

text \<open>The slice expression \<open>data[lo:hi]\<close>, whose bounds are 16-bit values.\<close>

definition go_slice :: "'a list \<Rightarrow> 16 word \<Rightarrow> 16 word \<Rightarrow> 'a list result" where
  "go_slice data lo hi =
     (if hi < lo \<or> length data < unat hi then index_panic
      else Ok (take (unat hi - unat lo) (drop (unat lo) data)))"

text \<open>\<open>mk\<close> is \<open>VBools\<close> or \<open>VUint16s\<close>, the two instances of the type parameter \<open>T\<close>.\<close>

definition assign_point ::
  "go_impl \<Rightarrow> ('a list \<Rightarrow> goval) \<Rightarrow> 16 word \<Rightarrow> 'a list \<Rightarrow> resource \<Rightarrow> resource result" where
  "assign_point I mk minAddr data p = rbind (float_addr I (r_Address p)) (\<lambda>addr.
     let offset = addr - minAddr
     in if unat offset + unat (r_Length p) \<le> length data
        then rbind (go_slice data offset (offset + r_Length p)) (\<lambda>d.
             rbind (extractRegisterValue (mk d) (r_Type p) (r_Length p)) (\<lambda>v.
               Ok (p\<lparr>r_Value := v\<rparr>)))
        else Ok p)"

definition assignResValues ::
  "go_impl \<Rightarrow> ('a list \<Rightarrow> goval) \<Rightarrow> resource list \<Rightarrow> 16 word \<Rightarrow> 'a list \<Rightarrow> resource list result" where
  "assignResValues I mk points minAddr data = traverse (assign_point I mk minAddr data) points"

section \<open>Reading\<close>

definition modbus_read ::
  "'w modbus_api \<Rightarrow> 16 word \<Rightarrow> 16 word \<Rightarrow> tableType \<Rightarrow> 'w modbus_state \<Rightarrow> 'w modbus_state \<times> goval result" where
  "modbus_read api addressStart quantity tt s = (case s of (m, w) \<Rightarrow>
     (case mc_client m of
        None \<Rightarrow> (s, nil_panic)
      | Some h \<Rightarrow>
         if tt = tableCoils then
           (case mb_ReadCoils api h addressStart quantity w of (w', a) \<Rightarrow>
             ((m, w'), rmap VBools (of_answer a)))
         else if tt = tableDiscretes then
           (case mb_ReadDiscreteInputs api h addressStart quantity w of (w', a) \<Rightarrow>
             ((m, w'), rmap VBools (of_answer a)))
         else if tt = tableInputRegisters then
           (case mb_ReadRegisters api h addressStart quantity INPUT_REGISTER w of (w', a) \<Rightarrow>
             ((m, w'), rmap VUint16s (of_answer a)))
         else
           (case mb_ReadRegisters api h addressStart quantity HOLDING_REGISTER w of (w', a) \<Rightarrow>
             ((m, w'), rmap VUint16s (of_answer a)))))"

definition modbus_ReadSingle :: "go_impl \<Rightarrow> 'w modbus_api \<Rightarrow> ('w modbus_state) read_single_fn" where
  "modbus_ReadSingle I api s res = (case float_addr I (r_Address res) of
       Err e \<Rightarrow> (s, res, Err e)
     | Panic p \<Rightarrow> (s, res, Panic p)
     | Ok a \<Rightarrow>
        (case modbus_read api (a - 1) (r_Length res) (getTableType (r_Args res)) s of (s', r) \<Rightarrow>
          (case rbind r (\<lambda>data. extractRegisterValue data (r_Type res) (r_Length res)) of
             Ok v \<Rightarrow> (s', res\<lparr>r_Value := v\<rparr>, Ok ())
           | Err e \<Rightarrow> (s', res, Err e)
           | Panic p \<Rightarrow> (s', res, Panic p))))"

text \<open>The type switch on the data read.\<close>

definition assign_any :: "go_impl \<Rightarrow> resource list \<Rightarrow> 16 word \<Rightarrow> goval \<Rightarrow> resource list result" where
  "assign_any I points minAddr dataAny = (case dataAny of
       VBools data \<Rightarrow> assignResValues I VBools points minAddr data
     | VUint16s data \<Rightarrow> assignResValues I VUint16s points minAddr data
     | _ \<Rightarrow> Err (Errorf ''unexpected data type returned from read: %T'' [gotype dataAny]))"

text \<open>\<open>points[0]\<close> panics for an empty slice, after the span was computed.\<close>

definition modbus_ReadBatch :: "go_impl \<Rightarrow> 'w modbus_api \<Rightarrow> ('w modbus_state) read_batch_fn" where
  "modbus_ReadBatch I api s points = (case calculateBatchSpan I points of
       Err e \<Rightarrow> (s, points, Err e)
     | Panic p \<Rightarrow> (s, points, Panic p)
     | Ok (minAddr, quantity) \<Rightarrow>
        (case points of
           [] \<Rightarrow> (s, points, index_panic)
         | p0 # _ \<Rightarrow>
            (let tt = getTableType (r_Args p0)
             in case modbus_read api (minAddr - 1) quantity tt s of (s', r) \<Rightarrow>
                  (case rbind (wrap_err ''batch read failed for type %s: %w'' [tt] r)
                          (assign_any I points minAddr) of
                     Ok points' \<Rightarrow> (s', points', Ok ())
                   | Err e \<Rightarrow> (s', points, Err e)
                   | Panic p \<Rightarrow> (s', points, Panic p)))))"

section \<open>Writing\<close>

text \<open>A call of the third-party client through the interface field \<open>m.client\<close>.\<close>

definition modbus_call ::
  "(nat \<Rightarrow> 'w \<Rightarrow> 'w \<times> unit answer) \<Rightarrow> 'w modbus_state \<Rightarrow> 'w modbus_state \<times> unit result" where
  "modbus_call f s = (case s of (m, w) \<Rightarrow>
     (case mc_client m of
        None \<Rightarrow> (s, nil_panic)
      | Some h \<Rightarrow> (case f h w of (w', a) \<Rightarrow> ((m, w'), of_answer a))))"

definition modbus_WriteSingle :: "go_impl \<Rightarrow> 'w modbus_api \<Rightarrow> ('w modbus_state) write_single_fn" where
  "modbus_WriteSingle I api s res = (case float_addr I (r_Address res) of
       Err e \<Rightarrow> (s, Err e)
     | Panic p \<Rightarrow> (s, Panic p)
     | Ok a \<Rightarrow>
        (let addr = a - 1; tt = getTableType (r_Args res)
         in if tt = tableCoils then
              (case wrap_err ''WriteSingle coil: %w'' [] (ToBool (r_Value res)) of
                 Ok val \<Rightarrow> modbus_call (\<lambda>h. mb_WriteCoil api h addr val) s
               | Err e \<Rightarrow> (s, Err e)
               | Panic p \<Rightarrow> (s, Panic p))
            else if tt = tableHoldingRegisters then
              (case wrap_err ''WriteSingle register: %w, resource=%s, type=%s'' [r_Name res, r_Type res]
                      (ToUint16Slice (r_Value res)) of
                 Ok values \<Rightarrow>
                   (case values of
                      [v] \<Rightarrow> modbus_call (\<lambda>h. mb_WriteRegister api h addr v) s
                    | _ \<Rightarrow> modbus_call (\<lambda>h. mb_WriteRegisters api h addr values) s)
               | Err e \<Rightarrow> (s, Err e)
               | Panic p \<Rightarrow> (s, Panic p))
            else if tt = tableDiscretes then
              (s, Err (Errorf ''WriteSingle: discrete inputs are read-only'' []))
            else if tt = tableInputRegisters then
              (s, Err (Errorf ''WriteSingle: input registers are read-only'' []))
            else (s, Err (Errorf ''WriteSingle: unknown table type %s'' [tt]))))"

definition toBoolSliceBatch :: "resource list \<Rightarrow> bool list result" where
  "toBoolSliceBatch points = rmap concat
     (traverse (\<lambda>pt. wrap_err ''resource= %s: %w'' [r_Name pt] (ToBoolSlice (r_Value pt))) points)"

definition toUint16SliceBatch :: "resource list \<Rightarrow> 16 word list result" where
  "toUint16SliceBatch points = rmap concat
     (traverse (\<lambda>pt. wrap_err ''resource= %s: %w'' [r_Name pt] (ToUint16Slice (r_Value pt))) points)"

definition modbus_WriteBatch :: "go_impl \<Rightarrow> 'w modbus_api \<Rightarrow> ('w modbus_state) write_batch_fn" where
  "modbus_WriteBatch I api s points = (case points of
       [] \<Rightarrow> (s, Err (Errorf ''WriteBatch: no points to write'' []))
     | p0 # _ \<Rightarrow> (case calculateBatchSpan I points of
           Err e \<Rightarrow> (s, Err e)
         | Panic p \<Rightarrow> (s, Panic p)
         | Ok (minAddr, _) \<Rightarrow>
            (let tt = getTableType (r_Args p0); protocolAddr = minAddr - 1
             in if tt = tableCoils then
                  (case wrap_err ''WriteBatch coils: %w'' [] (toBoolSliceBatch points) of
                     Ok values \<Rightarrow> modbus_call (\<lambda>h. mb_WriteCoils api h protocolAddr values) s
                   | Err e \<Rightarrow> (s, Err e)
                   | Panic p \<Rightarrow> (s, Panic p))
                else if tt = tableHoldingRegisters then
                  (case wrap_err ''WriteBatch registers: %w'' [] (toUint16SliceBatch points) of
                     Ok values \<Rightarrow> modbus_call (\<lambda>h. mb_WriteRegisters api h protocolAddr values) s
                   | Err e \<Rightarrow> (s, Err e)
                   | Panic p \<Rightarrow> (s, Panic p))
                else if tt = tableDiscretes then
                  (s, Err (Errorf ''WriteBatch: discrete inputs are read-only'' []))
                else if tt = tableInputRegisters then
                  (s, Err (Errorf ''WriteBatch: input registers are read-only'' []))
                else (s, Err (Errorf ''WriteBatch: unknown table type %s'' [tt])))))"

section \<open>The adapter keeps the interfaces' laws\<close>

lemma assign_point_frame: "assign_point I mk m data p = Ok p' \<Longrightarrow> clear_value p' = clear_value p"
  by (auto simp: assign_point_def Let_def rbind_Ok_iff split: if_splits)

lemma assignResValues_frame:
  "assignResValues I mk ps m data = Ok ps' \<Longrightarrow> map clear_value ps' = map clear_value ps"
  unfolding assignResValues_def traverse_Ok_iff
  by (induction rule: list_all2_induct) (auto dest: assign_point_frame)

lemma assign_any_frame:
  "assign_any I ps m d = Ok ps' \<Longrightarrow> map clear_value ps' = map clear_value ps"
  by (cases d) (auto simp: assign_any_def assignResValues_frame)

lemma modbus_single_frame:
  "modbus_ReadSingle I api s res = (s', res', r) \<Longrightarrow> clear_value res' = clear_value res"
  by (auto simp: modbus_ReadSingle_def split: result.splits prod.splits)

lemma modbus_batch_frame:
  "modbus_ReadBatch I api s ps = (s', ps', r) \<Longrightarrow> map clear_value ps' = map clear_value ps"
  by (auto simp: modbus_ReadBatch_def Let_def rbind_Ok_iff dest!: assign_any_frame
      split: result.splits prod.splits list.splits)

interpretation modbus_reader: reader "modbus_ReadSingle I api" "modbus_ReadBatch I api" for I api
  by unfold_locales (rule modbus_single_frame modbus_batch_frame, assumption)+

lemma modbus_open_connects: "modbus_open api h s = (s', Ok ()) \<Longrightarrow> mc_connected (fst s')"
  by (auto simp: modbus_open_def split: prod.splits sum.splits)

lemma modbus_connect_connects: "modbus_Connect api s = (s', Ok ()) \<Longrightarrow> mc_connected (fst s')"
  by (auto simp: modbus_Connect_def modbus_open_connects split: prod.splits option.splits result.splits)

lemma modbus_disconnects: "modbus_Disconnect api s = (s', r) \<Longrightarrow> \<not> mc_connected (fst s')"
  by (auto simp: modbus_Disconnect_def split: prod.splits option.splits)

interpretation modbus_session: session "modbus_Connect api" "modbus_Disconnect api" "\<lambda>s. mc_connected (fst s)"
  for api
  by unfold_locales (rule modbus_connect_connects, assumption, rule modbus_disconnects, assumption)

section \<open>The span of a batch\<close>

lemma float_addr_no_err [simp]: "float_addr I v \<noteq> Err e"
  by (cases v) (auto simp: float_addr_def)

definition addr_of :: "go_impl \<Rightarrow> resource \<Rightarrow> 16 word" where
  "addr_of I p = (case float_addr I (r_Address p) of Ok a \<Rightarrow> a | _ \<Rightarrow> 0)"

text \<open>A numeric address.\<close>

definition addressed :: "go_impl \<Rightarrow> resource \<Rightarrow> bool" where
  "addressed I p \<longleftrightarrow> float_addr I (r_Address p) = Ok (addr_of I p)"

text \<open>The end of the point's registers does not pass the 16-bit address space.\<close>

definition placed :: "go_impl \<Rightarrow> resource \<Rightarrow> bool" where
  "placed I p \<longleftrightarrow> addressed I p \<and> unat (addr_of I p) + unat (r_Length p) < 65536"

definition first_reg :: "go_impl \<Rightarrow> resource \<Rightarrow> nat" where
  "first_reg I p = unat (addr_of I p)"

definition end_reg :: "go_impl \<Rightarrow> resource \<Rightarrow> nat" where
  "end_reg I p = unat (addr_of I p) + unat (r_Length p)"

lemma unat16_less: "unat (a :: 16 word) < 65536"
  using unsigned_less [of a, where 'a = nat] by simp

lemma unat_add16: "unat (a :: 16 word) + unat b < 65536 \<Longrightarrow> unat (a + b) = unat a + unat b"
  by (simp add: unat_word_ariths)

lemma unat_smaller: "unat (if a < b then a else b) = min (unat a) (unat (b :: 16 word))"
  by (simp add: word_less_nat_alt min_def)

lemma unat_larger: "unat (if a < b then b else a) = max (unat a) (unat (b :: 16 word))"
  by (simp add: word_less_nat_alt max_def)

lemma Min_insert_absorb: "finite A \<Longrightarrow> Min (insert (min (a :: nat) b) A) = Min (insert b (insert a A))"
  by (cases "A = {}") (auto simp: min.assoc min.commute min.left_commute)

lemma Max_insert_absorb: "finite A \<Longrightarrow> Max (insert (max (a :: nat) b) A) = Max (insert a (insert b A))"
  by (cases "A = {}") (auto simp: max.assoc max.commute max.left_commute)

lemma span_loop_exact:
  "(\<And>p. p \<in> set ps \<Longrightarrow> addressed I p) \<Longrightarrow>
   \<exists>M E. span_loop I m e ps = Ok (M, E - M) \<and> unat M = Min (insert (unat m) (first_reg I ` set ps)) \<and>
     ((\<forall>p \<in> set ps. placed I p) \<longrightarrow> unat E = Max (insert (unat e) (end_reg I ` set ps)))"
proof (induction ps arbitrary: m e)
  case Nil
  then show ?case by auto
next
  case (Cons p ps)
  define a where "a = addr_of I p"
  define m' where "m' = (if a < m then a else m)"
  define e' where "e' = (if e < a + r_Length p then a + r_Length p else e)"
  have p: "float_addr I (r_Address p) = Ok a" using Cons.prems by (simp add: addressed_def a_def)
  obtain M E where ME: "span_loop I m' e' ps = Ok (M, E - M)"
    "unat M = Min (insert (unat m') (first_reg I ` set ps))"
    "(\<forall>p \<in> set ps. placed I p) \<longrightarrow> unat E = Max (insert (unat e') (end_reg I ` set ps))"
    using Cons.IH [of m' e'] Cons.prems by auto
  have "unat M = Min (insert (unat m) (first_reg I ` set (p # ps)))"
    unfolding ME(2) m'_def unat_smaller by (simp add: Min_insert_absorb first_reg_def a_def)
  moreover have "unat E = Max (insert (unat e) (end_reg I ` set (p # ps)))"
    if "\<forall>q \<in> set (p # ps). placed I q"
  proof -
    have "unat (a + r_Length p) = end_reg I p"
      using that by (simp add: placed_def unat_add16 end_reg_def a_def)
    then show ?thesis using that ME(3) unfolding e'_def unat_larger
      by (simp add: Max_insert_absorb)
  qed
  moreover have "span_loop I m e (p # ps) = Ok (M, E - M)"
    using p ME(1) by (simp add: Let_def m'_def e'_def)
  ultimately show ?case by blast
qed

lemma batch_span_min_max:
  assumes "ps \<noteq> []" and "\<forall>p \<in> set ps. placed I p"
  shows "\<exists>m q. calculateBatchSpan I ps = Ok (m, q) \<and> unat m = Min (first_reg I ` set ps) \<and>
    unat m + unat q = Max (end_reg I ` set ps)"
proof -
  obtain M E where ME: "span_loop I 0xFFFF 0 ps = Ok (M, E - M)"
    "unat M = Min (insert 65535 (first_reg I ` set ps))"
    "unat E = Max (insert 0 (end_reg I ` set ps))"
    using span_loop_exact [of ps I "0xFFFF" 0] assms(2) by (auto simp: placed_def)
  have ne: "first_reg I ` set ps \<noteq> {}" "end_reg I ` set ps \<noteq> {}" using assms(1) by auto
  obtain p where p: "p \<in> set ps" using assms(1) by (cases ps) auto
  have "Min (first_reg I ` set ps) \<le> first_reg I p" using p by simp
  moreover have fe: "first_reg I p \<le> 65535" "first_reg I p \<le> end_reg I p"
    using unat16_less [of "addr_of I p"] by (auto simp: first_reg_def end_reg_def)
  ultimately have M: "unat M = Min (first_reg I ` set ps)" using ME(2) ne by simp
  have E: "unat E = Max (end_reg I ` set ps)" using ME(3) ne by simp
  have "unat M \<le> first_reg I p" using M p by simp
  also have "\<dots> \<le> unat E" using E p fe(2) by (metis Max_ge List.finite_set finite_imageI image_eqI le_trans)
  finally have "unat (E - M) = unat E - unat M" by (simp add: unat_sub word_le_nat_alt)
  then show ?thesis using ME(1) M E \<open>first_reg I p \<le> unat E\<close> \<open>unat M \<le> first_reg I p\<close>
    by (intro exI [of _ M] exI [of _ "E - M"]) (simp add: calculateBatchSpan_def)
qed


text \<open>
  The span of a batch is exact: for points that do not run past the 16-bit address space it
  starts at the smallest register and covers up to the largest end, with no wrap-around.
\<close>

theorem batch_span_exact:
  assumes "ps \<noteq> []" and "\<forall>p \<in> set ps. placed I p"
  shows "\<exists>m q. calculateBatchSpan I ps = Ok (m, q) \<and> unat m = Min (first_reg I ` set ps) \<and>
    unat m + unat q = Max (end_reg I ` set ps)"
  using assms by (rule batch_span_min_max)

theorem batch_span_exact_witness:
  "\<forall>I. \<exists>m q. calculateBatchSpan I (map (\<lambda>a. \<lparr>r_Name = [], r_Address = VFloat64 (f64_of_int a),
      r_Length = 2, r_Value = VNil, r_Type = [], r_Decoder = [], r_Encoder = [], r_Args = None\<rparr>) [7, 3])
    = Ok (m, q) \<and> unat m + unat q = 9"
proof
  fix I
  define pt where "pt = (\<lambda>a :: int. \<lparr>r_Name = [], r_Address = VFloat64 (f64_of_int a),
      r_Length = 2, r_Value = VNil, r_Type = [], r_Decoder = [], r_Encoder = [], r_Args = None\<rparr>)"
  have a: "float_addr I (r_Address (pt 7)) = Ok 7" "float_addr I (r_Address (pt 3)) = Ok 3"
    by (simp_all add: float_addr_def pt_def fval_to_uint_of_int)
  then have "\<forall>p \<in> set (map pt [7, 3]). placed I p"
    by (simp add: placed_def addressed_def addr_of_def) (simp add: pt_def)
  from batch_span_exact [OF _ this]
  show "\<exists>m q. calculateBatchSpan I (map (\<lambda>a. \<lparr>r_Name = [], r_Address = VFloat64 (f64_of_int a),
      r_Length = 2, r_Value = VNil, r_Type = [], r_Decoder = [], r_Encoder = [], r_Args = None\<rparr>) [7, 3])
    = Ok (m, q) \<and> unat m + unat q = 9"
    unfolding pt_def [symmetric] using a
    by (auto simp: end_reg_def addr_of_def) (auto simp: pt_def)
qed

section \<open>A connected client does not dereference nil\<close>

definition modbus_usable :: "'w modbus_state \<Rightarrow> bool" where
  "modbus_usable s \<longleftrightarrow> mc_client (fst s) \<noteq> None"

lemma modbus_Connect_usable: "modbus_Connect api s = (s', Ok ()) \<Longrightarrow> modbus_usable s'"
  by (auto simp: modbus_Connect_def modbus_open_def modbus_usable_def split: prod.splits option.splits result.splits sum.splits)

lemma modbus_read_usable:
  "modbus_usable s \<Longrightarrow> modbus_read api a q tt s = (s', r) \<Longrightarrow> modbus_usable s' \<and> no_nil r"
  by (auto simp: modbus_usable_def modbus_read_def split: prod.splits option.splits if_splits)

lemma modbus_call_usable: "modbus_usable s \<Longrightarrow> modbus_call f s = (s', r) \<Longrightarrow> modbus_usable s' \<and> no_nil r"
  by (auto simp: modbus_usable_def modbus_call_def split: prod.splits option.splits)

lemma float_addr_no_nil [simp]: "no_nil (float_addr I v)"
  by (cases v) (auto simp: float_addr_def)

lemma extractRegisterValue_no_nil [simp]: "no_nil (extractRegisterValue d t n)"
  by (auto simp: extractRegisterValue_def split: goval.split list.split)

lemma span_loop_no_nil [simp]: "no_nil (span_loop I lo hi ps)"
  by (induction ps arbitrary: lo hi) (auto simp: Let_def intro: no_nil_rbind)

lemma assign_any_no_nil [simp]: "no_nil (assign_any I ps m d)"
  by (auto simp: assign_any_def assignResValues_def assign_point_def go_slice_def Let_def
      intro!: no_nil_rbind no_nil_traverse split: goval.split)

lemma modbus_values_no_nil [simp]: "no_nil (toBoolSliceBatch ps)" "no_nil (toUint16SliceBatch ps)"
  by (simp_all add: toBoolSliceBatch_def toUint16SliceBatch_def no_nil_traverse no_nil_total)

lemma calculateBatchSpan_no_nil [simp]: "no_nil (calculateBatchSpan I ps)"
  by (simp add: calculateBatchSpan_def)

lemma modbus_ReadSingle_usable:
  assumes "modbus_usable s" and "modbus_ReadSingle I api s res = (s', res', r)"
  shows "modbus_usable s' \<and> no_nil r"
proof -
  obtain s1 x where x: "modbus_read api (addr_of I res - 1) (r_Length res) (getTableType (r_Args res)) s = (s1, x)"
    by fastforce
  have "no_nil (rbind x (\<lambda>data. extractRegisterValue data (r_Type res) (r_Length res)))"
    using modbus_read_usable [OF assms(1) x] by (auto intro: no_nil_rbind)
  then show ?thesis using assms modbus_read_usable [OF assms(1) x] x
    by (auto simp: modbus_ReadSingle_def addr_of_def split: result.splits prod.splits)
qed

lemma modbus_ReadBatch_usable:
  assumes "modbus_usable s" and "modbus_ReadBatch I api s ps = (s', ps', r)"
  shows "modbus_usable s' \<and> no_nil r"
proof (cases "calculateBatchSpan I ps")
  case (Ok span)
  obtain lo q where span: "span = (lo, q)" by fastforce
  show ?thesis
  proof (cases ps)
    case (Cons p0 rest)
    obtain s1 x where x: "modbus_read api (lo - 1) q (getTableType (r_Args p0)) s = (s1, x)" by fastforce
    have "no_nil (rbind (wrap_err ''batch read failed for type %s: %w'' [getTableType (r_Args p0)] x) (assign_any I ps lo))"
      using modbus_read_usable [OF assms(1) x] by (auto intro: no_nil_rbind)
    then show ?thesis using assms modbus_read_usable [OF assms(1) x] x Ok span Cons
      by (auto simp: modbus_ReadBatch_def Let_def split: result.splits)
  qed (use assms Ok span in \<open>auto simp: modbus_ReadBatch_def\<close>)
next
  case (Panic m)
  then show ?thesis using assms no_nil_case [OF Panic] by (auto simp: modbus_ReadBatch_def)
qed (use assms in \<open>auto simp: modbus_ReadBatch_def\<close>)

lemma modbus_WriteSingle_usable:
  "modbus_usable s \<Longrightarrow> modbus_WriteSingle I api s res = (s', r) \<Longrightarrow> modbus_usable s' \<and> no_nil r"
  by (auto simp: modbus_WriteSingle_def Let_def wrap_err_Panic_iff no_nil_total dest: modbus_call_usable
      split: result.splits if_splits list.splits)



lemma modbus_WriteBatch_usable:
  assumes "modbus_usable s" and "modbus_WriteBatch I api s ps = (s', r)"
  shows "modbus_usable s' \<and> no_nil r"
proof -
  have "modbus_usable (fst (modbus_call f s)) \<and> no_nil (snd (modbus_call f s))" for f
    using modbus_call_usable [OF assms(1)] by (metis prod.collapse)
  with assms(1) have "modbus_usable (fst (modbus_WriteBatch I api s ps)) \<and> no_nil (snd (modbus_WriteBatch I api s ps))"
    by (auto simp: modbus_WriteBatch_def Let_def split: result.split list.split)
  with assms(2) show ?thesis by simp
qed

lemma modbus_Connect_no_nil: "modbus_Connect api s = (s', r) \<Longrightarrow> no_nil r"
  by (auto simp: modbus_Connect_def modbus_newClient_def modbus_open_def split: prod.splits option.splits sum.splits)

interpretation modbus_rw: rw_client "modbus_Connect api" "modbus_Disconnect api" "\<lambda>s. mc_connected (fst s)"
    "modbus_ReadSingle I api" "modbus_ReadBatch I api" "modbus_WriteSingle I api" "modbus_WriteBatch I api" modbus_usable True
  for I api
  by unfold_locales (simp_all, (fact modbus_Connect_no_nil modbus_Connect_usable modbus_ReadSingle_usable modbus_ReadBatch_usable modbus_WriteSingle_usable modbus_WriteBatch_usable)+)

section \<open>Batch reads and single reads agree\<close>

text \<open>
  A device is described by the contents of its four tables (0-based). \<open>serves\<close> states what the
  protocol promises of reads: within the limits of a request (at most 125 registers, inside the
  address space) the answer is that part of the table. \<open>W\<close> are the states of the world in which
  the device has these contents; a read stays among them.
\<close>

record modbus_memory =
  mm_holding :: "nat \<Rightarrow> 16 word"
  mm_input :: "nat \<Rightarrow> 16 word"
  mm_coils :: "nat \<Rightarrow> bool"
  mm_discretes :: "nat \<Rightarrow> bool"

definition cells :: "(nat \<Rightarrow> 'a) \<Rightarrow> nat \<Rightarrow> nat \<Rightarrow> 'a list" where
  "cells f a n = map f [a ..< a + n]"

lemma length_cells [simp]: "length (cells f a n) = n"
  by (simp add: cells_def)












text \<open>The conditions under which a batch is one request to one table.\<close>

definition one_table :: "go_impl \<Rightarrow> tableType \<Rightarrow> resource list \<Rightarrow> bool" where
  "one_table I tt ps \<longleftrightarrow> (\<forall>p \<in> set ps. placed I p \<and> 0 < addr_of I p \<and> 0 < r_Length p \<and> getTableType (r_Args p) = tt)"










text \<open>A device that serves the reads, and points on it.\<close>

definition memory_api :: "modbus_memory \<Rightarrow> unit modbus_api" where
  "memory_api mem = \<lparr>mb_NewClient = (\<lambda>_ w. (w, Inr 0)), mb_Open = (\<lambda>_ w. (w, Inr ())), mb_Close = (\<lambda>_ w. (w, Inr ())),
     mb_ReadRegisters = (\<lambda>_ a q t w. (w, Inr (case t of
         HOLDING_REGISTER \<Rightarrow> cells (mm_holding mem) (unat a) (unat q)
       | INPUT_REGISTER \<Rightarrow> cells (mm_input mem) (unat a) (unat q)))),
     mb_ReadCoils = (\<lambda>_ a q w. (w, Inr (cells (mm_coils mem) (unat a) (unat q)))),
     mb_ReadDiscreteInputs = (\<lambda>_ a q w. (w, Inr (cells (mm_discretes mem) (unat a) (unat q)))),
     mb_WriteRegister = (\<lambda>_ _ _ w. (w, Inr ())), mb_WriteRegisters = (\<lambda>_ _ _ w. (w, Inr ())),
     mb_WriteCoil = (\<lambda>_ _ _ w. (w, Inr ())), mb_WriteCoils = (\<lambda>_ _ _ w. (w, Inr ()))\<rparr>"


definition holding_point :: "int \<Rightarrow> 16 word \<Rightarrow> goval \<Rightarrow> resource" where
  "holding_point a n v = \<lparr>r_Name = ''p'', r_Address = VFloat64 (f64_of_int a), r_Length = n, r_Value = v,
     r_Type = ''Uint16'', r_Decoder = [], r_Encoder = [], r_Args = None\<rparr>"

lemma holding_point_simps [simp]:
  "r_Length (holding_point a n v) = n" "r_Value (holding_point a n v) = v"
  "getTableType (r_Args (holding_point a n v)) = tableHoldingRegisters"
  by (simp_all add: holding_point_def getTableType_def)

lemma holding_point_addr [simp]:
  assumes "0 \<le> a" and "a < 65536"
  shows "float_addr I (r_Address (holding_point a n v)) = Ok (word_of_int a)"
    and "addr_of I (holding_point a n v) = word_of_int a"
    and "addressed I (holding_point a n v)"
  using assms by (simp_all add: holding_point_def addressed_def addr_of_def float_addr_def fval_to_uint_of_int)

definition idle_client :: "modbus_client" where
  "idle_client = \<lparr>mc_EndPoint = ''tcp://plc:502'', mc_ProtocolType = ModbusTCP, mc_Timeout = 0,
     mc_BaudRate = 0, mc_DataBits = 8, mc_StopBits = 1, mc_Parity = 0, mc_connected = True, mc_client = Some 0\<rparr>"


section \<open>Writes\<close>

lemma getTableType_cases:
  "getTableType args \<in> {tableCoils, tableDiscretes, tableHoldingRegisters, tableInputRegisters}"
  by (auto simp: getTableType_def split: option.splits goval.splits)

text \<open>
  The read-only tables are never written: a write to discrete inputs or input registers leaves
  client and device untouched and does not report success, for single points and for batches.
\<close>

theorem modbus_read_only_tables:
  assumes "tt = tableDiscretes \<or> tt = tableInputRegisters"
  shows "(getTableType (r_Args res) = tt \<longrightarrow>
      fst (modbus_WriteSingle I api s res) = s \<and> snd (modbus_WriteSingle I api s res) \<noteq> Ok ()) \<and>
    (getTableType (r_Args (hd ps)) = tt \<longrightarrow>
      fst (modbus_WriteBatch I api s ps) = s \<and> snd (modbus_WriteBatch I api s ps) \<noteq> Ok ())"
proof -
  have "fst (modbus_WriteSingle I api s res) = s \<and> snd (modbus_WriteSingle I api s res) \<noteq> Ok ()"
    if "getTableType (r_Args res) = tt"
    using assms that by (auto simp: modbus_WriteSingle_def split: result.splits)
  moreover have "fst (modbus_WriteBatch I api s ps) = s \<and> snd (modbus_WriteBatch I api s ps) \<noteq> Ok ()"
    if "getTableType (r_Args (hd ps)) = tt"
    using assms that by (cases ps) (auto simp: modbus_WriteBatch_def split: result.splits)
  ultimately show ?thesis by blast
qed

theorem modbus_read_only_tables_witness:
  "\<forall>I api s. snd (modbus_WriteSingle I api s ((holding_point 3 1 VNil)
     \<lparr>r_Args := Some [''primaryTable'' \<mapsto> VString ''DISCRETES'']\<rparr>)) \<noteq> Ok ()"
proof (intro allI)
  fix I api s
  let ?p = "(holding_point 3 1 VNil)\<lparr>r_Args := Some [''primaryTable'' \<mapsto> VString ''DISCRETES'']\<rparr>"
  have "getTableType (r_Args ?p) = tableDiscretes" by (simp add: getTableType_def table_defs)
  then show "snd (modbus_WriteSingle I api s ?p) \<noteq> Ok ()"
    using modbus_read_only_tables [of tableDiscretes ?p I api s "[]"] by simp
qed

text \<open>The register values of the points, and points that follow one another without a gap.\<close>

definition reg_values :: "resource list \<Rightarrow> 16 word list list \<Rightarrow> bool" where
  "reg_values ps us \<longleftrightarrow> list_all2 (\<lambda>p u. ToUint16Slice (r_Value p) = Ok u \<and> length u = unat (r_Length p)) ps us"


lemma toUint16SliceBatch_values: "reg_values ps us \<Longrightarrow> toUint16SliceBatch ps = Ok (concat us)"
  unfolding reg_values_def toUint16SliceBatch_def
  by (induction rule: list_all2_induct) (auto simp: rmap_Ok_iff rbind_Ok_iff wrap_err_Ok_iff)



lemma modbus_WriteBatch_holding:
  assumes "ps \<noteq> []" and "one_table I tableHoldingRegisters ps" and "reg_values ps us"
  shows "\<exists>m. unat m = Min (first_reg I ` set ps) \<and>
    modbus_WriteBatch I api s ps = modbus_call (\<lambda>h. mb_WriteRegisters api h (m - 1) (concat us)) s"
proof -
  obtain p0 ps' where ps: "ps = p0 # ps'" using assms(1) by (cases ps) auto
  have "\<forall>p \<in> set ps. placed I p" using assms(2) by (simp add: one_table_def)
  from batch_span_min_max [OF assms(1) this] obtain m q where
    "calculateBatchSpan I ps = Ok (m, q)" "unat m = Min (first_reg I ` set ps)" by blast
  moreover have "getTableType (r_Args p0) = tableHoldingRegisters" using assms(2) ps by (simp add: one_table_def)
  ultimately show ?thesis using toUint16SliceBatch_values [OF assms(3)] ps
    by (intro exI [of _ m]) (simp add: modbus_WriteBatch_def)
qed



lemma holding_point_placed:
  assumes "0 < a" and "a < 65535"
  shows "placed I (holding_point a 1 v)" and "0 < addr_of I (holding_point a 1 v)"
    and "first_reg I (holding_point a 1 v) = nat a" and "end_reg I (holding_point a 1 v) = nat a + 1"
  using assms by (simp_all add: placed_def first_reg_def end_reg_def unsigned_of_int word_less_nat_alt
      take_bit_int_eq_self nat_less_iff)


text \<open>
  C34: a batch write does not look at the points' distances or order: two registers are written as
  neighbours from the smaller address on, whatever their own addresses are.
\<close>

theorem modbus_batch_write_ignores_gaps:
  assumes "one_table I tableHoldingRegisters [p, q]" and "reg_values [p, q] [[u], [v]]"
  shows "modbus_WriteBatch I api s [p, q] = modbus_call (\<lambda>h. mb_WriteRegisters api h
    (min (addr_of I p) (addr_of I q) - 1) [u, v]) s"
proof -
  obtain m where m: "unat m = Min (first_reg I ` set [p, q])"
    "modbus_WriteBatch I api s [p, q] = modbus_call (\<lambda>h. mb_WriteRegisters api h (m - 1) (concat [[u], [v]])) s"
    using modbus_WriteBatch_holding [OF _ assms] by blast
  have "unat m = unat (min (addr_of I p) (addr_of I q))"
    using m(1) by (simp add: first_reg_def min_def word_le_nat_alt)
  then have "m = min (addr_of I p) (addr_of I q)" by (metis word_unat_eq_iff)
  then show ?thesis using m(2) by simp
qed

theorem modbus_batch_write_ignores_gaps_witness:
  "\<forall>I api s. modbus_WriteBatch I api s [holding_point 10 1 (VUint16 0xAA), holding_point 13 1 (VUint16 0xDD)] =
     modbus_call (\<lambda>h. mb_WriteRegisters api h 9 [0xAA, 0xDD]) s"
proof (intro allI)
  fix I api s
  let ?p = "holding_point 10 1 (VUint16 0xAA)" and ?q = "holding_point 13 1 (VUint16 0xDD)"
  have "reg_values [?p, ?q] [[0xAA], [0xDD]]" by (simp add: reg_values_def ToUint16Slice_def)
  moreover have "one_table I tableHoldingRegisters [?p, ?q]"
    by (simp add: one_table_def holding_point_placed)
  ultimately show "modbus_WriteBatch I api s [?p, ?q] = modbus_call (\<lambda>h. mb_WriteRegisters api h 9 [0xAA, 0xDD]) s"
    using modbus_batch_write_ignores_gaps [of I ?p ?q "0xAA" "0xDD" api s] by (simp add: min_def)
qed

text \<open>
  A first connection whose \<open>Open\<close> fails is reported as an error, but leaves the client marked as
  connected, with the unopened connection stored for the next attempt.
\<close>

lemma modbus_failed_open_stays_connected:
  assumes "mc_client m = None" and "mb_NewClient api (modbus_client_config m) w = (w1, Inr h)"
    and "mb_Open api h w1 = (w2, Inl e)"
  shows "modbus_Connect api (m, w) = ((m\<lparr>mc_connected := True, mc_client := Some h\<rparr>, w2),
    Err (Wrapf ''failed to connect to device: %w'' [] e))"
  using assms by (simp add: modbus_Connect_def modbus_newClient_def modbus_open_def)

text \<open>
  C37: a point of length 0 inside the span of a batch makes the whole read panic (an index out of
  range), although the device answered.
\<close>

theorem modbus_zero_length_panics:
  assumes "calculateBatchSpan I ps = Ok (a, q)" and "ps \<noteq> []"
    and "modbus_read api (a - 1) q (getTableType (r_Args (hd ps))) s = (s', Ok (VUint16s regs))"
    and "p \<in> set ps" and "r_Length p = 0" and "addressed I p" and "unat (addr_of I p - a) \<le> length regs"
  shows "\<exists>msg. modbus_ReadBatch I api s ps = (s', ps, Panic msg)"
proof -
  have "assign_point I VUint16s a regs p = index_panic"
    using assms(5-7) by (simp add: assign_point_def addressed_def go_slice_def extractRegisterValue_def index_panic_def)
  moreover have "assign_point I VUint16s a regs x \<noteq> Err e" for x e
    by (cases "r_Address x") (auto simp: assign_point_def float_addr_def go_slice_def extractRegisterValue_def
        index_panic_def assert_panic_def Let_def split: list.splits)
  ultimately have "\<exists>msg. traverse (assign_point I VUint16s a regs) ps = Panic msg"
    using assms(4)
  proof (induction ps)
    case (Cons x xs)
    then show ?case by (cases "assign_point I VUint16s a regs x") (auto simp: index_panic_def)
  qed simp
  then obtain msg where "assign_any I ps a (VUint16s regs) = Panic msg"
    by (auto simp: assign_any_def assignResValues_def)
  then show ?thesis using assms(1-3) by (cases ps) (auto simp: modbus_ReadBatch_def)
qed

theorem modbus_zero_length_panics_witness:
  "\<forall>I mem. \<exists>msg. snd (snd (modbus_ReadBatch I (memory_api mem) (idle_client, ())
     [holding_point 7 1 VNil, holding_point 8 0 VNil])) = Panic msg"
proof (intro allI)
  fix I mem
  let ?ps = "[holding_point 7 1 VNil, holding_point 8 0 VNil]" and ?s = "(idle_client, ())"
  have "calculateBatchSpan I ?ps = Ok (7, 1)" by (simp add: calculateBatchSpan_def Let_def)
  moreover have "modbus_read (memory_api mem) 6 1 tableHoldingRegisters ?s = (?s, Ok (VUint16s [mm_holding mem 6]))"
    by (simp add: modbus_read_def idle_client_def memory_api_def cells_def)
  ultimately have "\<exists>msg. modbus_ReadBatch I (memory_api mem) ?s ?ps = (?s, ?ps, Panic msg)"
    by (intro modbus_zero_length_panics [where p = "holding_point 8 0 VNil"]) auto
  then show "\<exists>msg. snd (snd (modbus_ReadBatch I (memory_api mem) ?s ?ps)) = Panic msg" by force
qed

end
