(* ===== verification/Snmp.thy ===== *)
theory Snmp
  imports Connector
begin

text \<open>
  \<open>pkg/adapter/snmp/snmp.go\<close>: the SNMP v1/v2c/v3 adapter. A \<open>gosnmp.GoSNMP\<close> object is a handle
  into an abstract world \<open>'w\<close>; \<open>sn_alloc\<close> is the allocation of the object with its configuration and
  \<open>sn_Conn\<close> tells whether its \<open>Conn\<close> field is set. The wrapper \<open>gosnmpSession\<close> is modelled.
\<close>

section \<open>Data\<close>

datatype asn1ber = Integer | OctetString | Gauge32 | Counter64 | OpaqueFloat | OpaqueDouble | OtherBER "8 word"

record snmp_pdu =
  pdu_Name :: string
  pdu_Type :: asn1ber
  pdu_Value :: goval

datatype snmp_version = Version1 | Version2c | Version3

datatype auth_protocol = NoAuth | MD5 | SHA | SHA256 | SHA384 | SHA512
datatype priv_protocol = NoPriv | DES | AES | AES192 | AES256 | AES256C

record usm_parameters =
  usm_UserName :: string
  usm_AuthenticationProtocol :: auth_protocol
  usm_AuthenticationPassphrase :: string
  usm_PrivacyProtocol :: priv_protocol
  usm_PrivacyPassphrase :: string

record gosnmp =
  gs_Target :: string
  gs_Port :: "16 word"
  gs_Transport :: string
  gs_Version :: snmp_version
  gs_Timeout :: duration
  gs_Retries :: nat
  gs_Community :: string
  gs_UserSecurityModel :: bool
  gs_AuthPriv :: bool
  gs_SecurityParameters :: "usm_parameters option"

record 'w snmp_api =
  sn_alloc :: "gosnmp \<Rightarrow> 'w \<Rightarrow> 'w \<times> nat"
  sn_Connect :: "nat \<Rightarrow> 'w \<Rightarrow> 'w \<times> unit answer"
  sn_Get :: "nat \<Rightarrow> string list \<Rightarrow> 'w \<Rightarrow> 'w \<times> snmp_pdu list answer"
  sn_Set :: "nat \<Rightarrow> snmp_pdu list \<Rightarrow> 'w \<Rightarrow> 'w \<times> snmp_pdu list answer"
  sn_Conn :: "nat \<Rightarrow> 'w \<Rightarrow> bool"
  sn_ConnClose :: "nat \<Rightarrow> 'w \<Rightarrow> 'w \<times> unit answer"

record snmp_client =
  sc_Target :: string
  sc_Transport :: string
  sc_EndPoint :: string
  sc_ProtocolType :: protocol_type
  sc_Timeout :: duration
  sc_Version :: snmp_version
  sc_Community :: string
  sc_V3Params :: "usm_parameters option"
  sc_Port :: "16 word"
  sc_connected :: bool
  sc_client :: "nat option"

type_synonym 'w snmp_state = "snmp_client \<times> 'w"

section \<open>Construction\<close>

definition parseAuthProtocol :: "string \<Rightarrow> auth_protocol" where
  "parseAuthProtocol name =
     (if name = ''MD5'' then MD5 else if name = ''SHA'' then SHA else if name = ''SHA256'' then SHA256
      else if name = ''SHA384'' then SHA384 else if name = ''SHA512'' then SHA512 else SHA256)"

definition parsePrivProtocol :: "string \<Rightarrow> priv_protocol" where
  "parsePrivProtocol name =
     (if name = ''DES'' then DES else if name = ''AES'' then AES else if name = ''AES192'' then AES192
      else if name = ''AES256'' then AES256 else if name = ''AES256C'' then AES256C else AES256)"

definition usm_zero :: usm_parameters where
  "usm_zero = \<lparr>usm_UserName = [], usm_AuthenticationProtocol = NoAuth, usm_AuthenticationPassphrase = [],
     usm_PrivacyProtocol = NoPriv, usm_PrivacyPassphrase = []\<rparr>"

text \<open>\<open>if v, ok := args[key]; ok { x = f(v) }\<close>, and the variant that skips an empty value.\<close>

definition arg_set :: "(string \<rightharpoonup> string) \<Rightarrow> string \<Rightarrow> (string \<Rightarrow> 'a) \<Rightarrow> 'a \<Rightarrow> 'a" where
  "arg_set args key f x = (case args key of None \<Rightarrow> x | Some v \<Rightarrow> f v)"

definition arg_nonempty :: "(string \<rightharpoonup> string) \<Rightarrow> string \<Rightarrow> string \<Rightarrow> string" where
  "arg_nonempty args key x = (case args key of None \<Rightarrow> x | Some v \<Rightarrow> if v = [] then x else v)"

definition snmp_v3_params :: "(string \<rightharpoonup> string) \<Rightarrow> usm_parameters" where
  "snmp_v3_params args =
     \<lparr>usm_UserName = arg_set args ''UserName'' (\<lambda>v. v) (usm_UserName usm_zero),
      usm_AuthenticationProtocol = arg_set args ''AuthProtocol'' parseAuthProtocol (usm_AuthenticationProtocol usm_zero),
      usm_AuthenticationPassphrase = arg_set args ''AuthPassphrase'' (\<lambda>v. v) (usm_AuthenticationPassphrase usm_zero),
      usm_PrivacyProtocol = arg_set args ''PrivProtocol'' parsePrivProtocol (usm_PrivacyProtocol usm_zero),
      usm_PrivacyPassphrase = arg_set args ''PrivPassphrase'' (\<lambda>v. v) (usm_PrivacyPassphrase usm_zero)\<rparr>"

definition NewSnmpClient ::
  "go_impl \<Rightarrow> string \<Rightarrow> protocol_type \<Rightarrow> duration \<Rightarrow> properties \<Rightarrow> snmp_client result" where
  "NewSnmpClient I endpoint pt defaultTimeout args = (case args of
       None \<Rightarrow> Err (Errorf ''snmp client args is nil'' [])
     | Some m \<Rightarrow>
        (let version = arg_set m ''SnmpVersion'' (\<lambda>v.
               if v = ''v1'' then Version1 else if v = ''v2c'' then Version2c
               else if v = ''v3'' then Version3 else Version2c) Version2c
         in Ok \<lparr>sc_Target = arg_nonempty m ''Address'' [],
                sc_Transport = arg_nonempty m ''Transport'' ''udp'',
                sc_EndPoint = endpoint, sc_ProtocolType = pt, sc_Timeout = defaultTimeout,
                sc_Version = version,
                sc_Community = arg_set m ''Community'' (\<lambda>v. v) ''public'',
                sc_V3Params = (if version = Version3 then Some (snmp_v3_params m) else None),
                sc_Port = arg_set m ''Port'' (\<lambda>v. case ToUint I (VString v) of
                    Some u \<Rightarrow> ucast u | None \<Rightarrow> 161) 161,
                sc_connected = False, sc_client = None\<rparr>))"

definition newSession :: "'w snmp_api \<Rightarrow> 'w snmp_state \<Rightarrow> 'w snmp_state \<times> nat result" where
  "newSession api s = (case s of (c, w) \<Rightarrow>
     (let g = \<lparr>gs_Target = sc_Target c, gs_Port = sc_Port c, gs_Transport = sc_Transport c,
               gs_Version = sc_Version c, gs_Timeout = sc_Timeout c, gs_Retries = 3,
               gs_Community = sc_Community c, gs_UserSecurityModel = False, gs_AuthPriv = False,
               gs_SecurityParameters = None\<rparr>;
          g' = (if sc_Version c = Version3
                then g\<lparr>gs_UserSecurityModel := True, gs_AuthPriv := True,
                       gs_SecurityParameters := Some (case sc_V3Params c of
                          Some u \<Rightarrow> u | None \<Rightarrow> usm_zero)\<rparr>
                else g)
      in case sn_alloc api g' w of (w', h) \<Rightarrow> ((c, w'), Ok h)))"

section \<open>Connection\<close>

text \<open>\<open>gosnmpSession.Close\<close>.\<close>

definition gosnmp_Close :: "'w snmp_api \<Rightarrow> nat \<Rightarrow> 'w \<Rightarrow> 'w \<times> unit answer" where
  "gosnmp_Close api h w = (if sn_Conn api h w then sn_ConnClose api h w else (w, Inr ()))"

definition snmp_open :: "'w snmp_api \<Rightarrow> nat \<Rightarrow> 'w snmp_state \<Rightarrow> 'w snmp_state \<times> unit result" where
  "snmp_open api h s = (case s of (c, w) \<Rightarrow>
     (case sn_Connect api h w of
        (w', Inl e) \<Rightarrow> ((c, w'), Err (Wrapf ''SNMP connect to %s:%d: %w'' [sc_Target c, show_nat (unat (sc_Port c))] e))
      | (w', Inr _) \<Rightarrow> ((c\<lparr>sc_connected := True\<rparr>, w'), Ok ())))"

definition snmp_Connect :: "'w snmp_api \<Rightarrow> 'w snmp_state \<Rightarrow> 'w snmp_state \<times> unit result" where
  "snmp_Connect api s = (case s of (c, w) \<Rightarrow>
     (case sc_client c of
        None \<Rightarrow> (case newSession api (c, w) of
            ((c', w'), Ok h) \<Rightarrow> snmp_open api h (c'\<lparr>sc_client := Some h\<rparr>, w')
          | (s', Err e) \<Rightarrow> (s', Err e)
          | (s', Panic p) \<Rightarrow> (s', Panic p))
      | Some h \<Rightarrow> if sc_connected c then (s, Ok ()) else snmp_open api h s))"

definition snmp_Disconnect :: "'w snmp_api \<Rightarrow> 'w snmp_state \<Rightarrow> 'w snmp_state \<times> unit result" where
  "snmp_Disconnect api s = (case s of (c, w) \<Rightarrow>
     (case sc_client c of
        None \<Rightarrow> ((c\<lparr>sc_connected := False\<rparr>, w), Ok ())
      | Some h \<Rightarrow> (case gosnmp_Close api h w of
            (w', Inl e) \<Rightarrow> ((c\<lparr>sc_connected := False, sc_client := None\<rparr>, w'), Err (Wrapf ''SNMP disconnect: %w'' [] e))
          | (w', Inr _) \<Rightarrow> ((c\<lparr>sc_connected := False\<rparr>, w'), Ok ()))))"

section \<open>Reading\<close>

definition toOIDString :: "goval \<Rightarrow> string result" where
  "toOIDString addr = (case addr of
       VString v \<Rightarrow> Ok v
     | VFloat64 v \<Rightarrow> Ok (sprint_f0 v)
     | _ \<Rightarrow> Err (Errorf ''SNMP address must be string or number, got %T'' [gotype addr]))"

text \<open>\<open>s.client.Get(oids)\<close>; a nil client panics.\<close>

definition snmp_get :: "'w snmp_api \<Rightarrow> string list \<Rightarrow> 'w snmp_state \<Rightarrow> 'w snmp_state \<times> snmp_pdu list result" where
  "snmp_get api oids s = (case s of (c, w) \<Rightarrow>
     (case sc_client c of
        None \<Rightarrow> (s, nil_panic)
      | Some h \<Rightarrow> (case sn_Get api h oids w of (w', a) \<Rightarrow> ((c, w'), of_answer a))))"

definition snmp_ReadSingle :: "go_impl \<Rightarrow> 'w snmp_api \<Rightarrow> 'w snmp_state read_single_fn" where
  "snmp_ReadSingle I api s res = (case wrap_err ''ReadSingle %s: %w'' [r_Name res] (toOIDString (r_Address res)) of
       Err e \<Rightarrow> (s, res, Err e)
     | Panic p \<Rightarrow> (s, res, Panic p)
     | Ok oid \<Rightarrow> (case snmp_get api [oid] s of
           ((c, w), Err e) \<Rightarrow> ((c\<lparr>sc_connected := False\<rparr>, w), res, Err (Wrapf ''SNMP Get %s: %w'' [oid] e))
         | (s', Panic p) \<Rightarrow> (s', res, Panic p)
         | (s', Ok []) \<Rightarrow> (s', res, Err (Errorf ''SNMP Get %s: no variables returned'' [oid]))
         | (s', Ok (pdu # _)) \<Rightarrow>
             (case wrap_err ''SNMP Get %s: %w'' [oid] (ValueToType I (pdu_Value pdu) (r_Type res)) of
                Ok val \<Rightarrow> (s', res\<lparr>r_Value := val\<rparr>, Ok ())
              | Err e \<Rightarrow> (s', res, Err e)
              | Panic p \<Rightarrow> (s', res, Panic p))))"

text \<open>
  The first loop of \<open>ReadBatch\<close>: the OIDs, and the map from an OID to the index of its point (a
  later point with the same OID overwrites an earlier one).
\<close>

definition batch_oids :: "resource list \<Rightarrow> string list result" where
  "batch_oids points = traverse (\<lambda>p. wrap_err ''ReadBatch %s: %w'' [r_Name p] (toOIDString (r_Address p))) points"

definition oid_index :: "string list \<Rightarrow> string \<rightharpoonup> nat" where
  "oid_index oids = foldl (\<lambda>m (i, oid). m(oid \<mapsto> i)) Map.empty (enumerate 0 oids)"

text \<open>The second loop: the answers are assigned until one cannot be converted.\<close>

fun assign_pdus ::
  "go_impl \<Rightarrow> (string \<rightharpoonup> nat) \<Rightarrow> snmp_pdu list \<Rightarrow> resource list \<Rightarrow> resource list \<times> unit result" where
  "assign_pdus I oidIndex [] points = (points, Ok ())"
| "assign_pdus I oidIndex (pdu # pdus) points =
     (case oidIndex (pdu_Name pdu) of
        None \<Rightarrow> assign_pdus I oidIndex pdus points
      | Some idx \<Rightarrow>
          (case wrap_err ''SNMP Get batch %s: %w'' [pdu_Name pdu]
                  (ValueToType I (pdu_Value pdu) (r_Type (points ! idx))) of
             Ok val \<Rightarrow> assign_pdus I oidIndex pdus (points[idx := (points ! idx)\<lparr>r_Value := val\<rparr>])
           | Err e \<Rightarrow> (points, Err e)
           | Panic p \<Rightarrow> (points, Panic p)))"

definition snmp_ReadBatch :: "go_impl \<Rightarrow> 'w snmp_api \<Rightarrow> 'w snmp_state read_batch_fn" where
  "snmp_ReadBatch I api s points =
     (if points = [] then (s, points, Ok ())
      else case batch_oids points of
             Err e \<Rightarrow> (s, points, Err e)
           | Panic p \<Rightarrow> (s, points, Panic p)
           | Ok oids \<Rightarrow> (case snmp_get api oids s of (s', r) \<Rightarrow>
               (case wrap_err ''SNMP Get batch: %w'' [] r of
                  Err e \<Rightarrow> (s', points, Err e)
                | Panic p \<Rightarrow> (s', points, Panic p)
                | Ok pdus \<Rightarrow> (case assign_pdus I (oid_index oids) pdus points of
                    (points', r') \<Rightarrow> (s', points', r')))))"

section \<open>Writing\<close>

definition goValueToSnmpPDU :: "go_impl \<Rightarrow> goval \<Rightarrow> (asn1ber \<times> goval) result" where
  "goValueToSnmpPDU I v = (case v of
       VInt val \<Rightarrow> Ok (Integer, VInt val)
     | VInt32 val \<Rightarrow> Ok (Integer, VInt (scast val))
     | VInt64 val \<Rightarrow> Ok (Counter64, VInt64 val)
     | VUint val \<Rightarrow> Ok (Gauge32, VUint32 (ucast val))
     | VUint32 val \<Rightarrow> Ok (Gauge32, VUint32 val)
     | VUint64 val \<Rightarrow> Ok (Counter64, VUint64 val)
     | VFloat32 val \<Rightarrow> Ok (OpaqueFloat, VFloat32 val)
     | VFloat64 val \<Rightarrow> Ok (OpaqueDouble, VFloat64 val)
     | VString val \<Rightarrow> Ok (OctetString, VBytes val)
     | VBytes val \<Rightarrow> Ok (OctetString, VBytes val)
     | VBool val \<Rightarrow> (if val then Ok (Integer, VInt 1) else Ok (Integer, VInt 0))
     | _ \<Rightarrow> Ok (OctetString, VBytes (sprint_v I v)))"

definition snmp_set :: "'w snmp_api \<Rightarrow> snmp_pdu list \<Rightarrow> 'w snmp_state \<Rightarrow> 'w snmp_state \<times> snmp_pdu list result" where
  "snmp_set api pdus s = (case s of (c, w) \<Rightarrow>
     (case sc_client c of
        None \<Rightarrow> (s, nil_panic)
      | Some h \<Rightarrow> (case sn_Set api h pdus w of (w', a) \<Rightarrow> ((c, w'), of_answer a))))"

text \<open>The PDU of a point; \<open>fn\<close> is the name of the calling method in the messages.\<close>

definition point_pdu :: "go_impl \<Rightarrow> string \<Rightarrow> resource \<Rightarrow> snmp_pdu result" where
  "point_pdu I fn p =
     rbind (wrap_err (fn @ '' %s: %w'') [r_Name p] (toOIDString (r_Address p))) (\<lambda>oid.
     rbind (wrap_err (fn @ '' %s: %w'') [r_Name p] (goValueToSnmpPDU I (r_Value p))) (\<lambda>(asn1Type, value).
     Ok \<lparr>pdu_Name = oid, pdu_Type = asn1Type, pdu_Value = value\<rparr>))"

definition snmp_WriteSingle :: "go_impl \<Rightarrow> 'w snmp_api \<Rightarrow> 'w snmp_state write_single_fn" where
  "snmp_WriteSingle I api s res = (case point_pdu I ''WriteSingle'' res of
       Err e \<Rightarrow> (s, Err e)
     | Panic p \<Rightarrow> (s, Panic p)
     | Ok pdu \<Rightarrow> (case snmp_set api [pdu] s of (s', r) \<Rightarrow>
         (s', rbind (wrap_err ''SNMP Set %s: %w'' [pdu_Name pdu] r) (\<lambda>_. Ok ()))))"

definition snmp_WriteBatch :: "go_impl \<Rightarrow> 'w snmp_api \<Rightarrow> 'w snmp_state write_batch_fn" where
  "snmp_WriteBatch I api s points =
     (if points = [] then (s, Ok ())
      else case traverse (point_pdu I ''WriteBatch'') points of
             Err e \<Rightarrow> (s, Err e)
           | Panic p \<Rightarrow> (s, Panic p)
           | Ok pdus \<Rightarrow> (case snmp_set api pdus s of (s', r) \<Rightarrow>
               (s', rbind (wrap_err ''SNMP Set batch: %w'' [] r) (\<lambda>_. Ok ()))))"

section \<open>The adapter keeps the interfaces' laws\<close>

lemma snmp_single_frame:
  "snmp_ReadSingle I api s res = (s', res', r) \<Longrightarrow> clear_value res' = clear_value res"
  by (auto simp: snmp_ReadSingle_def split: result.splits prod.splits list.splits)

lemma assign_pdus_frame:
  "assign_pdus I ix pdus ps = (ps', r) \<Longrightarrow> map clear_value ps' = map clear_value ps"
proof (induction I ix pdus ps arbitrary: ps' r rule: assign_pdus.induct)
  case (2 I ix pdu pdus ps)
  have upd: "map clear_value (ps[i := (ps ! i)\<lparr>r_Value := v\<rparr>]) = map clear_value ps" for i v
    by (cases "i < length ps") (auto simp: map_update list_update_same_conv list_update_beyond)
  show ?case using "2.prems" "2.IH" by (auto simp: upd split: option.splits result.splits)
qed simp

lemma snmp_batch_frame:
  "snmp_ReadBatch I api s ps = (s', ps', r) \<Longrightarrow> map clear_value ps' = map clear_value ps"
  by (auto simp: snmp_ReadBatch_def dest: assign_pdus_frame split: result.splits prod.splits if_splits)

interpretation snmp_reader: reader "snmp_ReadSingle I api" "snmp_ReadBatch I api" for I api
  by unfold_locales (rule snmp_single_frame snmp_batch_frame, assumption)+

lemma snmp_open_connects: "snmp_open api h s = (s', Ok ()) \<Longrightarrow> sc_connected (fst s') \<and> sc_client (fst s') = sc_client (fst s)"
  by (auto simp: snmp_open_def split: prod.splits sum.splits)

lemma snmp_connect_connects:
  "snmp_Connect api s = (s', Ok ()) \<Longrightarrow> sc_connected (fst s') \<and> sc_client (fst s') \<noteq> None"
  by (auto simp: snmp_Connect_def split: prod.splits option.splits result.splits if_splits
      dest!: snmp_open_connects)

lemma snmp_disconnects: "snmp_Disconnect api s = (s', r) \<Longrightarrow> \<not> sc_connected (fst s')"
  by (auto simp: snmp_Disconnect_def split: prod.splits option.splits sum.splits)

interpretation snmp_session: session "snmp_Connect api" "snmp_Disconnect api" "\<lambda>s. sc_connected (fst s)" for api
  by unfold_locales (use snmp_connect_connects snmp_disconnects in \<open>blast+\<close>)

section \<open>A connected client does not dereference nil\<close>

definition snmp_usable :: "'w snmp_state \<Rightarrow> bool" where
  "snmp_usable s \<longleftrightarrow> sc_client (fst s) \<noteq> None"

lemma snmp_get_usable: "snmp_get api oids s = (s', r) \<Longrightarrow> snmp_usable s' = snmp_usable s \<and> (snmp_usable s \<longrightarrow> no_nil r)"
  by (auto simp: snmp_usable_def snmp_get_def split: prod.splits option.splits)

lemma snmp_set_usable: "snmp_set api pdus s = (s', r) \<Longrightarrow> snmp_usable s' = snmp_usable s \<and> (snmp_usable s \<longrightarrow> no_nil r)"
  by (auto simp: snmp_usable_def snmp_set_def split: prod.splits option.splits)

lemma snmp_usable_mark [simp]: "snmp_usable (c\<lparr>sc_connected := b\<rparr>, w) = snmp_usable (c, w)"
  by (simp add: snmp_usable_def)

lemma toOIDString_no_nil [simp]: "no_nil (toOIDString a)"
  by (auto simp: toOIDString_def split: goval.split)

lemma batch_oids_no_nil [simp]: "no_nil (batch_oids ps)"
  by (simp add: batch_oids_def no_nil_traverse)

lemma assign_pdus_no_nil: "assign_pdus I ix pdus ps = (ps', r) \<Longrightarrow> no_nil r"
  by (induction I ix pdus ps rule: assign_pdus.induct) (auto split: option.splits result.splits)

lemma goValueToSnmpPDU_no_nil [simp]: "no_nil (goValueToSnmpPDU I v)"
  by (auto simp: goValueToSnmpPDU_def split: goval.split)

lemma point_pdu_no_nil [simp]: "no_nil (point_pdu I fn p)"
  by (auto simp: point_pdu_def intro!: no_nil_rbind)

lemma snmp_ReadSingle_usable:
  "snmp_usable s \<Longrightarrow> snmp_ReadSingle I api s p = (s', p', r) \<Longrightarrow> snmp_usable s' \<and> no_nil r"
  by (auto simp: snmp_ReadSingle_def split: result.splits prod.splits list.splits dest!: snmp_get_usable)

lemma snmp_ReadBatch_usable:
  "snmp_usable s \<Longrightarrow> snmp_ReadBatch I api s ps = (s', ps', r) \<Longrightarrow> snmp_usable s' \<and> no_nil r"
  by (auto simp: snmp_ReadBatch_def split: result.splits prod.splits if_splits
      dest!: snmp_get_usable dest: assign_pdus_no_nil)

lemma snmp_WriteSingle_usable:
  "snmp_usable s \<Longrightarrow> snmp_WriteSingle I api s p = (s', r) \<Longrightarrow> snmp_usable s' \<and> no_nil r"
  by (auto simp: snmp_WriteSingle_def split: result.splits prod.splits intro!: no_nil_rbind dest!: snmp_set_usable)

lemma snmp_WriteBatch_usable:
  "snmp_usable s \<Longrightarrow> snmp_WriteBatch I api s ps = (s', r) \<Longrightarrow> snmp_usable s' \<and> no_nil r"
  by (auto simp: snmp_WriteBatch_def no_nil_traverse split: result.splits prod.splits if_splits
      intro!: no_nil_rbind dest!: snmp_set_usable)

lemma snmp_Connect_usable: "snmp_Connect api s = (s', Ok ()) \<Longrightarrow> snmp_usable s'"
  using snmp_connect_connects [of api s s'] by (simp add: snmp_usable_def)

lemma snmp_Connect_no_nil: "snmp_Connect api s = (s', r) \<Longrightarrow> no_nil r"
  by (auto simp: snmp_Connect_def newSession_def snmp_open_def Let_def split: prod.splits option.splits sum.splits if_splits)

interpretation snmp_rw: rw_client "snmp_Connect api" "snmp_Disconnect api" "\<lambda>s. sc_connected (fst s)"
    "snmp_ReadSingle I api" "snmp_ReadBatch I api" "snmp_WriteSingle I api" "snmp_WriteBatch I api" snmp_usable True
  for I api
  by unfold_locales (simp_all, (fact snmp_Connect_no_nil snmp_Connect_usable snmp_ReadSingle_usable snmp_ReadBatch_usable snmp_WriteSingle_usable snmp_WriteBatch_usable)+)

section \<open>Which point gets which answer\<close>









definition snmp_world_api :: "(string \<rightharpoonup> goval) \<Rightarrow> nat snmp_api" where
  "snmp_world_api mib = \<lparr>sn_alloc = (\<lambda>_ w. (Suc w, w)), sn_Connect = (\<lambda>_ w. (w, Inr ())),
     sn_Get = (\<lambda>_ oids w. (w, Inr (map (\<lambda>n. \<lparr>pdu_Name = n, pdu_Type = Integer,
        pdu_Value = (case mib n of Some v \<Rightarrow> v | None \<Rightarrow> VNil)\<rparr>) oids))),
     sn_Set = (\<lambda>_ pdus w. (w, Inr pdus)), sn_Conn = (\<lambda>_ _. True), sn_ConnClose = (\<lambda>_ w. (w, Inr ()))\<rparr>"

definition snmp_idle :: "snmp_client" where
  "snmp_idle = \<lparr>sc_Target = ''agent'', sc_Transport = ''udp'', sc_EndPoint = ''agent:161'', sc_ProtocolType = SNMP,
     sc_Timeout = 0, sc_Version = Version2c, sc_Community = ''public'', sc_V3Params = None, sc_Port = 161,
     sc_connected = True, sc_client = Some 0\<rparr>"

definition oid_point :: "string \<Rightarrow> string \<Rightarrow> goval \<Rightarrow> resource" where
  "oid_point oid t v = \<lparr>r_Name = oid, r_Address = VString oid, r_Length = 0, r_Value = v,
     r_Type = t, r_Decoder = [], r_Encoder = [], r_Args = None\<rparr>"


lemma ucast_cast32 [simp]:
  "ucast (scast (w :: 32 word) :: 64 word) = w" "ucast (ucast (w :: 32 word) :: 64 word) = w"
  by (rule bit_word_eqI; auto simp: bit_simps)+

text \<open>
  What a variable sent with the Go type the SNMP package documents for its ASN.1 type comes back as: a
  \<open>Gauge32\<close> is sent as a \<open>uint32\<close> and answered as a \<open>uint\<close>, the others come back with the type they
  are sent with; an \<open>Integer\<close> has 32 bits.
\<close>

fun wire_value :: "asn1ber \<Rightarrow> goval \<Rightarrow> goval option" where
  "wire_value Integer (VInt i) = (if - (2 ^ 31) \<le> sint i \<and> sint i < 2 ^ 31 then Some (VInt i) else None)"
| "wire_value OctetString (VBytes b) = Some (VBytes b)"
| "wire_value Gauge32 (VUint32 u) = Some (VUint (ucast u))"
| "wire_value Counter64 (VUint64 u) = Some (VUint64 u)"
| "wire_value OpaqueFloat (VFloat32 f) = Some (VFloat32 f)"
| "wire_value OpaqueDouble (VFloat64 f) = Some (VFloat64 f)"
| "wire_value _ _ = None"

text \<open>An agent that keeps what it accepts: the next \<open>Get\<close> of the variable answers it.\<close>

definition agent_stores :: "'w snmp_api \<Rightarrow> nat \<Rightarrow> bool" where
  "agent_stores api h \<longleftrightarrow> (\<forall>oid ty val x w w1 r. wire_value ty val = Some x \<longrightarrow>
     sn_Set api h [\<lparr>pdu_Name = oid, pdu_Type = ty, pdu_Value = val\<rparr>] w = (w1, Inr r) \<longrightarrow>
     (\<exists>w2 n. sn_Get api h [oid] w1 = (w2, Inr [\<lparr>pdu_Name = n, pdu_Type = ty, pdu_Value = x\<rparr>])))"

lemma sint_scast32: "- (2 ^ 31) \<le> sint (scast (i :: 32 word) :: 64 word) \<and> sint (scast i :: 64 word) < 2 ^ 31"
proof -
  have "sint (scast i :: 64 word) = sint i" by (simp add: sint_up_scast is_up)
  then show ?thesis using sint_greater_eq [of i] sint_less [of i] by simp
qed

lemma pdu_wire:
  assumes "edgex_gotype t = Some (gotype v)" and "\<forall>n x. v \<noteq> VOther n x" and "t \<noteq> ''Int64''"
    and "\<forall>f. v = VFloat32 f \<longrightarrow> f32_val f \<noteq> NaN"
  obtains ty val x where "goValueToSnmpPDU I v = Ok (ty, val)" "wire_value ty val = Some x"
    "if t \<in> {''Uint8'', ''Uint16'', ''Int8'', ''Int16''} then \<exists>e. ValueToType I x t = Err e else ValueToType I x t = Ok v"
proof (cases v)
  case (VInt32 i)
  then have "t = ''Int32''" using assms(1) by (auto simp: edgex_gotype_def split: if_splits)
  then show thesis using that [of Integer "VInt (scast i)"] VInt32 sint_scast32 [of i]
    by (simp add: goValueToSnmpPDU_def value_to_type_defs toInt64_def)
next
  case (VFloat32 f)
  then have "t = ''Float32''" using assms(1) by (auto simp: edgex_gotype_def split: if_splits)
  then show thesis using that [of OpaqueFloat "VFloat32 f"] VFloat32 assms(4)
    by (simp add: goValueToSnmpPDU_def value_to_type_defs toFloat32_def toFloat64_def f32_of_f64_of_f32)
next
  case (VUint32 u)
  then have "t = ''Uint32''" using assms(1) by (auto simp: edgex_gotype_def split: if_splits)
  then show thesis using that [of Gauge32 "VUint32 u"] VUint32
    by (simp add: goValueToSnmpPDU_def value_to_type_defs toUint64_def)
next
  case (VBool b)
  then have "t = ''Bool''" using assms(1) by (auto simp: edgex_gotype_def split: if_splits)
  then show thesis using that [of Integer "VInt 1"] that [of Integer "VInt 0"] VBool
    by (cases b) (simp_all add: goValueToSnmpPDU_def value_to_type_defs toBool_def)
next
  case (VOther n x)
  then show thesis using assms(2) by blast
qed (use assms(1,3) that in \<open>auto simp: edgex_gotype_def goValueToSnmpPDU_def value_to_type_defs toInt64_def
    toUint64_def toFloat64_def toString_def toBinary_def split: if_splits\<close>)

text \<open>
  C21: writing a value of the point's own type with \<open>WriteSingle\<close> and, when that succeeds, reading the
  point with \<open>ReadSingle\<close> gives the value again, for an agent that keeps what it accepts, except for
  the 8- and 16-bit integer types: these are sent as decimal text, and reading them back is an error.
  (\<open>Int64\<close> is left out: it is sent as an \<open>int64\<close> under \<open>Counter64\<close>, which is not a pair the package
  documents. So is the NaN of a \<open>Float32\<close>, whose bits are not kept.)
\<close>

theorem snmp_write_read_roundtrip:
  assumes "agent_stores api h" and "sc_client c = Some h"
    and "edgex_gotype (r_Type p) = Some (gotype (r_Value p))" and "\<forall>n x. r_Value p \<noteq> VOther n x"
    and "r_Type p \<noteq> ''Int64''" and "\<forall>f. r_Value p = VFloat32 f \<longrightarrow> f32_val f \<noteq> NaN"
    and "snmp_WriteSingle I api (c, w) p = (s, Ok ())"
  shows "\<exists>s' q r. snmp_ReadSingle I api s (p\<lparr>r_Value := v0\<rparr>) = (s', q, r) \<and>
    (if r_Type p \<in> {''Uint8'', ''Uint16'', ''Int8'', ''Int16''} then \<exists>e. r = Err e else r = Ok () \<and> q = p)"
proof -
  obtain ty val x where v: "goValueToSnmpPDU I (r_Value p) = Ok (ty, val)" "wire_value ty val = Some x"
    "if r_Type p \<in> {''Uint8'', ''Uint16'', ''Int8'', ''Int16''} then \<exists>e. ValueToType I x (r_Type p) = Err e
     else ValueToType I x (r_Type p) = Ok (r_Value p)"
    by (rule pdu_wire [OF assms(3-6)])
  obtain oid where oid: "toOIDString (r_Address p) = Ok oid"
    using assms(7) by (auto simp: snmp_WriteSingle_def point_pdu_def rbind_Ok_iff wrap_err_Ok_iff split: result.splits)
  let ?d = "\<lparr>pdu_Name = oid, pdu_Type = ty, pdu_Value = val\<rparr>"
  have d: "point_pdu I ''WriteSingle'' p = Ok ?d" using oid v(1) by (simp add: point_pdu_def)
  obtain w1 a where a: "sn_Set api h [?d] w = (w1, a)" by fastforce
  have "s = (c, w1)" "\<exists>r. a = Inr r" using assms(2,7) d a
    by (auto simp: snmp_WriteSingle_def snmp_set_def rbind_Ok_iff wrap_err_Ok_iff of_answer_iff)
  moreover from this a assms(1) v(2) obtain w2 n where
    "sn_Get api h [oid] w1 = (w2, Inr [\<lparr>pdu_Name = n, pdu_Type = ty, pdu_Value = x\<rparr>])"
    unfolding agent_stores_def by blast
  ultimately have "snmp_ReadSingle I api s (p\<lparr>r_Value := v0\<rparr>) =
      (case wrap_err ''SNMP Get %s: %w'' [oid] (ValueToType I x (r_Type p)) of
         Ok y \<Rightarrow> ((c, w2), p\<lparr>r_Value := v0, r_Value := y\<rparr>, Ok ())
       | Err e \<Rightarrow> ((c, w2), p\<lparr>r_Value := v0\<rparr>, Err e)
       | Panic m \<Rightarrow> ((c, w2), p\<lparr>r_Value := v0\<rparr>, Panic m))"
    using assms(2) oid by (simp add: snmp_ReadSingle_def snmp_get_def)
  then show ?thesis using v(3) by (cases p) (auto split: if_splits)
qed

text \<open>An agent with a map from OIDs to variables.\<close>

definition snmp_store_api :: "(string \<rightharpoonup> asn1ber \<times> goval) snmp_api" where
  "snmp_store_api = \<lparr>sn_alloc = (\<lambda>_ w. (w, 0)), sn_Connect = (\<lambda>_ w. (w, Inr ())),
     sn_Get = (\<lambda>_ oids w. (w, Inr (map (\<lambda>n. case w n of
        Some (ty, v) \<Rightarrow> \<lparr>pdu_Name = n, pdu_Type = ty, pdu_Value = v\<rparr>
      | None \<Rightarrow> \<lparr>pdu_Name = n, pdu_Type = OtherBER 5, pdu_Value = VNil\<rparr>) oids))),
     sn_Set = (\<lambda>_ pdus w. (foldl (\<lambda>m d. case wire_value (pdu_Type d) (pdu_Value d) of
        Some x \<Rightarrow> m(pdu_Name d \<mapsto> (pdu_Type d, x)) | None \<Rightarrow> m) w pdus, Inr pdus)),
     sn_Conn = (\<lambda>_ _. True), sn_ConnClose = (\<lambda>_ w. (w, Inr ()))\<rparr>"

theorem snmp_write_read_roundtrip_witness:
  "\<forall>I. \<exists>s' s. snmp_WriteSingle I snmp_store_api (snmp_idle, Map.empty) (oid_point ''1.3'' ''Uint32'' (VUint32 5)) = (s, Ok ()) \<and>
     snmp_ReadSingle I snmp_store_api s (oid_point ''1.3'' ''Uint32'' VNil) =
       (s', oid_point ''1.3'' ''Uint32'' (VUint32 5), Ok ())"
proof
  fix I
  let ?p = "oid_point ''1.3'' ''Uint32'' (VUint32 5)"
  have stores: "agent_stores snmp_store_api 0" by (auto simp: agent_stores_def snmp_store_api_def)
  have "\<exists>s. snmp_WriteSingle I snmp_store_api (snmp_idle, Map.empty) ?p = (s, Ok ())"
    by (simp add: snmp_WriteSingle_def point_pdu_def oid_point_def toOIDString_def goValueToSnmpPDU_def snmp_set_def
        snmp_idle_def snmp_store_api_def)
  then obtain s where s: "snmp_WriteSingle I snmp_store_api (snmp_idle, Map.empty) ?p = (s, Ok ())" by blast
  from snmp_write_read_roundtrip [OF stores _ _ _ _ _ s, of VNil] s
  show "\<exists>s' s. snmp_WriteSingle I snmp_store_api (snmp_idle, Map.empty) ?p = (s, Ok ()) \<and>
      snmp_ReadSingle I snmp_store_api s (oid_point ''1.3'' ''Uint32'' VNil) = (s', ?p, Ok ())"
    by (auto simp: oid_point_def snmp_idle_def edgex_gotype_def)
qed

lemma goValueToSnmpPDU_total: "\<exists>x. goValueToSnmpPDU I v = Ok x"
  by (cases v) (auto simp: goValueToSnmpPDU_def)

lemma point_pdu_address:
  "(\<exists>pdu. point_pdu I fn p = Ok pdu) \<longleftrightarrow> (\<exists>oid. toOIDString (r_Address p) = Ok oid)"
  using goValueToSnmpPDU_total [of I "r_Value p"]
  by (auto simp: point_pdu_def rbind_Ok_iff wrap_err_Ok_iff)

lemma toOIDString_no_panic [simp]: "toOIDString a \<noteq> Panic m"
  by (cases a) (auto simp: toOIDString_def)

text \<open>
  C30: a batch write of a connected client is one \<open>Set\<close> request carrying one variable per point in the
  points' order, and succeeds exactly when that does, or,
  when some point's address is no OID, an error without any request.
\<close>

theorem snmp_batch_write_atomic:
  assumes "sc_client c = Some h" and "ps \<noteq> []"
  shows "if \<forall>p \<in> set ps. \<exists>oid. toOIDString (r_Address p) = Ok oid
    then \<exists>pdus. list_all2 (\<lambda>p d. point_pdu I ''WriteBatch'' p = Ok d) ps pdus \<and>
      fst (snmp_WriteBatch I api (c, w) ps) = (c, fst (sn_Set api h pdus w)) \<and>
      (snd (snmp_WriteBatch I api (c, w) ps) = Ok () \<longleftrightarrow> \<not> isl (snd (sn_Set api h pdus w)))
    else fst (snmp_WriteBatch I api (c, w) ps) = (c, w) \<and> (\<exists>e. snd (snmp_WriteBatch I api (c, w) ps) = Err e)"
proof (cases "\<forall>p \<in> set ps. \<exists>oid. toOIDString (r_Address p) = Ok oid")
  case True
  then have "\<forall>p \<in> set ps. \<exists>d. point_pdu I ''WriteBatch'' p = Ok d" by (simp add: point_pdu_address)
  then obtain f where "\<forall>p \<in> set ps. point_pdu I ''WriteBatch'' p = Ok (f p)" by metis
  then have t: "traverse (point_pdu I ''WriteBatch'') ps = Ok (map f ps)" by (intro traverse_map_Ok) blast
  obtain w' a where a: "sn_Set api h (map f ps) w = (w', a)" by fastforce
  let ?r = "rbind (wrap_err ''SNMP Set batch: %w'' [] (of_answer a)) (\<lambda>_. Ok ())"
  have "snmp_WriteBatch I api (c, w) ps = ((c, w'), ?r)"
    using t a assms by (simp add: snmp_WriteBatch_def snmp_set_def)
  moreover have "?r = Ok () \<longleftrightarrow> \<not> isl a" by (cases a) auto
  moreover have "list_all2 (\<lambda>p d. point_pdu I ''WriteBatch'' p = Ok d) ps (map f ps)"
    using t unfolding traverse_Ok_iff .
  ultimately show ?thesis unfolding if_P [OF True] using a by (intro exI [of _ "map f ps"]) simp
next
  case False
  have "\<exists>e. traverse (point_pdu I ''WriteBatch'') ps = Err e"
    using False
  proof (induction ps)
    case (Cons p ps)
    have "point_pdu I ''WriteBatch'' p \<noteq> Panic m" for m
      using goValueToSnmpPDU_total [of I "r_Value p"]
      by (auto simp: point_pdu_def rbind_Panic_iff wrap_err_Panic_iff)
    then show ?case using Cons point_pdu_address [of I "''WriteBatch''" p]
      by (cases "point_pdu I ''WriteBatch'' p"; cases "\<forall>p \<in> set ps. \<exists>oid. toOIDString (r_Address p) = Ok oid") auto
  qed simp
  then show ?thesis using False assms(2) by (auto simp: snmp_WriteBatch_def)
qed

theorem snmp_batch_write_atomic_witness:
  "\<forall>I. \<exists>e. snd (snmp_WriteBatch I (snmp_world_api Map.empty) (snmp_idle, 0)
     [oid_point ''1.3'' ''Int32'' (VInt32 1), (oid_point ''1.4'' ''Int32'' (VInt32 2))\<lparr>r_Address := VNil\<rparr>]) = Err e"
proof
  fix I
  let ?ps = "[oid_point ''1.3'' ''Int32'' (VInt32 1), (oid_point ''1.4'' ''Int32'' (VInt32 2))\<lparr>r_Address := VNil\<rparr>]"
  have "\<not> (\<forall>p \<in> set ?ps. \<exists>oid. toOIDString (r_Address p) = Ok oid)" by (simp add: toOIDString_def)
  moreover have "sc_client snmp_idle = Some 0" "?ps \<noteq> []" by (simp_all add: snmp_idle_def)
  ultimately show "\<exists>e. snd (snmp_WriteBatch I (snmp_world_api Map.empty) (snmp_idle, 0) ?ps) = Err e"
    using snmp_batch_write_atomic [of snmp_idle 0 ?ps I "snmp_world_api Map.empty" 0] by (simp only: if_False simp_thms)
qed

text \<open>
  Connecting again is a no-op: after a successful connection a second one succeeds without
  touching the network, and after a failed disconnection the session is dropped, so that the next
  connection opens a new one.
\<close>

theorem snmp_connect_idempotent:
  "(snmp_Connect api s = (s1, Ok ()) \<longrightarrow> snmp_Connect api s1 = (s1, Ok ())) \<and>
   (snmp_Disconnect api s = (s1, Err e) \<longrightarrow>
      sc_client (fst s1) = None \<and> (\<forall>oids. snd (snmp_get api oids s1) = nil_panic) \<and>
      (\<forall>s2. snmp_Connect api s1 = (s2, Ok ()) \<longrightarrow> sc_client (fst s2) \<noteq> None))"
proof (intro conjI impI)
  assume "snmp_Connect api s = (s1, Ok ())"
  from snmp_connect_connects [OF this] show "snmp_Connect api s1 = (s1, Ok ())"
    by (cases s1) (auto simp: snmp_Connect_def)
next
  assume d: "snmp_Disconnect api s = (s1, Err e)"
  then show n: "sc_client (fst s1) = None"
    by (auto simp: snmp_Disconnect_def split: prod.splits option.splits sum.splits)
  show "\<forall>oids. snd (snmp_get api oids s1) = nil_panic"
    using n by (cases s1) (simp add: snmp_get_def)
  show "\<forall>s2. snmp_Connect api s1 = (s2, Ok ()) \<longrightarrow> sc_client (fst s2) \<noteq> None"
    using snmp_connect_connects by blast
qed

theorem snmp_connect_idempotent_witness:
  "snmp_Connect (snmp_world_api Map.empty) (snmp_idle, 0) = ((snmp_idle, 0), Ok ())"
proof -
  have "snmp_Connect (snmp_world_api Map.empty) (snmp_idle\<lparr>sc_connected := False\<rparr>, 0) = ((snmp_idle, 0), Ok ())"
    by (simp add: snmp_Connect_def snmp_idle_def snmp_open_def snmp_world_api_def)
  then show ?thesis using snmp_connect_idempotent by blast
qed

end
