(* ===== verification/Opcua.thy ===== *)
theory Opcua
  imports Connector
begin

text \<open>
  \<open>pkg/adapter/opcua/opcua.go\<close>: the OPC UA adapter. The third-party client is a record of calls on
  an abstract world \<open>'w\<close>; node identifiers are an abstract type \<open>'n\<close> with the package's parser and
  printer. The pointers the package answers may be nil without an error and are options here:
  \<open>Node.Value\<close> answers \<open>Inr None\<close> for a nil \<open>*ua.Variant\<close> (a node that is good without a value),
  \<open>Read\<close> and \<open>Write\<close> for a nil response.
\<close>

section \<open>Data\<close>

type_synonym status_code = "32 word"

definition StatusOK :: status_code where "StatusOK = 0"
definition StatusBadUnexpectedError :: status_code where "StatusBadUnexpectedError = 0x80010000"

datatype security_mode = ModeNone | ModeSign | ModeSignAndEncrypt

datatype opcua_option =
    OptSecurityMode security_mode | OptSecurityPolicy string | OptRequestTimeout duration
  | OptAuthUsername string string | OptAuthAnonymous | OptCertificateFile string | OptPrivateKeyFile string

record data_value =
  dv_Status :: status_code
  dv_Value :: "goval option"

record ('n, 'w) opcua_api =
  oa_ParseNodeID :: "string \<Rightarrow> 'n answer"
  oa_show :: "'n \<Rightarrow> string"
  oa_show_status :: "status_code \<Rightarrow> string"
  oa_NewClient :: "string \<Rightarrow> opcua_option list \<Rightarrow> 'w \<Rightarrow> 'w \<times> nat answer"
  oa_Connect :: "nat \<Rightarrow> 'w \<Rightarrow> 'w \<times> unit answer"
  oa_Close :: "nat \<Rightarrow> 'w \<Rightarrow> 'w \<times> unit answer"
  oa_NodeValue :: "nat \<Rightarrow> 'n \<Rightarrow> 'w \<Rightarrow> 'w \<times> goval option answer"
  oa_Read :: "nat \<Rightarrow> 'n list \<Rightarrow> 'w \<Rightarrow> 'w \<times> data_value option list option answer"
  oa_Write :: "nat \<Rightarrow> 'n \<Rightarrow> goval \<Rightarrow> 'w \<Rightarrow> 'w \<times> status_code list option answer"

record opcua_client =
  oc_EndPoint :: string
  oc_ProtocolType :: protocol_type
  oc_Timeout :: duration
  oc_SecurityMode :: security_mode
  oc_SecurityPolicy :: string
  oc_Username :: string
  oc_Password :: string
  oc_CertFile :: string
  oc_KeyFile :: string
  oc_connected :: bool
  oc_client :: "nat option"

type_synonym 'w opcua_state = "opcua_client \<times> 'w"

text \<open>A package whose calls always come with a result when they come without an error.\<close>

definition opcua_complete :: "('n, 'w) opcua_api \<Rightarrow> bool" where
  "opcua_complete api \<longleftrightarrow> (\<forall>h n w. snd (oa_NodeValue api h n w) \<noteq> Inr None) \<and>
     (\<forall>h n v w. snd (oa_Write api h n v w) \<noteq> Inr None)"

section \<open>Construction and connection\<close>

definition NewOpcuaClient :: "string \<Rightarrow> protocol_type \<Rightarrow> duration \<Rightarrow> properties \<Rightarrow> opcua_client result" where
  "NewOpcuaClient endpoint pt defaultTimeout args =
     (let c = \<lparr>oc_EndPoint = endpoint, oc_ProtocolType = pt, oc_Timeout = defaultTimeout,
               oc_SecurityMode = ModeNone, oc_SecurityPolicy = ''None'', oc_Username = [], oc_Password = [],
               oc_CertFile = [], oc_KeyFile = [], oc_connected = False, oc_client = None\<rparr>;
          str = (\<lambda>m k x. case m k of None \<Rightarrow> x | Some v \<Rightarrow> v)
      in case args of
           None \<Rightarrow> Ok c
         | Some m \<Rightarrow> Ok (c\<lparr>oc_SecurityMode := (case m ''SecurityMode'' of
                             None \<Rightarrow> oc_SecurityMode c
                           | Some v \<Rightarrow> if v = ''Sign'' then ModeSign
                               else if v = ''SignAndEncrypt'' then ModeSignAndEncrypt else ModeNone),
                           oc_SecurityPolicy := (case m ''SecurityPolicy'' of
                             None \<Rightarrow> oc_SecurityPolicy c
                           | Some v \<Rightarrow> if v = [] then oc_SecurityPolicy c else v),
                           oc_Username := str m ''Username'' (oc_Username c),
                           oc_Password := str m ''Password'' (oc_Password c),
                           oc_CertFile := str m ''CertFile'' (oc_CertFile c),
                           oc_KeyFile := str m ''KeyFile'' (oc_KeyFile c)\<rparr>))"

definition opcua_options :: "opcua_client \<Rightarrow> opcua_option list" where
  "opcua_options o1 =
     [OptSecurityMode (oc_SecurityMode o1), OptSecurityPolicy (oc_SecurityPolicy o1), OptRequestTimeout (oc_Timeout o1)]
     @ [if oc_Username o1 \<noteq> [] then OptAuthUsername (oc_Username o1) (oc_Password o1) else OptAuthAnonymous]
     @ (if oc_CertFile o1 \<noteq> [] then [OptCertificateFile (oc_CertFile o1)] else [])
     @ (if oc_KeyFile o1 \<noteq> [] then [OptPrivateKeyFile (oc_KeyFile o1)] else [])"

definition opcua_Connect :: "('n, 'w) opcua_api \<Rightarrow> 'w opcua_state \<Rightarrow> 'w opcua_state \<times> unit result" where
  "opcua_Connect api s = (case s of (c, w) \<Rightarrow>
     if oc_client c \<noteq> None then (s, Ok ())
     else case oa_NewClient api (oc_EndPoint c) (opcua_options c) w of
            (w1, Inl e) \<Rightarrow> ((c, w1), Err (Wrapf ''failed to create OPC UA client: %w'' [] e))
          | (w1, Inr h) \<Rightarrow> (case oa_Connect api h w1 of
                (w2, Inl e) \<Rightarrow> ((c, w2), Err (Wrapf ''failed to connect OPC UA: %w'' [] e))
              | (w2, Inr _) \<Rightarrow> ((c\<lparr>oc_client := Some h, oc_connected := True\<rparr>, w2), Ok ())))"

definition opcua_Disconnect :: "('n, 'w) opcua_api \<Rightarrow> 'w opcua_state \<Rightarrow> 'w opcua_state \<times> unit result" where
  "opcua_Disconnect api s = (case s of (c, w) \<Rightarrow>
     (case oc_client c of
        None \<Rightarrow> ((c\<lparr>oc_connected := False\<rparr>, w), Ok ())
      | Some h \<Rightarrow> (case oa_Close api h w of (w', a) \<Rightarrow>
          ((c\<lparr>oc_connected := False, oc_client := None\<rparr>, w'),
           wrap_err ''failed to disconnect OPC UA: %w'' [] (of_answer a)))))"

section \<open>Reading\<close>

definition parseNodeID :: "('n, 'w) opcua_api \<Rightarrow> goval \<Rightarrow> 'n result" where
  "parseNodeID api address = (case address of
       VString s \<Rightarrow> wrap_err ''invalid NodeID %q: %w'' [s] (of_answer (oa_ParseNodeID api s))
     | _ \<Rightarrow> Err (Errorf ''address must be a string, got %T'' [gotype address]))"

text \<open>A call of the session; a nil client panics. \<open>deref\<close> is the use of a pointer that may be nil.\<close>

definition deref :: "'a option \<Rightarrow> 'a result" where
  "deref x = (case x of None \<Rightarrow> nil_panic | Some v \<Rightarrow> Ok v)"

lemma deref_simps [simp]: "deref None = nil_panic" "deref (Some v) = Ok v"
  by (simp_all add: deref_def)

definition opcua_call :: "(nat \<Rightarrow> 'w \<Rightarrow> 'w \<times> 'a answer) \<Rightarrow> 'w opcua_state \<Rightarrow> 'w opcua_state \<times> 'a result" where
  "opcua_call f s = (case s of (c, w) \<Rightarrow>
     (case oc_client c of
        None \<Rightarrow> (s, nil_panic)
      | Some h \<Rightarrow> (case f h w of (w', a) \<Rightarrow> ((c, w'), of_answer a))))"

definition opcua_ReadSingle :: "go_impl \<Rightarrow> ('n, 'w) opcua_api \<Rightarrow> 'w opcua_state read_single_fn" where
  "opcua_ReadSingle I api s res = (case wrap_err ''ReadSingle parse NodeID: %w'' [] (parseNodeID api (r_Address res)) of
       Err e \<Rightarrow> (s, res, Err e)
     | Panic p \<Rightarrow> (s, res, Panic p)
     | Ok nodeID \<Rightarrow> (case opcua_call (\<lambda>h. oa_NodeValue api h nodeID) s of (s', r) \<Rightarrow>
         (case rbind (wrap_err ''ReadSingle node %v: %w'' [sprint_v I (r_Address res)] r) deref of
            Ok v \<Rightarrow> (s', res\<lparr>r_Value := v\<rparr>, Ok ())
          | Err e \<Rightarrow> (s', res, Err e)
          | Panic p \<Rightarrow> (s', res, Panic p))))"

text \<open>The first loop of \<open>ReadBatch\<close>, from index \<open>i\<close> on.\<close>

fun read_ids :: "('n, 'w) opcua_api \<Rightarrow> nat \<Rightarrow> resource list \<Rightarrow> 'n list result" where
  "read_ids api i [] = Ok []"
| "read_ids api i (p # ps) =
     rbind (wrap_err ''ReadBatch parse NodeID at index %d: %w'' [show_nat i] (parseNodeID api (r_Address p))) (\<lambda>n.
     rbind (read_ids api (Suc i) ps) (\<lambda>ns. Ok (n # ns)))"

text \<open>The loop over the results; \<open>points[i]\<close> panics when the server sends too many.\<close>

fun assign_results :: "(status_code \<Rightarrow> string) \<Rightarrow> nat \<Rightarrow> data_value option list \<Rightarrow> resource list \<Rightarrow> resource list \<times> unit result" where
  "assign_results sh i [] points = (points, Ok ())"
| "assign_results sh i (dv # dvs) points =
     (case (case dv of None \<Rightarrow> Some StatusBadUnexpectedError
                     | Some d \<Rightarrow> if dv_Status d \<noteq> StatusOK then Some (dv_Status d) else None) of
        Some status \<Rightarrow>
          (points, if i < length points
             then Err (Errorf ''ReadBatch point %q: status %v'' [r_Name (points ! i), sh status])
             else index_panic)
      | None \<Rightarrow> (case dv_Value (the dv) of
            None \<Rightarrow> assign_results sh (Suc i) dvs points
          | Some v \<Rightarrow> if i < length points
              then assign_results sh (Suc i) dvs (points[i := (points ! i)\<lparr>r_Value := v\<rparr>])
              else (points, index_panic)))"

definition opcua_ReadBatch :: "('n, 'w) opcua_api \<Rightarrow> 'w opcua_state read_batch_fn" where
  "opcua_ReadBatch api s points =
     (if points = [] then (s, points, Ok ())
      else case read_ids api 0 points of
             Err e \<Rightarrow> (s, points, Err e)
           | Panic p \<Rightarrow> (s, points, Panic p)
           | Ok ids \<Rightarrow> (case opcua_call (\<lambda>h. oa_Read api h ids) s of (s', r) \<Rightarrow>
               (case wrap_err ''ReadBatch: %w'' [] r of
                  Err e \<Rightarrow> (s', points, Err e)
                | Panic p \<Rightarrow> (s', points, Panic p)
                | Ok None \<Rightarrow> (s', points, Err (Errorf ''ReadBatch: nil response from server'' []))
                | Ok (Some results) \<Rightarrow> (case assign_results (oa_show_status api) 0 results points of
                    (points', r') \<Rightarrow> (s', points', r')))))"

section \<open>Writing\<close>

definition convertForWrite :: "go_impl \<Rightarrow> goval \<Rightarrow> string \<Rightarrow> goval result" where
  "convertForWrite I value resType =
     (if resType = ''Float64'' then rmap VFloat64 (ToFloat64 value)
      else if resType = ''Int32'' then rmap VInt32 (ToInt32 I value)
      else Err (Errorf ''unsupported type for write: %s'' [resType]))"

definition writeNode ::
  "('n, 'w) opcua_api \<Rightarrow> 'n \<Rightarrow> goval \<Rightarrow> string \<Rightarrow> 'w opcua_state \<Rightarrow> 'w opcua_state \<times> unit result" where
  "writeNode api nodeID value name s = (case opcua_call (\<lambda>h. oa_Write api h nodeID value) s of (s', r) \<Rightarrow>
     (s', rbind (rbind (wrap_err ''write node %v: %w'' [oa_show api nodeID] r) deref) (\<lambda>results.
          case find (\<lambda>r. r \<noteq> StatusOK) results of
            None \<Rightarrow> Ok ()
          | Some r \<Rightarrow> Err (Errorf ''write node %q status: %v'' [name, oa_show_status api r]))))"

text \<open>The node and the value of a point; \<open>f\<close>, \<open>g\<close> and \<open>xs\<close> are the caller's messages.\<close>

definition write_target ::
  "go_impl \<Rightarrow> ('n, 'w) opcua_api \<Rightarrow> string \<Rightarrow> string \<Rightarrow> string list \<Rightarrow> resource \<Rightarrow> ('n \<times> goval) result" where
  "write_target I api f g xs p =
     rbind (wrap_err f xs (parseNodeID api (r_Address p))) (\<lambda>nodeID.
     rbind (wrap_err g xs (convertForWrite I (r_Value p) (r_Type p))) (\<lambda>value. Ok (nodeID, value)))"

definition opcua_WriteSingle :: "go_impl \<Rightarrow> ('n, 'w) opcua_api \<Rightarrow> 'w opcua_state write_single_fn" where
  "opcua_WriteSingle I api s res =
     (case write_target I api ''WriteSingle parse NodeID: %w'' ''WriteSingle: %w'' [] res of
        Err e \<Rightarrow> (s, Err e)
      | Panic p \<Rightarrow> (s, Panic p)
      | Ok (nodeID, value) \<Rightarrow> writeNode api nodeID value (r_Name res) s)"

fun write_points :: "go_impl \<Rightarrow> ('n, 'w) opcua_api \<Rightarrow> 'w opcua_state \<Rightarrow> resource list \<Rightarrow> 'w opcua_state \<times> unit result" where
  "write_points I api s [] = (s, Ok ())"
| "write_points I api s (p # ps) =
     (case write_target I api ''WriteBatch point %q parse NodeID: %w'' ''WriteBatch point %q: %w'' [r_Name p] p of
        Err e \<Rightarrow> (s, Err e)
      | Panic m \<Rightarrow> (s, Panic m)
      | Ok (nodeID, value) \<Rightarrow> (case writeNode api nodeID value (r_Name p) s of
            (s', Ok _) \<Rightarrow> write_points I api s' ps
          | (s', r) \<Rightarrow> (s', r)))"

definition opcua_WriteBatch :: "go_impl \<Rightarrow> ('n, 'w) opcua_api \<Rightarrow> 'w opcua_state write_batch_fn" where
  "opcua_WriteBatch I api s points = (if points = [] then (s, Ok ()) else write_points I api s points)"

section \<open>The adapter keeps the interfaces' laws\<close>

lemma opcua_single_frame:
  "opcua_ReadSingle I api s res = (s', res', r) \<Longrightarrow> clear_value res' = clear_value res"
  by (auto simp: opcua_ReadSingle_def split: result.splits prod.splits)

lemma assign_results_frame:
  "assign_results sh i dvs ps = (ps', r) \<Longrightarrow> map clear_value ps' = map clear_value ps"
proof (induction sh i dvs ps arbitrary: ps' r rule: assign_results.induct)
  case (2 sh i dv dvs ps)
  have upd: "map clear_value (ps[i := (ps ! i)\<lparr>r_Value := v\<rparr>]) = map clear_value ps" for v
    by (cases "i < length ps") (auto simp: map_update list_update_same_conv list_update_beyond)
  from "2.prems" "2.IH" show ?case
    by (auto simp: upd split: option.splits if_splits)
qed simp

lemma opcua_batch_frame:
  "opcua_ReadBatch api s ps = (s', ps', r) \<Longrightarrow> map clear_value ps' = map clear_value ps"
  by (auto simp: opcua_ReadBatch_def dest: assign_results_frame split: result.splits prod.splits option.splits if_splits)

interpretation opcua_reader: reader "opcua_ReadSingle I api" "opcua_ReadBatch api" for I api
  by unfold_locales (rule opcua_single_frame opcua_batch_frame, assumption)+

lemma opcua_connects: "opcua_Connect api s = (s', Ok ()) \<Longrightarrow> oc_client (fst s') \<noteq> None"
  by (auto simp: opcua_Connect_def split: prod.splits sum.splits if_splits)

lemma opcua_disconnects: "opcua_Disconnect api s = (s', r) \<Longrightarrow> oc_client (fst s') = None"
  by (auto simp: opcua_Disconnect_def split: prod.splits option.splits)

interpretation opcua_session: session "opcua_Connect api" "opcua_Disconnect api" "\<lambda>s. oc_client (fst s) \<noteq> None" for api
  by unfold_locales (auto dest: opcua_connects opcua_disconnects)

section \<open>A connected client does not dereference nil\<close>

definition opcua_usable :: "'w opcua_state \<Rightarrow> bool" where
  "opcua_usable s \<longleftrightarrow> oc_client (fst s) \<noteq> None"

lemma opcua_call_usable: "opcua_call f s = (s', r) \<Longrightarrow> opcua_usable s' = opcua_usable s \<and> (opcua_usable s \<longrightarrow> no_nil r)"
  by (auto simp: opcua_usable_def opcua_call_def split: prod.splits option.splits)

lemma parseNodeID_no_nil [simp]: "no_nil (parseNodeID api a)"
  by (auto simp: parseNodeID_def split: goval.split)

lemma read_ids_no_nil [simp]: "no_nil (read_ids api i ps)"
  by (induction ps arbitrary: i) (auto intro!: no_nil_rbind)

lemma assign_results_no_nil: "assign_results sh i dvs ps = (ps', r) \<Longrightarrow> no_nil r"
  by (induction sh i dvs ps rule: assign_results.induct) (auto split: option.splits if_splits)

lemma opcua_call_complete:
  assumes "opcua_call f s = (s', Ok x)" and "\<And>h w. snd (f h w) \<noteq> Inr None"
  shows "x \<noteq> None"
proof -
  obtain h w w' where "f h w = (w', Inr x)"
    using assms(1) by (auto simp: opcua_call_def of_answer_iff split: prod.splits option.splits)
  with assms(2) [of h w] show ?thesis by auto
qed

lemma rbind_deref_no_nil: "no_nil r \<Longrightarrow> (\<And>x. r = Ok x \<Longrightarrow> x \<noteq> None) \<Longrightarrow> no_nil (rbind r deref)"
  by (rule no_nil_rbind) (auto simp: deref_def split: option.split)

lemma writeNode_usable:
  assumes "writeNode api n v x s = (s', r)"
  shows "opcua_usable s' = opcua_usable s \<and> (opcua_usable s \<longrightarrow> opcua_complete api \<longrightarrow> no_nil r)"
proof -
  obtain s1 q where q: "opcua_call (\<lambda>h. oa_Write api h n v) s = (s1, q)" by fastforce
  note u = opcua_call_usable [OF q]
  have "no_nil r" if "opcua_usable s" and "opcua_complete api"
  proof -
    have "y \<noteq> None" if "q = Ok y" for y
      using opcua_call_complete [of _ s s1 y] q that \<open>opcua_complete api\<close> by (simp add: opcua_complete_def)
    then have "no_nil (rbind (wrap_err ''write node %v: %w'' [oa_show api n] q) deref)"
      using u that(1) by (intro rbind_deref_no_nil) (simp_all add: wrap_err_Ok_iff)
    then show ?thesis using assms q by (auto simp: writeNode_def split: option.split intro!: no_nil_rbind)
  qed
  then show ?thesis using assms q u by (auto simp: writeNode_def)
qed

lemma convertForWrite_no_nil [simp]: "no_nil (convertForWrite I v t)"
  by (auto simp: convertForWrite_def ToFloat64_def ToInt32_def split: goval.split)

lemma write_target_no_nil [simp]: "no_nil (write_target I api f g xs p)"
  by (auto simp: write_target_def intro!: no_nil_rbind)

lemma write_points_usable:
  "write_points I api s ps = (s', r) \<Longrightarrow> opcua_usable s \<Longrightarrow>
     opcua_usable s' \<and> (opcua_complete api \<longrightarrow> no_nil r)"
proof (induction ps arbitrary: s)
  case (Cons p ps)
  let ?t = "write_target I api ''WriteBatch point %q parse NodeID: %w'' ''WriteBatch point %q: %w'' [r_Name p] p"
  show ?case
  proof (cases ?t)
    case (Ok nv)
    obtain s1 x where x: "writeNode api (fst nv) (snd nv) (r_Name p) s = (s1, x)" by fastforce
    then show ?thesis using Cons Ok writeNode_usable [OF x] by (cases x) (auto split: prod.splits)
  qed (use Cons.prems no_nil_case [of ?t] in auto)
qed auto

lemma opcua_ReadSingle_usable:
  assumes "opcua_usable s" and "opcua_ReadSingle I api s p = (s', p', r)"
  shows "opcua_usable s' \<and> (opcua_complete api \<longrightarrow> no_nil r)"
proof (cases "parseNodeID api (r_Address p)")
  case (Ok n)
  obtain s1 q where q: "opcua_call (\<lambda>h. oa_NodeValue api h n) s = (s1, q)" by fastforce
  let ?x = "rbind (wrap_err ''ReadSingle node %v: %w'' [sprint_v I (r_Address p)] q) deref"
  note u = opcua_call_usable [OF q]
  have "no_nil ?x" if "opcua_complete api"
  proof (rule rbind_deref_no_nil)
    show "y \<noteq> None" if "wrap_err ''ReadSingle node %v: %w'' [sprint_v I (r_Address p)] q = Ok y" for y
      using opcua_call_complete [of _ s s1 y] q that \<open>opcua_complete api\<close> by (simp add: opcua_complete_def wrap_err_Ok_iff)
  qed (use u assms(1) in simp)
  then show ?thesis using assms Ok q u by (cases ?x) (auto simp: opcua_ReadSingle_def)
next
  case (Panic m)
  then have "m \<noteq> nil_message" by (metis parseNodeID_no_nil no_nil_case)
  then show ?thesis using assms Panic by (auto simp: opcua_ReadSingle_def)
qed (use assms in \<open>auto simp: opcua_ReadSingle_def\<close>)

lemma opcua_ReadBatch_usable:
  "opcua_usable s \<Longrightarrow> opcua_ReadBatch api s ps = (s', ps', r) \<Longrightarrow> opcua_usable s' \<and> no_nil r"
  by (auto simp: opcua_ReadBatch_def split: result.splits prod.splits if_splits option.splits
      dest!: opcua_call_usable dest: assign_results_no_nil)

lemma opcua_WriteSingle_usable:
  "opcua_usable s \<Longrightarrow> opcua_WriteSingle I api s p = (s', r) \<Longrightarrow>
     opcua_usable s' \<and> (opcua_complete api \<longrightarrow> no_nil r)"
  by (auto simp: opcua_WriteSingle_def split: result.splits prod.splits dest: writeNode_usable)

lemma opcua_WriteBatch_usable:
  "opcua_usable s \<Longrightarrow> opcua_WriteBatch I api s ps = (s', r) \<Longrightarrow>
     opcua_usable s' \<and> (opcua_complete api \<longrightarrow> no_nil r)"
  by (auto simp: opcua_WriteBatch_def dest: write_points_usable split: if_splits)

lemma opcua_Connect_usable: "opcua_Connect api s = (s', Ok ()) \<Longrightarrow> opcua_usable s'"
  by (simp add: opcua_usable_def opcua_connects)

lemma opcua_Connect_no_nil: "opcua_Connect api s = (s', r) \<Longrightarrow> no_nil r"
  by (auto simp: opcua_Connect_def split: prod.splits sum.splits if_splits)

interpretation opcua_rw: rw_client "opcua_Connect api" "opcua_Disconnect api" "\<lambda>s. oc_client (fst s) \<noteq> None"
    "opcua_ReadSingle I api" "opcua_ReadBatch api" "opcua_WriteSingle I api" "opcua_WriteBatch I api" opcua_usable
    "opcua_complete api"
  for I api
  by unfold_locales (fact opcua_Connect_no_nil opcua_Connect_usable opcua_ReadSingle_usable opcua_ReadBatch_usable
    opcua_WriteSingle_usable opcua_WriteBatch_usable)+

section \<open>Connection state\<close>

text \<open>
  The connected flag and the session agree at all times: they do for a new client, and every
  operation keeps it, so a failed connection leaves no session behind.
\<close>

theorem opcua_connected_iff_session:
  "(\<forall>c. NewOpcuaClient ep pt t args = Ok c \<longrightarrow> \<not> oc_connected c \<and> oc_client c = None) \<and>
   ((oc_connected (fst s) \<longleftrightarrow> oc_client (fst s) \<noteq> None) \<longrightarrow>
      (oc_connected (fst (fst (opcua_Connect api s))) \<longleftrightarrow> oc_client (fst (fst (opcua_Connect api s))) \<noteq> None) \<and>
      (oc_connected (fst (fst (opcua_Disconnect api s))) \<longleftrightarrow> oc_client (fst (fst (opcua_Disconnect api s))) \<noteq> None)) \<and>
   (\<forall>e. snd (opcua_Connect api s) = Err e \<longrightarrow> fst (fst (opcua_Connect api s)) = fst s)"
proof (intro conjI)
  show "\<forall>c. NewOpcuaClient ep pt t args = Ok c \<longrightarrow> \<not> oc_connected c \<and> oc_client c = None"
    by (auto simp: NewOpcuaClient_def Let_def split: option.splits)
  show "(oc_connected (fst s) \<longleftrightarrow> oc_client (fst s) \<noteq> None) \<longrightarrow>
      (oc_connected (fst (fst (opcua_Connect api s))) \<longleftrightarrow> oc_client (fst (fst (opcua_Connect api s))) \<noteq> None) \<and>
      (oc_connected (fst (fst (opcua_Disconnect api s))) \<longleftrightarrow> oc_client (fst (fst (opcua_Disconnect api s))) \<noteq> None)"
    by (auto simp: opcua_Connect_def opcua_Disconnect_def split: prod.splits sum.splits option.splits)
  show "\<forall>e. snd (opcua_Connect api s) = Err e \<longrightarrow> fst (fst (opcua_Connect api s)) = fst s"
    by (auto simp: opcua_Connect_def split: prod.splits sum.splits)
qed

section \<open>Batches and single reads agree\<close>

text \<open>
  A server that serves its nodes: \<open>W\<close> are the states of the world in which node \<open>n\<close> is described by
  \<open>mem n\<close>, a status and a value that may be missing. A \<open>Read\<close> answers the descriptions in order;
  \<open>Node.Value\<close> answers the value of a good node, which may be nil, and the status of another one as
  its error (\<open>err\<close> makes it one).
\<close>

definition serves_nodes ::
  "('n, 'w) opcua_api \<Rightarrow> nat \<Rightarrow> ('w \<Rightarrow> bool) \<Rightarrow> (status_code \<Rightarrow> error) \<Rightarrow> ('n \<Rightarrow> data_value) \<Rightarrow> bool" where
  "serves_nodes api h W err mem \<longleftrightarrow> (\<forall>w. W w \<longrightarrow>
     (\<forall>n. \<exists>w'. W w' \<and> oa_NodeValue api h n w =
        (w', if dv_Status (mem n) = StatusOK then Inr (dv_Value (mem n)) else Inl (err (dv_Status (mem n))))) \<and>
     (\<forall>ns. \<exists>w'. W w' \<and> oa_Read api h ns w = (w', Inr (Some (map (\<lambda>n. Some (mem n)) ns)))))"

definition put_value :: "data_value \<Rightarrow> resource \<Rightarrow> resource" where
  "put_value d p = (case dv_Value d of None \<Rightarrow> p | Some v \<Rightarrow> p\<lparr>r_Value := v\<rparr>)"

lemma assign_results_answered:
  assumes "length ds = length qs"
  shows "\<exists>zs r. assign_results sh (length ps) (map Some ds) (ps @ qs) = (ps @ zs, r) \<and> length zs = length qs \<and>
    (\<forall>i < length qs. zs ! i = (if \<forall>j \<le> i. dv_Status (ds ! j) = StatusOK then put_value (ds ! i) (qs ! i) else qs ! i)) \<and>
    (if \<forall>d \<in> set ds. dv_Status d = StatusOK then r = Ok () else \<exists>e. r = Err e)"
  using assms
proof (induction ds arbitrary: ps qs)
  case Nil
  then show ?case by simp
next
  case (Cons d ds)
  then obtain q qs' where q: "qs = q # qs'" "length ds = length qs'" by (cases qs) auto
  show ?case
  proof (cases "dv_Status d = StatusOK")
    case False
    moreover have "\<exists>j \<le> i. dv_Status ((d # ds) ! j) \<noteq> StatusOK" for i using False by (intro exI [of _ 0]) simp
    ultimately show ?thesis by (intro exI [of _ qs]) (auto simp: q)
  next
    case True
    obtain zs r where z: "assign_results sh (length (ps @ [put_value d q])) (map Some ds) ((ps @ [put_value d q]) @ qs') =
        ((ps @ [put_value d q]) @ zs, r)" "length zs = length qs'"
      "\<And>i. i < length qs' \<Longrightarrow> zs ! i = (if \<forall>j \<le> i. dv_Status (ds ! j) = StatusOK then put_value (ds ! i) (qs' ! i) else qs' ! i)"
      "if \<forall>d \<in> set ds. dv_Status d = StatusOK then r = Ok () else \<exists>e. r = Err e"
      using Cons.IH [OF q(2)] by blast
    have all: "(\<forall>j \<le> Suc i. dv_Status ((d # ds) ! j) = StatusOK) \<longleftrightarrow> (\<forall>j \<le> i. dv_Status (ds ! j) = StatusOK)" for i
      using True by (metis Suc_le_mono nat.exhaust nth_Cons_0 nth_Cons_Suc)
    have "(put_value d q # zs) ! i = (if \<forall>j \<le> i. dv_Status ((d # ds) ! j) = StatusOK
        then put_value ((d # ds) ! i) (qs ! i) else qs ! i)" if "i < length qs" for i
    proof (cases i)
      case 0
      then show ?thesis using True q(1) by simp
    next
      case (Suc k)
      then show ?thesis using that z(3) [of k] q(1) unfolding Suc all by auto
    qed
    moreover have "assign_results sh (length ps) (map Some (d # ds)) (ps @ qs) = (ps @ put_value d q # zs, r)"
      using z(1) True by (auto simp: q put_value_def list_update_append split: option.splits)
    ultimately show ?thesis using z(2,4) True by (intro exI [of _ "put_value d q # zs"] exI [of _ r]) (simp add: q)
  qed
qed

lemma failing_index: "(\<exists>e. Err e \<in> set (map g [0..<n])) \<longleftrightarrow> (\<exists>i < n. \<exists>e. g i = Err e)"
proof -
  have "Err e \<in> set (map g [0..<n]) \<longleftrightarrow> (\<exists>i < n. g i = Err e)" for e
    by (simp add: image_iff eq_commute [of _ "Err e"] Bex_def)
  then show ?thesis by blast
qed

lemma read_ids_Ok:
  "read_ids api i ps = Ok ns \<longleftrightarrow> list_all2 (\<lambda>p n. parseNodeID api (r_Address p) = Ok n) ps ns"
  by (induction ps arbitrary: i ns) (auto simp: rbind_Ok_iff wrap_err_Ok_iff list_all2_Cons1)

text \<open>What \<open>ReadSingle\<close> answers for a node described by \<open>d\<close>, from every state of the server.\<close>

definition single_answer :: "go_impl \<Rightarrow> (status_code \<Rightarrow> error) \<Rightarrow> data_value \<Rightarrow> resource \<Rightarrow> resource \<times> unit result" where
  "single_answer I err d p = (if dv_Status d \<noteq> StatusOK
     then (p, Err (Wrapf ''ReadSingle node %v: %w'' [sprint_v I (r_Address p)] (err (dv_Status d))))
     else case dv_Value d of None \<Rightarrow> (p, nil_panic) | Some v \<Rightarrow> (p\<lparr>r_Value := v\<rparr>, Ok ()))"

lemma opcua_ReadSingle_served:
  assumes "serves_nodes api h W err mem" and "oc_client c = Some h"
    and "parseNodeID api (r_Address p) = Ok n" and "W w"
  shows "\<exists>w'. W w' \<and> opcua_ReadSingle I api (c, w) p = ((c, w'), single_answer I err (mem n) p)"
proof -
  obtain w' where "W w'" "oa_NodeValue api h n w =
      (w', if dv_Status (mem n) = StatusOK then Inr (dv_Value (mem n)) else Inl (err (dv_Status (mem n))))"
    using assms(1,4) unfolding serves_nodes_def by blast
  then show ?thesis using assms(2,3)
    by (intro exI [of _ w'])
      (auto simp: opcua_ReadSingle_def opcua_call_def single_answer_def deref_def nil_panic_def split: option.splits)
qed

lemma single_answer_simps:
  "snd (single_answer I err d p) = Ok () \<longleftrightarrow> dv_Status d = StatusOK \<and> dv_Value d \<noteq> None"
  "(\<exists>e. snd (single_answer I err d p) = Err e) \<longleftrightarrow> dv_Status d \<noteq> StatusOK"
  by (auto simp: single_answer_def nil_panic_def split: option.splits if_splits)

lemma single_answer_fst:
  "fst (single_answer I err d p) = (if dv_Status d = StatusOK then put_value d p else p)"
  by (simp add: single_answer_def put_value_def split: option.split)

lemma single_answer_panics:
  "snd (single_answer I err d p) = nil_panic \<longleftrightarrow> d = \<lparr>dv_Status = StatusOK, dv_Value = None\<rparr>"
  by (cases d) (simp add: single_answer_def nil_panic_def split: option.split)

lemma single_answer_cases:
  "snd (single_answer I err d p) = Ok () \<or> (\<exists>e. snd (single_answer I err d p) = Err e) \<or>
   snd (single_answer I err d p) = nil_panic"
  by (simp add: single_answer_def split: option.split)

text \<open>
  C16: one aggregated read against reading the nodes one by one, for well-formed addresses, whatever
  the statuses and values of the nodes: \<open>qs\<close> and \<open>xs\<close> are the points and results of the single reads.
  The batch fails exactly when one of them returns an error; it fills the points that they fill,
  as they do, up to the first one that returns an error, and leaves the others. It never panics,
  while the single read of a node that is good without a value dereferences nil.
\<close>

theorem opcua_batch_reads_like_singles:
  assumes "serves_nodes api h W err mem" and "W w" and "oc_client c = Some h" and "ps \<noteq> []"
    and "\<forall>p \<in> set ps. \<exists>n. parseNodeID api (r_Address p) = Ok n"
  shows "\<exists>w' ps' r qs xs. opcua_ReadBatch api (c, w) ps = ((c, w'), ps', r) \<and> W w' \<and>
    length ps' = length ps \<and> length qs = length ps \<and> length xs = length ps \<and>
    (r = Ok () \<or> (\<exists>e. r = Err e)) \<and> ((\<exists>e. r = Err e) \<longleftrightarrow> (\<exists>e. Err e \<in> set xs)) \<and>
    (\<forall>i < length ps.
       (\<forall>w1. W w1 \<longrightarrow> (\<exists>w2. W w2 \<and> opcua_ReadSingle I api (c, w1) (ps ! i) = ((c, w2), qs ! i, xs ! i))) \<and>
       (xs ! i = Ok () \<or> (\<exists>e. xs ! i = Err e) \<or> xs ! i = nil_panic) \<and>
       (xs ! i = nil_panic \<longleftrightarrow> (\<exists>n. parseNodeID api (r_Address (ps ! i)) = Ok n \<and> mem n = \<lparr>dv_Status = StatusOK, dv_Value = None\<rparr>)) \<and>
       ps' ! i = (if xs ! i = Ok () \<and> (\<forall>j < i. \<forall>e. xs ! j \<noteq> Err e) then qs ! i else ps ! i))"
proof -
  obtain f where f: "\<forall>p \<in> set ps. parseNodeID api (r_Address p) = Ok (f p)" using assms(5) by metis
  have ids: "read_ids api 0 ps = Ok (map f ps)" unfolding read_ids_Ok using f by (auto simp: list_all2_conv_all_nth)
  have "\<exists>w'. W w' \<and> oa_Read api h (map f ps) w = (w', Inr (Some (map (\<lambda>n. Some (mem n)) (map f ps))))"
    using assms(1,2) unfolding serves_nodes_def by blast
  then obtain w' where w': "W w'" "oa_Read api h (map f ps) w = (w', Inr (Some (map Some (map (\<lambda>p. mem (f p)) ps))))"
    by (auto simp: comp_def)
  let ?ds = "map (\<lambda>p. mem (f p)) ps"
  let ?a = "\<lambda>i. single_answer I err (?ds ! i) (ps ! i)"
  let ?xs = "map (\<lambda>i. snd (?a i)) [0..<length ps]"
  obtain ps' r where a: "assign_results (oa_show_status api) 0 (map Some ?ds) ps = (ps', r)" "length ps' = length ps"
    "\<And>i. i < length ps \<Longrightarrow> ps' ! i = (if \<forall>j \<le> i. dv_Status (?ds ! j) = StatusOK then put_value (?ds ! i) (ps ! i) else ps ! i)"
    "if \<forall>d \<in> set ?ds. dv_Status d = StatusOK then r = Ok () else \<exists>e. r = Err e"
    using assign_results_answered [of ?ds ps "oa_show_status api" "[]"] by auto
  have batch: "opcua_ReadBatch api (c, w) ps = ((c, w'), ps', r)"
    using a(1) w'(2) ids assms(3,4) by (simp add: opcua_ReadBatch_def opcua_call_def comp_def)
  have single: "\<exists>w2. W w2 \<and> opcua_ReadSingle I api (c, w1) (ps ! i) = ((c, w2), ?a i)"
    if "i < length ps" and "W w1" for i w1
    using opcua_ReadSingle_served [OF assms(1,3) _ that(2), of "ps ! i" "f (ps ! i)" I] f that(1) by simp
  have bad: "(\<exists>e. Err e \<in> set ?xs) \<longleftrightarrow> (\<exists>d \<in> set ?ds. dv_Status d \<noteq> StatusOK)"
  proof -
    have "(\<exists>e. Err e \<in> set ?xs) \<longleftrightarrow> (\<exists>i < length ps. \<exists>e. snd (?a i) = Err e)"
      by (rule failing_index)
    also have "\<dots> \<longleftrightarrow> (\<exists>d \<in> set ?ds. dv_Status d \<noteq> StatusOK)"
    proof -
      have "(\<exists>d \<in> set ?ds. dv_Status d \<noteq> StatusOK) \<longleftrightarrow> (\<exists>i < length ?ds. dv_Status (?ds ! i) \<noteq> StatusOK)"
        unfolding Bex_def in_set_conv_nth by blast
      then show ?thesis unfolding single_answer_simps(2) by simp
    qed
    finally show ?thesis .
  qed
  have fill: "ps' ! i = (if snd (?a i) = Ok () \<and> (\<forall>j < i. \<forall>e. snd (?a j) \<noteq> Err e) then fst (?a i) else ps ! i)"
    if i: "i < length ps" for i
  proof -
    have "(\<forall>j < i. \<forall>e. snd (?a j) \<noteq> Err e) \<longleftrightarrow> (\<forall>j < i. dv_Status (?ds ! j) = StatusOK)"
      using single_answer_simps(2) by metis
    then show ?thesis unfolding a(3) [OF i] single_answer_simps(1) le_less
      by (auto simp: single_answer_fst put_value_def)
  qed
  have panics: "snd (?a i) = nil_panic \<longleftrightarrow>
      (\<exists>n. parseNodeID api (r_Address (ps ! i)) = Ok n \<and> mem n = \<lparr>dv_Status = StatusOK, dv_Value = None\<rparr>)"
    if "i < length ps" for i
    using that f nth_mem [OF that] unfolding single_answer_panics by simp
  let ?qs = "map (\<lambda>i. fst (?a i)) [0..<length ps]"
  have r: "r = Ok () \<or> (\<exists>e. r = Err e)" "(\<exists>e. r = Err e) \<longleftrightarrow> (\<exists>e. Err e \<in> set ?xs)"
    unfolding bad using a(4) by (auto split: if_splits)
  have each: "\<forall>i < length ps.
      (\<forall>w1. W w1 \<longrightarrow> (\<exists>w2. W w2 \<and> opcua_ReadSingle I api (c, w1) (ps ! i) = ((c, w2), ?qs ! i, ?xs ! i))) \<and>
      (?xs ! i = Ok () \<or> (\<exists>e. ?xs ! i = Err e) \<or> ?xs ! i = nil_panic) \<and>
      (?xs ! i = nil_panic \<longleftrightarrow> (\<exists>n. parseNodeID api (r_Address (ps ! i)) = Ok n \<and> mem n = \<lparr>dv_Status = StatusOK, dv_Value = None\<rparr>)) \<and>
      ps' ! i = (if ?xs ! i = Ok () \<and> (\<forall>j < i. \<forall>e. ?xs ! j \<noteq> Err e) then ?qs ! i else ps ! i)"
    (is "\<forall>i < length ps. ?each i")
  proof (intro allI impI)
    fix i assume i: "i < length ps"
    have x: "?xs ! j = snd (?a j)" "?qs ! j = fst (?a j)" if "j \<le> i" for j using i that by simp_all
    then have "(\<forall>j < i. \<forall>e. ?xs ! j \<noteq> Err e) \<longleftrightarrow> (\<forall>j < i. \<forall>e. snd (?a j) \<noteq> Err e)"
      by (intro all_cong1 imp_cong [OF refl]) (simp only: x [OF less_imp_le])
    then show "?each i" unfolding x [OF order.refl] prod.collapse
      using single [OF i] fill [OF i] panics [OF i] single_answer_cases [of I err "?ds ! i" "ps ! i"] by simp
  qed
  have len: "length ?qs = length ps" "length ?xs = length ps" by simp_all
  note all = batch w'(1) a(2) len r each
  show ?thesis
    by (rule exI [of _ w'], rule exI [of _ ps'], rule exI [of _ r], rule exI [of _ ?qs], rule exI [of _ ?xs])
      ((rule conjI, rule all)+, rule all)
qed

definition opcua_world_api :: "(string \<Rightarrow> goval) \<Rightarrow> (string, nat) opcua_api" where
  "opcua_world_api mem = \<lparr>oa_ParseNodeID = Inr, oa_show = (\<lambda>n. n), oa_show_status = (\<lambda>_. []),
     oa_NewClient = (\<lambda>_ _ w. (Suc w, Inr w)), oa_Connect = (\<lambda>_ w. (w, Inr ())), oa_Close = (\<lambda>_ w. (w, Inr ())),
     oa_NodeValue = (\<lambda>_ n w. (w, Inr (Some (mem n)))),
     oa_Read = (\<lambda>_ ns w. (w, Inr (Some (map (\<lambda>n. Some \<lparr>dv_Status = StatusOK, dv_Value = Some (mem n)\<rparr>) ns)))),
     oa_Write = (\<lambda>_ _ _ w. (w, Inr (Some [StatusOK])))\<rparr>"

definition opcua_idle :: "opcua_client" where
  "opcua_idle = \<lparr>oc_EndPoint = ''opc.tcp://plc:4840'', oc_ProtocolType = OPCUA, oc_Timeout = 0, oc_SecurityMode = ModeNone,
     oc_SecurityPolicy = ''None'', oc_Username = [], oc_Password = [], oc_CertFile = [], oc_KeyFile = [],
     oc_connected = True, oc_client = Some 0\<rparr>"

definition node_point :: "string \<Rightarrow> string \<Rightarrow> goval \<Rightarrow> resource" where
  "node_point n t v = \<lparr>r_Name = n, r_Address = VString n, r_Length = 0, r_Value = v, r_Type = t,
     r_Decoder = [], r_Encoder = [], r_Args = None\<rparr>"

definition opcua_node_api :: "(status_code \<Rightarrow> error) \<Rightarrow> (string \<Rightarrow> data_value) \<Rightarrow> (string, nat) opcua_api" where
  "opcua_node_api err mem = (opcua_world_api (\<lambda>_. VNil))\<lparr>
     oa_NodeValue := (\<lambda>_ n w. (w, if dv_Status (mem n) = StatusOK then Inr (dv_Value (mem n)) else Inl (err (dv_Status (mem n))))),
     oa_Read := (\<lambda>_ ns w. (w, Inr (Some (map (\<lambda>n. Some (mem n)) ns))))\<rparr>"

text \<open>A node that is good without a value: the batch with it alone succeeds, its single read panics.\<close>

theorem opcua_batch_reads_like_singles_witness:
  "\<forall>I err. \<exists>w' w2 q. let api = opcua_node_api err (\<lambda>_. \<lparr>dv_Status = StatusOK, dv_Value = None\<rparr>);
     p = node_point ''ns=2;s=T'' ''Float64'' VNil
   in (\<exists>ps'. opcua_ReadBatch api (opcua_idle, 0) [p] = ((opcua_idle, w'), ps', Ok ())) \<and>
      opcua_ReadSingle I api (opcua_idle, 0) p = ((opcua_idle, w2), q, nil_panic)"
proof (intro allI)
  fix I err
  let ?api = "opcua_node_api err (\<lambda>_. \<lparr>dv_Status = StatusOK, dv_Value = None\<rparr>)"
  let ?p = "node_point ''ns=2;s=T'' ''Float64'' VNil"
  have s: "serves_nodes ?api 0 (\<lambda>_. True) err (\<lambda>_. \<lparr>dv_Status = StatusOK, dv_Value = None\<rparr>)"
    by (simp add: serves_nodes_def opcua_node_api_def)
  have n: "parseNodeID ?api (r_Address ?p) = Ok ''ns=2;s=T''"
    by (simp add: node_point_def parseNodeID_def opcua_node_api_def opcua_world_api_def)
  have "oc_client opcua_idle = Some 0" by (simp add: opcua_idle_def)
  from opcua_batch_reads_like_singles [OF s TrueI this, of "[?p]" 0 I] n
  show "\<exists>w' w2 q. let api = ?api; p = ?p
     in (\<exists>ps'. opcua_ReadBatch api (opcua_idle, 0) [p] = ((opcua_idle, w'), ps', Ok ())) \<and>
        opcua_ReadSingle I api (opcua_idle, 0) p = ((opcua_idle, w2), q, nil_panic)"
    by (auto simp: length_Suc_conv nil_panic_def Let_def) blast
qed

theorem opcua_connected_iff_session_witness:
  "\<forall>mem. oc_client (fst (fst (opcua_Disconnect (opcua_world_api mem) (opcua_idle, 0)))) = None \<longleftrightarrow>
   \<not> oc_connected (fst (fst (opcua_Disconnect (opcua_world_api mem) (opcua_idle, 0))))"
proof
  fix mem
  show "oc_client (fst (fst (opcua_Disconnect (opcua_world_api mem) (opcua_idle, 0)))) = None \<longleftrightarrow>
      \<not> oc_connected (fst (fst (opcua_Disconnect (opcua_world_api mem) (opcua_idle, 0))))"
    using opcua_connected_iff_session [of _ _ _ _ "(opcua_idle, 0)" "opcua_world_api mem"] by (simp add: opcua_idle_def)
qed

text \<open>
  A write sends a value of the point's own type or nothing: only \<open>Float64\<close> and \<open>Int32\<close> resources
  can be written, with the Go type of the resource; for every other type the write is refused and
  the session is not used.
\<close>

theorem opcua_writes_typed:
  "(\<forall>v x. convertForWrite I v t = Ok x \<longrightarrow> edgex_gotype t = Some (gotype x)) \<and>
   (t \<notin> {''Float64'', ''Int32''} \<longrightarrow> r_Type p = t \<longrightarrow> (\<exists>n. parseNodeID api (r_Address p) = Ok n) \<longrightarrow>
      (\<exists>e. opcua_WriteSingle I api s p = (s, Err e)) \<and> (\<exists>e. opcua_WriteBatch I api s (p # ps) = (s, Err e)))"
proof (intro conjI impI)
  have "edgex_gotype ''Float64'' = Some ''float64''" "edgex_gotype ''Int32'' = Some ''int32''"
    by (simp_all add: edgex_gotype_def)
  then show "\<forall>v x. convertForWrite I v t = Ok x \<longrightarrow> edgex_gotype t = Some (gotype x)"
    unfolding convertForWrite_def by (auto simp: rmap_Ok_iff split: if_splits)
  assume t: "t \<notin> {''Float64'', ''Int32''}" "r_Type p = t" and "\<exists>n. parseNodeID api (r_Address p) = Ok n"
  then obtain n where n: "parseNodeID api (r_Address p) = Ok n" by blast
  have e: "write_target I api f g xs p = Err (Wrapf g xs (Errorf ''unsupported type for write: %s'' [t]))" for f g xs
    using t n by (simp add: write_target_def convertForWrite_def)
  show "\<exists>e. opcua_WriteSingle I api s p = (s, Err e)" "\<exists>e. opcua_WriteBatch I api s (p # ps) = (s, Err e)"
    by (simp_all add: opcua_WriteSingle_def opcua_WriteBatch_def e)
qed

theorem opcua_writes_typed_witness:
  "\<forall>I mem. \<exists>e. opcua_WriteSingle I (opcua_world_api mem) (opcua_idle, 0) (node_point ''ns=2;s=T'' ''Bool'' (VBool True))
     = ((opcua_idle, 0), Err e)"
proof (intro allI)
  fix I mem
  let ?p = "node_point ''ns=2;s=T'' ''Bool'' (VBool True)"
  have "\<exists>n. parseNodeID (opcua_world_api mem) (r_Address ?p) = Ok n" "r_Type ?p = ''Bool''"
    by (simp_all add: node_point_def parseNodeID_def opcua_world_api_def)
  with opcua_writes_typed [of I "''Bool''" ?p "opcua_world_api mem" "(opcua_idle, 0)" "[]"]
  show "\<exists>e. opcua_WriteSingle I (opcua_world_api mem) (opcua_idle, 0) ?p = ((opcua_idle, 0), Err e)" by simp
qed

end
