(* ===== verification/Httpclient.thy ===== *)
theory Httpclient
  imports Connector Json
begin

text \<open>
  \<open>pkg/adapter/httpclient/httpclient.go\<close>: the HTTP polling adapter. What the sources use of
  \<open>net/http\<close> without the network (headers, cookies, basic authentication) is written out; the
  validation of a request's method and URL and the exchange itself are the record \<open>http_api\<close> of
  calls on an abstract world \<open>'w\<close>.
\<close>

section \<open>Requests\<close>

record http_request =
  hr_Method :: string
  hr_URL :: string
  hr_Header :: "(string \<times> string) list"
  hr_Body :: "string option"

text \<open>A response: the status code and what reading the body gives.\<close>

type_synonym http_response = "int \<times> string answer"

record 'w http_api =
  ht_NewRequest :: "string \<Rightarrow> string \<Rightarrow> unit answer"
  ht_Do :: "duration \<Rightarrow> http_request \<Rightarrow> 'w \<Rightarrow> 'w \<times> http_response answer"

text \<open>\<open>textproto.CanonicalMIMEHeaderKey\<close>.\<close>

definition token_char :: "char \<Rightarrow> bool" where
  "token_char c \<longleftrightarrow> (48 \<le> byte c \<and> byte c \<le> 57) \<or> (65 \<le> byte c \<and> byte c \<le> 90) \<or>
     (97 \<le> byte c \<and> byte c \<le> 122) \<or> c \<in> set ''!#$%&'' \<or> c = CHR 0x27 \<or> c \<in> set ''*+-.^_'' \<or> c = CHR 0x60 \<or> c \<in> set ''|~''"

fun capitalize :: "bool \<Rightarrow> string \<Rightarrow> string" where
  "capitalize up [] = []"
| "capitalize up (c # cs) =
     (if up \<and> 97 \<le> byte c \<and> byte c \<le> 122 then char_of (byte c - 32)
      else if \<not> up \<and> 65 \<le> byte c \<and> byte c \<le> 90 then char_of (byte c + 32) else c)
     # capitalize (c = CHR ''-'') cs"

definition canonical_key :: "string \<Rightarrow> string" where
  "canonical_key k = (if list_all token_char k then capitalize True k else k)"

definition header_set :: "string \<Rightarrow> string \<Rightarrow> http_request \<Rightarrow> http_request" where
  "header_set k v req = req\<lparr>hr_Header :=
     filter (\<lambda>e. fst e \<noteq> canonical_key k) (hr_Header req) @ [(canonical_key k, v)]\<rparr>"

text \<open>\<open>AddCookie\<close> on a request without cookies, and \<open>SetBasicAuth\<close>.\<close>

definition cookie_value :: "string \<Rightarrow> string" where
  "cookie_value v =
     (let v' = filter (\<lambda>c. 32 \<le> byte c \<and> byte c < 127 \<and> c \<noteq> CHR 0x22 \<and> c \<noteq> CHR '';'' \<and> c \<noteq> CHR 0x5C) v
      in if CHR '' '' \<in> set v' \<or> CHR '','' \<in> set v' then CHR 0x22 # v' @ [CHR 0x22] else v')"

definition cookie_name :: "string \<Rightarrow> string" where
  "cookie_name n = map (\<lambda>c. if c = CHR 0x0A \<or> c = CHR 0x0D then CHR ''-'' else c) n"

definition add_cookie :: "string \<Rightarrow> string \<Rightarrow> http_request \<Rightarrow> http_request" where
  "add_cookie n v = header_set ''Cookie'' (cookie_name n @ ''='' @ cookie_value v)"

definition set_basic_auth :: "string \<Rightarrow> string \<Rightarrow> http_request \<Rightarrow> http_request" where
  "set_basic_auth u p = header_set ''Authorization'' (''Basic '' @ base64 (map byte (u @ '':'' @ p)))"

definition new_request :: "'w http_api \<Rightarrow> string \<Rightarrow> string \<Rightarrow> string option \<Rightarrow> http_request result" where
  "new_request api method url body = rmap (\<lambda>_. \<lparr>hr_Method = (if method = [] then ''GET'' else method),
     hr_URL = url, hr_Header = [], hr_Body = body\<rparr>) (of_answer (ht_NewRequest api method url))"

section \<open>The client\<close>

record http_client =
  hc_BaseURL :: string
  hc_ProtocolType :: protocol_type
  hc_Timeout :: duration
  hc_LoginURL :: string
  hc_LogoutURL :: string
  hc_Username :: string
  hc_Password :: string
  hc_AuthType :: string
  hc_TokenField :: string
  hc_AuthHeader :: string
  hc_ReadMethod :: string
  hc_WriteMethod :: string
  hc_connected :: bool
  hc_client :: "duration option"
  hc_token :: string

type_synonym 'w http_state = "http_client \<times> 'w"

definition defaultHTTPTimeout :: duration where
  "defaultHTTPTimeout = 10 * second"

definition arg_any :: "(string \<rightharpoonup> string) \<Rightarrow> string \<Rightarrow> string \<Rightarrow> string" where
  "arg_any args key x = (case args key of None \<Rightarrow> x | Some v \<Rightarrow> v)"

definition arg_some :: "(string \<rightharpoonup> string) \<Rightarrow> string \<Rightarrow> string \<Rightarrow> string" where
  "arg_some args key x = (case args key of None \<Rightarrow> x | Some v \<Rightarrow> if v = [] then x else v)"

definition NewHttpClient :: "string \<Rightarrow> protocol_type \<Rightarrow> duration \<Rightarrow> properties \<Rightarrow> http_client result" where
  "NewHttpClient endpoint pt defaultTimeout args =
     (let c = \<lparr>hc_BaseURL = endpoint, hc_ProtocolType = pt,
               hc_Timeout = (if sint defaultTimeout \<le> 0 then defaultHTTPTimeout else defaultTimeout),
               hc_LoginURL = [], hc_LogoutURL = [], hc_Username = [], hc_Password = [],
               hc_AuthType = ''bearer'', hc_TokenField = ''token'', hc_AuthHeader = ''Authorization'',
               hc_ReadMethod = ''GET'', hc_WriteMethod = ''POST'',
               hc_connected = False, hc_client = None, hc_token = []\<rparr>
      in case args of
           None \<Rightarrow> Ok c
         | Some m \<Rightarrow> Ok (c\<lparr>hc_LoginURL := arg_any m ''LoginURL'' (hc_LoginURL c),
                           hc_LogoutURL := arg_any m ''LogoutURL'' (hc_LogoutURL c),
                           hc_Username := arg_any m ''Username'' (hc_Username c),
                           hc_Password := arg_any m ''Password'' (hc_Password c),
                           hc_AuthType := arg_some m ''AuthType'' (hc_AuthType c),
                           hc_TokenField := arg_some m ''TokenField'' (hc_TokenField c),
                           hc_AuthHeader := arg_some m ''AuthHeader'' (hc_AuthHeader c),
                           hc_ReadMethod := arg_some m ''ReadMethod'' (hc_ReadMethod c),
                           hc_WriteMethod := arg_some m ''WriteMethod'' (hc_WriteMethod c)\<rparr>))"

text \<open>The authentication header of a request.\<close>

definition set_auth :: "http_client \<Rightarrow> http_request \<Rightarrow> http_request" where
  "set_auth h req =
     (if hc_token h = [] then req
      else if hc_AuthType h = ''bearer'' then header_set (hc_AuthHeader h) (''Bearer '' @ hc_token h) req
      else if hc_AuthType h = ''header'' then header_set (hc_AuthHeader h) (hc_token h) req
      else if hc_AuthType h = ''cookie'' then add_cookie (hc_AuthHeader h) (hc_token h) req
      else if hc_AuthType h = ''basic'' then set_basic_auth (hc_Username h) (hc_Password h) req
      else req)"

text \<open>\<open>h.client.Do(req)\<close>; a nil client panics.\<close>

definition http_do :: "'w http_api \<Rightarrow> http_request \<Rightarrow> 'w http_state \<Rightarrow> 'w http_state \<times> http_response result" where
  "http_do api req s = (case s of (h, w) \<Rightarrow>
     (case hc_client h of
        None \<Rightarrow> (s, nil_panic)
      | Some t \<Rightarrow> (case ht_Do api t req w of (w', a) \<Rightarrow> ((h, w'), of_answer a))))"

definition success_status :: "int \<Rightarrow> bool" where
  "success_status code \<longleftrightarrow> \<not> (code < 200 \<or> 300 \<le> code)"

definition request_of ::
  "'w http_api \<Rightarrow> http_client \<Rightarrow> string \<Rightarrow> string \<Rightarrow> string option \<Rightarrow> http_request result" where
  "request_of api h method path body =
     rmap (\<lambda>req. set_auth h (if body = None then req else header_set ''Content-Type'' ''application/json'' req))
       (wrap_err ''create request: %w'' [] (new_request api method (hc_BaseURL h @ path) body))"

definition doRequest ::
  "'w http_api \<Rightarrow> string \<Rightarrow> string \<Rightarrow> string option \<Rightarrow> 'w http_state \<Rightarrow> 'w http_state \<times> string result" where
  "doRequest api method path body s = (case request_of api (fst s) method path body of
       Err e \<Rightarrow> (s, Err e)
     | Panic p \<Rightarrow> (s, Panic p)
     | Ok req \<Rightarrow> (case http_do api req s of (s', r) \<Rightarrow>
         (s', rbind (wrap_err ''request: %w'' [] r) (\<lambda>(code, body).
              rbind (wrap_err ''read response: %w'' [] (of_answer body)) (\<lambda>respBody.
              if success_status code then Ok respBody
              else Err (Errorf ''HTTP %d: %s'' [show_int code, respBody]))))))"

section \<open>Login and logout\<close>

definition credentials :: "http_client \<Rightarrow> goval" where
  "credentials h = VMap [(''username'', VString (hc_Username h)), (''password'', VString (hc_Password h))]"

definition login_request :: "go_impl \<Rightarrow> 'w http_api \<Rightarrow> http_client \<Rightarrow> http_request result" where
  "login_request I api h =
     rbind (wrap_err ''marshal credentials: %w'' [] (marshal I (credentials h))) (\<lambda>creds.
     rmap (header_set ''Content-Type'' ''application/json'')
       (wrap_err ''create login request: %w'' [] (new_request api ''POST'' (hc_BaseURL h @ hc_LoginURL h) (Some creds))))"

definition login_token :: "http_client \<Rightarrow> http_response \<Rightarrow> string result" where
  "login_token h resp = (case resp of (code, body) \<Rightarrow>
     rbind (wrap_err ''read login response: %w'' [] (of_answer body)) (\<lambda>respBody.
     if \<not> success_status code then Err (Errorf ''login failed: HTTP %d: %s'' [show_int code, respBody])
     else rbind (wrap_err ''parse login response: %w'' [] (unmarshal_map respBody)) (\<lambda>data.
       case data (hc_TokenField h) of
         Some (VString token) \<Rightarrow> Ok token
       | _ \<Rightarrow> Err (Errorf ''token field %q not found or not a string in login response'' [hc_TokenField h]))))"

definition login :: "go_impl \<Rightarrow> 'w http_api \<Rightarrow> 'w http_state \<Rightarrow> 'w http_state \<times> unit result" where
  "login I api s = (case login_request I api (fst s) of
       Err e \<Rightarrow> (s, Err e)
     | Panic p \<Rightarrow> (s, Panic p)
     | Ok req \<Rightarrow> (case http_do api req s of ((h, w), r) \<Rightarrow>
         (case rbind (wrap_err ''login request: %w'' [] r) (login_token h) of
            Ok token \<Rightarrow> ((h\<lparr>hc_token := token\<rparr>, w), Ok ())
          | Err e \<Rightarrow> ((h, w), Err e)
          | Panic p \<Rightarrow> ((h, w), Panic p))))"

text \<open>A body that cannot be read is reported as empty.\<close>

definition logout :: "'w http_api \<Rightarrow> 'w http_state \<Rightarrow> 'w http_state \<times> unit result" where
  "logout api s = (case wrap_err ''create logout request: %w'' []
                       (new_request api ''POST'' (hc_BaseURL (fst s) @ hc_LogoutURL (fst s)) None) of
       Err e \<Rightarrow> (s, Err e)
     | Panic p \<Rightarrow> (s, Panic p)
     | Ok req \<Rightarrow> (case http_do api (set_auth (fst s) req) s of (s', r) \<Rightarrow>
         (s', rbind (wrap_err ''logout request: %w'' [] r) (\<lambda>(code, body).
              if success_status code then Ok ()
              else Err (Errorf ''logout failed: HTTP %d: %s''
                [show_int code, case body of Inl _ \<Rightarrow> [] | Inr b \<Rightarrow> b])))))"

definition http_Connect :: "go_impl \<Rightarrow> 'w http_api \<Rightarrow> 'w http_state \<Rightarrow> 'w http_state \<times> unit result" where
  "http_Connect I api s = (case s of (h, w) \<Rightarrow>
     if hc_client h \<noteq> None \<and> hc_connected h then (s, Ok ())
     else let h1 = (if hc_client h = None then h\<lparr>hc_client := Some (hc_Timeout h)\<rparr> else h)
          in if hc_LoginURL h1 \<noteq> [] \<and> hc_Username h1 \<noteq> []
             then (case login I api (h1, w) of
                     ((h2, w2), Ok _) \<Rightarrow> ((h2\<lparr>hc_connected := True\<rparr>, w2), Ok ())
                   | (s2, Err e) \<Rightarrow> (s2, Err (Wrapf ''HTTP login: %w'' [] e))
                   | (s2, Panic p) \<Rightarrow> (s2, Panic p))
             else ((h1\<lparr>hc_connected := True\<rparr>, w), Ok ()))"

definition http_Disconnect :: "'w http_api \<Rightarrow> 'w http_state \<Rightarrow> 'w http_state \<times> unit result" where
  "http_Disconnect api s =
     (if \<not> hc_connected (fst s) then (s, Ok ())
      else if hc_LogoutURL (fst s) \<noteq> [] \<and> hc_token (fst s) \<noteq> []
      then (case logout api s of
              ((h, w), Panic p) \<Rightarrow> ((h, w), Panic p)
            | ((h, w), r) \<Rightarrow> ((h\<lparr>hc_connected := False, hc_token := []\<rparr>, w), wrap_err ''HTTP logout: %w'' [] r))
      else ((fst s\<lparr>hc_connected := False, hc_token := []\<rparr>, snd s), Ok ()))"

section \<open>Values\<close>

definition http_toString :: "goval \<Rightarrow> string result" where
  "http_toString addr = (case addr of
       VString v \<Rightarrow> Ok v
     | VFloat64 v \<Rightarrow> Ok (sprint_f0 v)
     | _ \<Rightarrow> Err (Errorf ''HTTP address must be string, got %T'' [gotype addr]))"

text \<open>\<open>bytes.TrimSpace\<close>: the encodings of Unicode's white space.\<close>

definition space_seqs :: "string list" where
  "space_seqs = [[CHR 0x09], [CHR 0x0A], [CHR 0x0B], [CHR 0x0C], [CHR 0x0D],
     [CHR 0x20], [CHR 0xC2, CHR 0x85], [CHR 0xC2, CHR 0xA0], [CHR 0xE1, CHR 0x9A, CHR 0x80], [CHR 0xE2, CHR 0x80, CHR 0x80],
     [CHR 0xE2, CHR 0x80, CHR 0x81], [CHR 0xE2, CHR 0x80, CHR 0x82], [CHR 0xE2, CHR 0x80, CHR 0x83], [CHR 0xE2, CHR 0x80, CHR 0x84], [CHR 0xE2, CHR 0x80, CHR 0x85],
     [CHR 0xE2, CHR 0x80, CHR 0x86], [CHR 0xE2, CHR 0x80, CHR 0x87], [CHR 0xE2, CHR 0x80, CHR 0x88], [CHR 0xE2, CHR 0x80, CHR 0x89], [CHR 0xE2, CHR 0x80, CHR 0x8A],
     [CHR 0xE2, CHR 0x80, CHR 0xA8], [CHR 0xE2, CHR 0x80, CHR 0xA9], [CHR 0xE2, CHR 0x80, CHR 0xAF], [CHR 0xE2, CHR 0x81, CHR 0x9F], [CHR 0xE3, CHR 0x80, CHR 0x80]]"

lemma strip_shorter: "p \<noteq> [] \<Longrightarrow> take (length p) s = p \<Longrightarrow> length (drop (length p) s) < length s"
  by (cases s; cases p) auto

function trim_left :: "string list \<Rightarrow> string \<Rightarrow> string" where
  "trim_left seqs s = (case find (\<lambda>p. p \<noteq> [] \<and> take (length p) s = p) seqs of
       None \<Rightarrow> s | Some p \<Rightarrow> trim_left seqs (drop (length p) s))"
  by pat_completeness auto
termination
  by (relation "measure (\<lambda>(seqs, s). length s)")
    (auto simp: find_Some_iff simp del: length_drop dest: strip_shorter)

declare trim_left.simps [simp del]

definition trim_space :: "string \<Rightarrow> string" where
  "trim_space s = rev (trim_left (map rev space_seqs) (rev (trim_left space_seqs s)))"

definition starts_with :: "char \<Rightarrow> string \<Rightarrow> bool" where
  "starts_with c s \<longleftrightarrow> s \<noteq> [] \<and> hd s = c"

definition parseJSONValue :: "string \<Rightarrow> string \<Rightarrow> goval result" where
  "parseJSONValue body fieldName =
     (if body = [] then Err (Errorf ''empty response body'' [])
      else if starts_with (CHR ''{'') (trim_space body) \<or> starts_with (CHR ''['') (trim_space body)
      then rbind (wrap_err ''parse JSON: %w'' [] (unmarshal_any body)) (\<lambda>result. case result of
             VMap m \<Rightarrow> (case map_of m fieldName of
                Some v \<Rightarrow> Ok v
              | None \<Rightarrow> (case m of [(k, v)] \<Rightarrow> Ok v | _ \<Rightarrow> Ok result))
           | _ \<Rightarrow> Ok result)
      else Ok (VString (trim_space body)))"

section \<open>Reading and writing\<close>

definition http_ReadSingle :: "go_impl \<Rightarrow> 'w http_api \<Rightarrow> 'w http_state read_single_fn" where
  "http_ReadSingle I api s res =
     (case wrap_err ''ReadSingle %s: %w'' [r_Name res] (http_toString (r_Address res)) of
        Err e \<Rightarrow> (s, res, Err e)
      | Panic p \<Rightarrow> (s, res, Panic p)
      | Ok addr \<Rightarrow> (case doRequest api (hc_ReadMethod (fst s)) addr None s of (s', r) \<Rightarrow>
          (case wrap_err ''ReadSingle %s: %w'' [r_Name res]
                  (rbind r (\<lambda>body. rbind (parseJSONValue body (r_Name res)) (\<lambda>val. ValueToType I val (r_Type res)))) of
             Ok typed \<Rightarrow> (s', res\<lparr>r_Value := typed\<rparr>, Ok ())
           | Err e \<Rightarrow> (s', res, Err e)
           | Panic p \<Rightarrow> (s', res, Panic p))))"

fun http_ReadBatch :: "go_impl \<Rightarrow> 'w http_api \<Rightarrow> 'w http_state \<Rightarrow> resource list
    \<Rightarrow> 'w http_state \<times> resource list \<times> unit result" where
  "http_ReadBatch I api s [] = (s, [], Ok ())"
| "http_ReadBatch I api s (p # ps) = (case http_ReadSingle I api s p of
       (s1, p', Ok _) \<Rightarrow> (case http_ReadBatch I api s1 ps of (s2, ps', r) \<Rightarrow> (s2, p' # ps', r))
     | (s1, p', Err e) \<Rightarrow> (s1, p' # ps, Err e)
     | (s1, p', Panic m) \<Rightarrow> (s1, p' # ps, Panic m))"

definition http_WriteSingle :: "go_impl \<Rightarrow> 'w http_api \<Rightarrow> 'w http_state write_single_fn" where
  "http_WriteSingle I api s res =
     (case rbind (wrap_err ''WriteSingle %s: %w'' [r_Name res] (http_toString (r_Address res))) (\<lambda>addr.
           rbind (wrap_err ''WriteSingle %s: marshal value: %w'' [r_Name res] (marshal I (r_Value res))) (\<lambda>payload.
           Ok (addr, payload))) of
        Err e \<Rightarrow> (s, Err e)
      | Panic p \<Rightarrow> (s, Panic p)
      | Ok (addr, payload) \<Rightarrow>
         (case doRequest api (hc_WriteMethod (fst s)) addr (Some payload) s of (s', r) \<Rightarrow>
            (s', rbind (wrap_err ''WriteSingle %s: %w'' [r_Name res] r) (\<lambda>_. Ok ()))))"

fun http_WriteBatch :: "go_impl \<Rightarrow> 'w http_api \<Rightarrow> 'w http_state \<Rightarrow> resource list \<Rightarrow> 'w http_state \<times> unit result" where
  "http_WriteBatch I api s [] = (s, Ok ())"
| "http_WriteBatch I api s (p # ps) = (case http_WriteSingle I api s p of
       (s1, Ok _) \<Rightarrow> http_WriteBatch I api s1 ps
     | (s1, r) \<Rightarrow> (s1, r))"

section \<open>The adapter keeps the interfaces' laws\<close>

lemma http_single_frame:
  "http_ReadSingle I api s res = (s', res', r) \<Longrightarrow> clear_value res' = clear_value res"
  by (auto simp: http_ReadSingle_def split: result.splits prod.splits)

lemma http_batch_frame:
  "http_ReadBatch I api s ps = (s', ps', r) \<Longrightarrow> map clear_value ps' = map clear_value ps"
proof (induction ps arbitrary: s ps' r)
  case Nil
  then show ?case by simp
next
  case (Cons p ps)
  then show ?case
    by (auto split: prod.splits result.splits dest: http_single_frame)
qed

interpretation http_reader: reader "http_ReadSingle I api" "http_ReadBatch I api" for I api
  by unfold_locales (rule http_single_frame http_batch_frame, assumption)+

lemma http_do_client: "http_do api req s = (s', r) \<Longrightarrow> fst s' = fst s"
  by (auto simp: http_do_def split: prod.splits option.splits)

lemma login_fields:
  "login I api s = (s', r) \<Longrightarrow> \<exists>t. fst s' = (fst s)\<lparr>hc_token := t\<rparr> \<and> (r \<noteq> Ok () \<longrightarrow> t = hc_token (fst s))"
  by (auto simp: login_def split: result.splits prod.splits dest!: http_do_client)

lemma http_connect_connects: "http_Connect I api s = (s', Ok ()) \<Longrightarrow> hc_connected (fst s')"
  by (auto simp: http_Connect_def Let_def split: prod.splits result.splits if_splits)

lemma http_disconnects:
  "http_Disconnect api s = (s', r) \<Longrightarrow> (\<And>m. r \<noteq> Panic m) \<Longrightarrow> \<not> hc_connected (fst s')"
  by (auto simp: http_Disconnect_def split: prod.splits result.splits if_splits)

interpretation http_session: session "http_Connect I api" "http_Disconnect api" "\<lambda>s. hc_connected (fst s)" for I api
  by unfold_locales (use http_connect_connects http_disconnects in \<open>blast+\<close>)

section \<open>A connected client does not dereference nil\<close>

definition http_usable :: "'w http_state \<Rightarrow> bool" where
  "http_usable s \<longleftrightarrow> hc_client (fst s) \<noteq> None"

lemma http_do_usable: "http_do api req s = (s', r) \<Longrightarrow> http_usable s' = http_usable s \<and> (http_usable s \<longrightarrow> no_nil r)"
  by (auto simp: http_usable_def http_do_def split: prod.splits option.splits)

lemma request_of_no_nil [simp]: "no_nil (request_of api h m p b)"
  by (auto simp: request_of_def new_request_def intro!: no_nil_rbind)

lemma doRequest_usable: "doRequest api m p b s = (s', r) \<Longrightarrow> http_usable s' = http_usable s \<and> (http_usable s \<longrightarrow> no_nil r)"
  by (auto simp: doRequest_def split: result.splits prod.splits intro!: no_nil_rbind dest!: http_do_usable)

lemma http_Connect_usable: "http_Connect I api s = (s', Ok ()) \<Longrightarrow> http_usable s'"
  by (auto simp: http_Connect_def http_usable_def Let_def split: prod.splits result.splits if_splits dest!: login_fields)

lemma http_toString_no_nil [simp]: "no_nil (http_toString v)"
  by (auto simp: http_toString_def split: goval.split)

lemma parseJSONValue_no_nil [simp]: "no_nil (parseJSONValue b n)"
  by (auto simp: parseJSONValue_def intro!: no_nil_rbind split: goval.split option.split list.split)

lemma http_ReadSingle_usable:
  assumes "http_ReadSingle I api s p = (s', p', r)" and "http_usable s"
  shows "http_usable s' \<and> no_nil r"
proof (cases "wrap_err ''ReadSingle %s: %w'' [r_Name p] (http_toString (r_Address p))")
  case (Ok addr)
  obtain s1 x where x: "doRequest api (hc_ReadMethod (fst s)) addr None s = (s1, x)" by fastforce
  have "no_nil (rbind x (\<lambda>body. rbind (parseJSONValue body (r_Name p)) (\<lambda>val. ValueToType I val (r_Type p))))"
    using doRequest_usable [OF x] assms(2) by (auto intro!: no_nil_rbind)
  then show ?thesis using assms doRequest_usable [OF x] x Ok by (auto simp: http_ReadSingle_def split: result.splits)
qed (use assms in \<open>auto simp: http_ReadSingle_def\<close>)

lemma http_WriteSingle_usable:
  "http_WriteSingle I api s p = (s', r) \<Longrightarrow> http_usable s \<Longrightarrow> http_usable s' \<and> no_nil r"
  by (auto simp: http_WriteSingle_def rbind_Panic_iff wrap_err_Panic_iff split: result.splits prod.splits
      intro!: no_nil_rbind dest!: doRequest_usable)

lemma http_ReadBatch_usable:
  "http_usable s \<Longrightarrow> http_ReadBatch I api s ps = (s', ps', r) \<Longrightarrow> http_usable s' \<and> no_nil r"
proof (induction ps arbitrary: s ps' r)
  case (Cons p ps)
  then show ?case by (auto split: result.splits prod.splits dest!: http_ReadSingle_usable)
qed simp

lemma http_WriteBatch_usable:
  "http_usable s \<Longrightarrow> http_WriteBatch I api s ps = (s', r) \<Longrightarrow> http_usable s' \<and> no_nil r"
proof (induction ps arbitrary: s r)
  case (Cons p ps)
  then show ?case by (auto split: result.splits prod.splits dest!: http_WriteSingle_usable)
qed simp

lemma login_request_no_nil [simp]: "no_nil (login_request I api h)"
  by (auto simp: login_request_def new_request_def intro!: no_nil_rbind)

lemma login_token_no_nil [simp]: "no_nil (login_token h resp)"
  by (auto simp: login_token_def unmarshal_map_def intro!: no_nil_rbind split: prod.split option.split goval.split json.split)

lemma login_no_nil: "login I api s = (s', r) \<Longrightarrow> http_usable s \<Longrightarrow> no_nil r"
  by (auto simp: login_def rbind_Panic_iff wrap_err_Panic_iff split: result.splits prod.splits dest!: http_do_usable)

lemma http_Connect_no_nil: "http_Connect I api s = (s', r) \<Longrightarrow> no_nil r"
  by (auto simp: http_Connect_def Let_def http_usable_def split: prod.splits result.splits if_splits dest!: login_no_nil)

interpretation http_rw: rw_client "http_Connect I api" "http_Disconnect api" "\<lambda>s. hc_connected (fst s)"
    "http_ReadSingle I api" "http_ReadBatch I api" "http_WriteSingle I api" "http_WriteBatch I api" http_usable True
  for I api
  by unfold_locales (simp_all, (fact http_Connect_no_nil http_Connect_usable http_ReadSingle_usable [rotated] http_ReadBatch_usable http_WriteSingle_usable [rotated] http_WriteBatch_usable)+)

section \<open>Tokens\<close>

text \<open>A client is sound if it holds a token only while connected, and then has an HTTP client.\<close>

definition http_sound :: "http_client \<Rightarrow> bool" where
  "http_sound h \<longleftrightarrow> (hc_token h \<noteq> [] \<longrightarrow> hc_connected h) \<and> (hc_connected h \<longrightarrow> hc_client h \<noteq> None)"

lemma doRequest_client: "doRequest api m p b s = (s', r) \<Longrightarrow> fst s' = fst s"
  by (auto simp: doRequest_def split: result.splits prod.splits dest!: http_do_client)

lemma http_ReadSingle_client: "http_ReadSingle I api s p = (s', p', r) \<Longrightarrow> fst s' = fst s"
  by (auto simp: http_ReadSingle_def split: result.splits prod.splits dest!: doRequest_client)

lemma http_WriteSingle_client: "http_WriteSingle I api s p = (s', r) \<Longrightarrow> fst s' = fst s"
  by (auto simp: http_WriteSingle_def split: result.splits prod.splits dest!: doRequest_client)

lemma http_ReadBatch_client: "fst (fst (http_ReadBatch I api s ps)) = fst s"
  by (induction ps arbitrary: s) (auto split: prod.splits result.splits dest!: http_ReadSingle_client, metis fst_conv)

lemma http_WriteBatch_client: "fst (fst (http_WriteBatch I api s ps)) = fst s"
  by (induction ps arbitrary: s) (auto split: prod.splits result.splits dest!: http_WriteSingle_client)

lemma logout_client: "logout api s = (s', r) \<Longrightarrow> fst s' = fst s"
  by (auto simp: logout_def split: result.splits prod.splits dest!: http_do_client)

lemma http_Connect_sound: "http_sound (fst s) \<Longrightarrow> http_sound (fst (fst (http_Connect I api s)))"
  by (cases s) (auto simp: http_Connect_def Let_def http_sound_def split: prod.splits result.splits if_splits
      dest!: login_fields)

lemma http_Disconnect_sound: "http_sound (fst s) \<Longrightarrow> http_sound (fst (fst (http_Disconnect api s)))"
  by (auto simp: http_Disconnect_def http_sound_def split: prod.splits result.splits if_splits dest!: logout_client)

text \<open>
  C22: no disconnected client holds a token: construction establishes it, and connecting (with a
  login that may fail), disconnecting (with a logout that may fail), reading and writing keep it.
\<close>

theorem http_token_invariant:
  "(\<forall>c. NewHttpClient ep pt t args = Ok c \<longrightarrow> http_sound c) \<and>
   (http_sound (fst s) \<longrightarrow> http_sound (fst (fst (http_Connect I api s))) \<and>
      http_sound (fst (fst (http_Disconnect api s))) \<and>
      http_sound (fst (fst (http_ReadBatch I api s ps))) \<and> http_sound (fst (fst (http_WriteBatch I api s ps))))"
proof (intro conjI impI)
  show "\<forall>c. NewHttpClient ep pt t args = Ok c \<longrightarrow> http_sound c"
    by (auto simp: NewHttpClient_def Let_def http_sound_def split: option.splits)
qed (simp_all add: http_Connect_sound http_Disconnect_sound http_ReadBatch_client http_WriteBatch_client)

definition http_world_api :: "(http_request \<Rightarrow> int \<times> string) \<Rightarrow> http_request list http_api" where
  "http_world_api f = \<lparr>ht_NewRequest = (\<lambda>_ _. Inr ()),
     ht_Do = (\<lambda>_ req w. (w @ [req], Inr (fst (f req), Inr (snd (f req)))))\<rparr>"

definition http_idle :: http_client where
  "http_idle = \<lparr>hc_BaseURL = ''http://dev'', hc_ProtocolType = HTTPClient, hc_Timeout = defaultHTTPTimeout,
     hc_LoginURL = [], hc_LogoutURL = [], hc_Username = ''u'', hc_Password = ''p'', hc_AuthType = ''basic'',
     hc_TokenField = ''token'', hc_AuthHeader = ''Authorization'', hc_ReadMethod = ''GET'',
     hc_WriteMethod = ''POST'', hc_connected = False, hc_client = None, hc_token = []\<rparr>"

theorem http_token_invariant_witness:
  "\<forall>I f. http_sound (fst (fst (http_Connect I (http_world_api f) (http_idle, []))))"
proof (intro allI)
  fix I f
  have "http_sound (fst (http_idle, []))" by (simp add: http_sound_def http_idle_def)
  then show "http_sound (fst (fst (http_Connect I (http_world_api f) (http_idle, []))))"
    using http_token_invariant [of _ _ _ _ "(http_idle, [])" I "http_world_api f" "[]"] by blast
qed

text \<open>
  C38: a client without a login never authenticates: after it connected, no request carries any header
  but the content type, whatever its authentication type, user name and password are.
\<close>

theorem http_no_login_no_auth:
  assumes "http_sound h" and "\<not> hc_connected h" and "hc_LoginURL h = []"
    and "http_Connect I api (h, w) = (s', Ok ())" and "request_of api (fst s') m p b = Ok req"
  shows "\<forall>(k, v) \<in> set (hr_Header req). k = ''Content-Type''"
proof -
  have "hc_token h = []" using assms(1,2) by (auto simp: http_sound_def)
  then have "hc_token (fst s') = []"
    using assms(2-4) by (auto simp: http_Connect_def Let_def split: if_splits)
  moreover have "canonical_key ''Content-Type'' = ''Content-Type''"
    by (simp add: canonical_key_def token_char_def byte_def)
  ultimately show ?thesis using assms(5)
    by (auto simp: request_of_def rmap_Ok_iff wrap_err_Ok_iff new_request_def set_auth_def header_set_def split: if_splits)
qed

theorem http_no_login_no_auth_witness:
  "\<forall>I f. \<exists>req. request_of (http_world_api f) (fst (fst (http_Connect I (http_world_api f) (http_idle, [])))) ''GET'' ''/x'' None
     = Ok req \<and> (\<forall>(k, v) \<in> set (hr_Header req). k = ''Content-Type'')"
proof (intro allI)
  fix I f
  let ?s = "http_Connect I (http_world_api f) (http_idle, [])"
  obtain s' where c: "?s = (s', Ok ())" by (simp add: http_Connect_def Let_def http_idle_def)
  obtain req where r: "request_of (http_world_api f) (fst s') ''GET'' ''/x'' None = Ok req"
    by (simp add: request_of_def new_request_def http_world_api_def)
  have "http_sound http_idle" "\<not> hc_connected http_idle" "hc_LoginURL http_idle = []"
    by (simp_all add: http_sound_def http_idle_def)
  from http_no_login_no_auth [OF this c r] r c
  show "\<exists>req. request_of (http_world_api f) (fst (fst ?s)) ''GET'' ''/x'' None
     = Ok req \<and> (\<forall>(k, v) \<in> set (hr_Header req). k = ''Content-Type'')" by simp
qed

section \<open>Login\<close>

lemma json_value_quoted:
  "list_all (\<lambda>c. byte c < 128) s \<Longrightarrow> json_value (Suc n) (json_quote s @ r) = Some (JStr s, r)"
  by (simp add: json_quote_def skip_ws_def is_space_def byte_def [of "CHR 0x22"] json_str_quote)

lemma marshal_credentials:
  "marshal I (credentials h) = Ok (CHR ''{'' # json_quote ''password'' @ CHR '':'' # json_quote (hc_Password h)
     @ CHR '','' # json_quote ''username'' @ CHR '':'' # json_quote (hc_Username h) @ ''}'')"
  by (simp add: credentials_def)

lemma json_members_quoted:
  assumes "list_all (\<lambda>c. byte c < 128) k" and "list_all (\<lambda>c. byte c < 128) v"
  shows "json_members (Suc (Suc n)) (json_quote k @ CHR '':'' # json_quote v @ CHR ''}'' # r) = Some ([(k, JStr v)], r)"
    and "json_members (Suc (Suc n)) (json_quote k @ CHR '':'' # json_quote v @ CHR '','' # r) =
      map_option (\<lambda>(ms, z). ((k, JStr v) # ms, z)) (json_members (Suc n) r)"
proof -
  have k: "json_str (quote_body k @ CHR 0x22 # x) = Some (k, x)" for x by (rule json_str_quote [OF assms(1)])
  have v: "json_value (Suc n) (json_quote v @ x) = Some (JStr v, x)" for x by (rule json_value_quoted [OF assms(2)])
  have ws: "skip_ws (CHR 0x22 # x) = CHR 0x22 # x" "skip_ws (CHR '':'' # x) = CHR '':'' # x"
    "skip_ws (CHR ''}'' # x) = CHR ''}'' # x" "skip_ws (CHR '','' # x) = CHR '','' # x" for x
    by (simp_all add: skip_ws_def is_space_def byte_def)
  show "json_members (Suc (Suc n)) (json_quote k @ CHR '':'' # json_quote v @ CHR ''}'' # r) = Some ([(k, JStr v)], r)"
    by (subst json_quote_def) (simp add: k v ws del: json_value.simps)
  show "json_members (Suc (Suc n)) (json_quote k @ CHR '':'' # json_quote v @ CHR '','' # r) =
      map_option (\<lambda>(ms, z). ((k, JStr v) # ms, z)) (json_members (Suc n) r)"
    by (subst json_quote_def) (simp add: k v ws del: json_value.simps json_members.simps(2) add: json_members.simps(2) [of "Suc n"])
qed

text \<open>
  C23: whatever ASCII user name and password are configured, quotes and backslashes included, the login
  request carries a JSON object from which exactly these two are read.
\<close>

theorem http_login_credentials:
  assumes "login_request I api h = Ok req"
    and "list_all (\<lambda>c. byte c < 128) (hc_Username h)" and "list_all (\<lambda>c. byte c < 128) (hc_Password h)"
  shows "\<exists>b. hr_Body req = Some b \<and> json_parse b =
    Some (JObj [(''password'', JStr (hc_Password h)), (''username'', JStr (hc_Username h))])"
proof -
  let ?b = "CHR ''{'' # json_quote ''password'' @ CHR '':'' # json_quote (hc_Password h)
     @ CHR '','' # json_quote ''username'' @ CHR '':'' # json_quote (hc_Username h) @ ''}''"
  have "hr_Body req = Some ?b"
    using assms(1) by (auto simp: login_request_def marshal_credentials rbind_Ok_iff rmap_Ok_iff wrap_err_Ok_iff
        new_request_def header_set_def)
  moreover have "json_parse ?b = Some (JObj [(''password'', JStr (hc_Password h)), (''username'', JStr (hc_Username h))])"
  proof -
    have lit: "list_all (\<lambda>c. byte c < 128) ''password''" "list_all (\<lambda>c. byte c < 128) ''username''"
      by (simp_all add: byte_def)
    define X where "X = tl ?b"
    define n where "n = 2 * length X"
    have b: "?b = CHR ''{'' # X" by (simp add: X_def)
    obtain r where r: "X = CHR 0x22 # r" by (simp add: X_def json_quote_def)
    have "json_members (Suc (Suc (Suc n))) X =
        Some ([(''password'', JStr (hc_Password h)), (''username'', JStr (hc_Username h))], [])"
      using json_members_quoted(2) [OF lit(1) assms(3), of "Suc n"]
        json_members_quoted(1) [OF lit(2) assms(2), of n "[]"] by (simp add: X_def del: json_members.simps)
    moreover have "skip_ws (CHR ''{'' # x) = CHR ''{'' # x" "skip_ws (CHR 0x22 # x) = CHR 0x22 # x" "skip_ws [] = []" for x
      by (simp_all add: skip_ws_def is_space_def byte_def)
    ultimately show ?thesis
      unfolding json_parse_def b by (simp add: r n_def del: json_members.simps)
  qed
  ultimately show ?thesis by blast
qed

theorem http_login_credentials_witness:
  "\<forall>I f. \<exists>req b. login_request I (http_world_api f) (http_idle\<lparr>hc_Password := [CHR 0x22, CHR ''x'']\<rparr>) = Ok req \<and>
     hr_Body req = Some b \<and> json_parse b = Some (JObj [(''password'', JStr [CHR 0x22, CHR ''x'']), (''username'', JStr ''u'')])"
proof (intro allI)
  fix I f
  let ?h = "http_idle\<lparr>hc_Password := [CHR 0x22, CHR ''x'']\<rparr>"
  obtain req where r: "login_request I (http_world_api f) ?h = Ok req"
    by (simp add: login_request_def marshal_credentials new_request_def http_world_api_def)
  from http_login_credentials [OF r] r
  show "\<exists>req b. login_request I (http_world_api f) ?h = Ok req \<and>
     hr_Body req = Some b \<and> json_parse b = Some (JObj [(''password'', JStr [CHR 0x22, CHR ''x'']), (''username'', JStr ''u'')])"
    by (simp add: http_idle_def byte_def)
qed

section \<open>Reads\<close>

text \<open>
  A batch read is the sequence of its parts: the points are read in order, and from the first
  failure on nothing is requested or changed any more.
\<close>

theorem http_batch_sequential:
  "http_ReadBatch I api s (ps @ qs) = (case http_ReadBatch I api s ps of
       (s1, ps', Ok _) \<Rightarrow> (case http_ReadBatch I api s1 qs of (s2, qs', r) \<Rightarrow> (s2, ps' @ qs', r))
     | (s1, ps', r) \<Rightarrow> (s1, ps' @ qs, r))"
  by (induction ps arbitrary: s) (auto split: prod.splits result.splits)

text \<open>
  C39: a response that is no JSON object or array, a bare number or \<open>true\<close> included, is never read
  into a numeric or boolean resource: the read fails and the resource is unchanged.
\<close>

theorem http_scalar_body_not_numeric:
  assumes "http_toString (r_Address res) = Ok addr"
    and "doRequest api (hc_ReadMethod (fst s)) addr None s = (s', Ok body)"
    and "\<not> starts_with (CHR ''{'') (trim_space body)" and "\<not> starts_with (CHR ''['') (trim_space body)"
    and "r_Type res \<in> {''Uint8'', ''Uint16'', ''Uint32'', ''Uint64'', ''Int8'', ''Int16'', ''Int32'', ''Int64'',
      ''Float32'', ''Float64'', ''Bool''}"
  shows "\<exists>e. http_ReadSingle I api s res = (s', res, Err e)"
proof -
  have "\<exists>e. ValueToType I (VString x) (r_Type res) = Err e" for x
    using assms(5) by (auto simp: value_to_type_defs toUint64_def toInt64_def toFloat32_def toFloat64_def toBool_def)
  then have "\<exists>e. rbind (parseJSONValue body (r_Name res)) (\<lambda>val. ValueToType I val (r_Type res)) = Err e"
    using assms(3,4) by (auto simp: parseJSONValue_def)
  then show ?thesis using assms(1,2) by (auto simp: http_ReadSingle_def)
qed

theorem http_scalar_body_not_numeric_witness:
  "\<forall>I. \<exists>e. snd (snd (http_ReadSingle I (http_world_api (\<lambda>_. (200, ''42''))) (http_idle\<lparr>hc_client := Some 1\<rparr>, [])
     \<lparr>r_Name = ''t'', r_Address = VString ''/t'', r_Length = 0, r_Value = VNil, r_Type = ''Int32'', r_Decoder = [],
      r_Encoder = [], r_Args = None\<rparr>)) = Err e"
proof
  fix I
  let ?api = "http_world_api (\<lambda>_. (200, ''42''))" and ?s = "(http_idle\<lparr>hc_client := Some 1\<rparr>, [])"
    and ?r = "\<lparr>r_Name = ''t'', r_Address = VString ''/t'', r_Length = 0, r_Value = VNil, r_Type = ''Int32'', r_Decoder = [],
      r_Encoder = [], r_Args = None\<rparr>"
  obtain s' where d: "doRequest ?api (hc_ReadMethod (fst ?s)) ''/t'' None ?s = (s', Ok ''42'')"
    by (simp add: doRequest_def request_of_def new_request_def http_world_api_def http_do_def success_status_def)
  have "trim_space ''42'' = ''42''"
    by (simp add: trim_space_def space_seqs_def trim_left.simps)
  then have "\<exists>e. http_ReadSingle I ?api ?s ?r = (s', ?r, Err e)"
    using d by (intro http_scalar_body_not_numeric [where addr = "''/t''" and body = "''42''"])
      (auto simp: http_toString_def starts_with_def)
  then show "\<exists>e. snd (snd (http_ReadSingle I ?api ?s ?r)) = Err e" by auto
qed

end
