(* ===== verification/Poller.thy ===== *)
theory Poller
  imports Modbus Snmp Opcua Httpclient
begin

text \<open>
  \<open>pkg/protocol/poller.go\<close>: the pool of polling clients. A client is an object that the pool and its
  callers share, so the state has a store of client objects (an object is its index; allocation
  appends) beside the pool and the world. The pool's map is an association list in the order an
  iteration visits it.
\<close>

section \<open>One type for the clients\<close>

text \<open>The dynamic types behind the interface \<open>RWClient\<close>, and its methods.\<close>

datatype device_client =
    DevModbus modbus_client | DevSnmp snmp_client | DevOpcua opcua_client | DevHttp http_client

record ('n, 'w) adapters =
  ad_modbus :: "'w modbus_api"
  ad_snmp :: "'w snmp_api"
  ad_opcua :: "('n, 'w) opcua_api"
  ad_http :: "'w http_api"

type_synonym 'w client_state = "device_client \<times> 'w"

definition lift_client :: "('c \<Rightarrow> device_client) \<Rightarrow> ('c \<times> 'w) \<times> 'a \<Rightarrow> 'w client_state \<times> 'a" where
  "lift_client mk r = (case r of ((c, w), a) \<Rightarrow> ((mk c, w), a))"

fun client_Connect :: "go_impl \<Rightarrow> ('n, 'w) adapters \<Rightarrow> 'w client_state \<Rightarrow> 'w client_state \<times> unit result" where
  "client_Connect I A (DevModbus c, w) = lift_client DevModbus (modbus_Connect (ad_modbus A) (c, w))"
| "client_Connect I A (DevSnmp c, w) = lift_client DevSnmp (snmp_Connect (ad_snmp A) (c, w))"
| "client_Connect I A (DevOpcua c, w) = lift_client DevOpcua (opcua_Connect (ad_opcua A) (c, w))"
| "client_Connect I A (DevHttp c, w) = lift_client DevHttp (http_Connect I (ad_http A) (c, w))"

fun client_Disconnect :: "('n, 'w) adapters \<Rightarrow> 'w client_state \<Rightarrow> 'w client_state \<times> unit result" where
  "client_Disconnect A (DevModbus c, w) = lift_client DevModbus (modbus_Disconnect (ad_modbus A) (c, w))"
| "client_Disconnect A (DevSnmp c, w) = lift_client DevSnmp (snmp_Disconnect (ad_snmp A) (c, w))"
| "client_Disconnect A (DevOpcua c, w) = lift_client DevOpcua (opcua_Disconnect (ad_opcua A) (c, w))"
| "client_Disconnect A (DevHttp c, w) = lift_client DevHttp (http_Disconnect (ad_http A) (c, w))"

fun client_ReadSingle :: "go_impl \<Rightarrow> ('n, 'w) adapters \<Rightarrow> 'w client_state \<Rightarrow> resource
    \<Rightarrow> 'w client_state \<times> resource \<times> unit result" where
  "client_ReadSingle I A (DevModbus c, w) p = lift_client DevModbus (modbus_ReadSingle I (ad_modbus A) (c, w) p)"
| "client_ReadSingle I A (DevSnmp c, w) p = lift_client DevSnmp (snmp_ReadSingle I (ad_snmp A) (c, w) p)"
| "client_ReadSingle I A (DevOpcua c, w) p = lift_client DevOpcua (opcua_ReadSingle I (ad_opcua A) (c, w) p)"
| "client_ReadSingle I A (DevHttp c, w) p = lift_client DevHttp (http_ReadSingle I (ad_http A) (c, w) p)"

fun client_ReadBatch :: "go_impl \<Rightarrow> ('n, 'w) adapters \<Rightarrow> 'w client_state \<Rightarrow> resource list
    \<Rightarrow> 'w client_state \<times> resource list \<times> unit result" where
  "client_ReadBatch I A (DevModbus c, w) ps = lift_client DevModbus (modbus_ReadBatch I (ad_modbus A) (c, w) ps)"
| "client_ReadBatch I A (DevSnmp c, w) ps = lift_client DevSnmp (snmp_ReadBatch I (ad_snmp A) (c, w) ps)"
| "client_ReadBatch I A (DevOpcua c, w) ps = lift_client DevOpcua (opcua_ReadBatch (ad_opcua A) (c, w) ps)"
| "client_ReadBatch I A (DevHttp c, w) ps = lift_client DevHttp (http_ReadBatch I (ad_http A) (c, w) ps)"

fun client_WriteSingle :: "go_impl \<Rightarrow> ('n, 'w) adapters \<Rightarrow> 'w client_state \<Rightarrow> resource
    \<Rightarrow> 'w client_state \<times> unit result" where
  "client_WriteSingle I A (DevModbus c, w) p = lift_client DevModbus (modbus_WriteSingle I (ad_modbus A) (c, w) p)"
| "client_WriteSingle I A (DevSnmp c, w) p = lift_client DevSnmp (snmp_WriteSingle I (ad_snmp A) (c, w) p)"
| "client_WriteSingle I A (DevOpcua c, w) p = lift_client DevOpcua (opcua_WriteSingle I (ad_opcua A) (c, w) p)"
| "client_WriteSingle I A (DevHttp c, w) p = lift_client DevHttp (http_WriteSingle I (ad_http A) (c, w) p)"

fun client_WriteBatch :: "go_impl \<Rightarrow> ('n, 'w) adapters \<Rightarrow> 'w client_state \<Rightarrow> resource list
    \<Rightarrow> 'w client_state \<times> unit result" where
  "client_WriteBatch I A (DevModbus c, w) ps = lift_client DevModbus (modbus_WriteBatch I (ad_modbus A) (c, w) ps)"
| "client_WriteBatch I A (DevSnmp c, w) ps = lift_client DevSnmp (snmp_WriteBatch I (ad_snmp A) (c, w) ps)"
| "client_WriteBatch I A (DevOpcua c, w) ps = lift_client DevOpcua (opcua_WriteBatch I (ad_opcua A) (c, w) ps)"
| "client_WriteBatch I A (DevHttp c, w) ps = lift_client DevHttp (http_WriteBatch I (ad_http A) (c, w) ps)"

fun client_connected :: "device_client \<Rightarrow> bool" where
  "client_connected (DevModbus c) = mc_connected c"
| "client_connected (DevSnmp c) = sc_connected c"
| "client_connected (DevOpcua c) = (oc_client c \<noteq> None)"
| "client_connected (DevHttp c) = hc_connected c"

lemma lift_client_iff:
  "lift_client mk r = ((d, w), a) \<longleftrightarrow> (\<exists>c. r = ((c, w), a) \<and> d = mk c)"
  by (auto simp: lift_client_def split: prod.splits)

text \<open>The dispatch keeps the interfaces' laws because every adapter does.\<close>

lemma client_connects:
  "client_Connect I A s = (s', Ok ()) \<Longrightarrow> client_connected (fst s')"
  by (cases "(I, A, s)" rule: client_Connect.cases; cases s')
    (auto simp: lift_client_iff dest: modbus_session.connect_connects snmp_session.connect_connects
      opcua_session.connect_connects http_session.connect_connects)

lemma client_disconnects:
  assumes "client_Disconnect A s = (s', r)" and "\<And>m. r \<noteq> Panic m"
  shows "\<not> client_connected (fst s')"
  using assms
  by (cases "(A, s)" rule: client_Disconnect.cases; cases s')
    (auto simp: lift_client_iff dest: modbus_session.disconnect_disconnects [OF _ assms(2)]
      snmp_session.disconnect_disconnects [OF _ assms(2)] opcua_session.disconnect_disconnects [OF _ assms(2)]
      http_session.disconnect_disconnects [OF _ assms(2)])

interpretation client_session: session "client_Connect I A" "client_Disconnect A" "\<lambda>s. client_connected (fst s)" for I A
  by unfold_locales (rule client_connects, assumption, rule client_disconnects, assumption, blast)

lemma client_single_frame: "client_ReadSingle I A s p = (s', p', r) \<Longrightarrow> clear_value p' = clear_value p"
  by (cases "(I, A, s, p)" rule: client_ReadSingle.cases; cases s')
    (auto simp: lift_client_iff dest: modbus_reader.single_frame snmp_reader.single_frame opcua_reader.single_frame
      http_reader.single_frame)

lemma client_batch_frame: "client_ReadBatch I A s ps = (s', ps', r) \<Longrightarrow> map clear_value ps' = map clear_value ps"
  by (cases "(I, A, s, ps)" rule: client_ReadBatch.cases; cases s')
    (auto simp: lift_client_iff dest: modbus_reader.batch_frame snmp_reader.batch_frame opcua_reader.batch_frame
      http_reader.batch_frame)

interpretation client_reader: reader "client_ReadSingle I A" "client_ReadBatch I A" for I A
  by unfold_locales (rule client_single_frame client_batch_frame, assumption)+

fun client_usable :: "'w client_state \<Rightarrow> bool" where
  "client_usable (DevModbus c, w) = modbus_usable (c, w)"
| "client_usable (DevSnmp c, w) = snmp_usable (c, w)"
| "client_usable (DevOpcua c, w) = opcua_usable (c, w)"
| "client_usable (DevHttp c, w) = http_usable (c, w)"

lemma client_usable_world: "client_usable (c, w) = client_usable (c, w')"
  by (cases c) (simp_all add: modbus_usable_def snmp_usable_def opcua_usable_def http_usable_def)

lemma client_Connect_usable: "client_Connect I A s = (s', Ok ()) \<Longrightarrow> client_usable s'"
  by (cases "(I, A, s)" rule: client_Connect.cases; cases s')
    (auto simp: lift_client_iff dest: modbus_rw.connect_usable snmp_rw.connect_usable opcua_rw.connect_usable
      http_rw.connect_usable)

lemma client_ReadSingle_usable:
  "client_usable s \<Longrightarrow> client_ReadSingle I A s p = (s', p', r) \<Longrightarrow>
     client_usable s' \<and> (opcua_complete (ad_opcua A) \<longrightarrow> no_nil r)"
  by (cases "(I, A, s, p)" rule: client_ReadSingle.cases; cases s')
    (auto simp: lift_client_iff dest: modbus_rw.read_single_usable snmp_rw.read_single_usable
      opcua_rw.read_single_usable http_rw.read_single_usable)

lemma client_ReadBatch_usable:
  "client_usable s \<Longrightarrow> client_ReadBatch I A s ps = (s', ps', r) \<Longrightarrow> client_usable s' \<and> no_nil r"
  by (cases "(I, A, s, ps)" rule: client_ReadBatch.cases; cases s')
    (auto simp: lift_client_iff dest: modbus_rw.read_batch_usable snmp_rw.read_batch_usable
      opcua_rw.read_batch_usable http_rw.read_batch_usable)

lemma client_WriteSingle_usable:
  "client_usable s \<Longrightarrow> client_WriteSingle I A s p = (s', r) \<Longrightarrow>
     client_usable s' \<and> (opcua_complete (ad_opcua A) \<longrightarrow> no_nil r)"
  by (cases "(I, A, s, p)" rule: client_WriteSingle.cases; cases s')
    (auto simp: lift_client_iff dest: modbus_rw.write_single_usable snmp_rw.write_single_usable
      opcua_rw.write_single_usable http_rw.write_single_usable)

lemma client_WriteBatch_usable:
  "client_usable s \<Longrightarrow> client_WriteBatch I A s ps = (s', r) \<Longrightarrow>
     client_usable s' \<and> (opcua_complete (ad_opcua A) \<longrightarrow> no_nil r)"
  by (cases "(I, A, s, ps)" rule: client_WriteBatch.cases; cases s')
    (auto simp: lift_client_iff dest: modbus_rw.write_batch_usable snmp_rw.write_batch_usable
      opcua_rw.write_batch_usable http_rw.write_batch_usable)

lemma client_Connect_no_nil: "client_Connect I A s = (s', r) \<Longrightarrow> no_nil r"
  by (cases "(I, A, s)" rule: client_Connect.cases; cases s')
    (auto simp: lift_client_iff dest: modbus_rw.connect_no_nil snmp_rw.connect_no_nil opcua_rw.connect_no_nil
      http_rw.connect_no_nil)

interpretation client_rw: rw_client "client_Connect I A" "client_Disconnect A" "\<lambda>s. client_connected (fst s)"
    "client_ReadSingle I A" "client_ReadBatch I A" "client_WriteSingle I A" "client_WriteBatch I A" client_usable
    "opcua_complete (ad_opcua A)"
  for I A
  by unfold_locales (fact client_Connect_no_nil client_Connect_usable client_ReadSingle_usable client_ReadBatch_usable
    client_WriteSingle_usable client_WriteBatch_usable)+

section \<open>The pool\<close>

record polls =
  pl_timeout :: duration
  pl_maxSize :: int
  pl_clients :: "(string \<times> nat) list"

record 'w pool =
  po_polls :: polls
  po_store :: "device_client list"
  po_world :: 'w

definition WithTimeout :: "duration \<Rightarrow> polls \<Rightarrow> polls" where
  "WithTimeout d p = p\<lparr>pl_timeout := d\<rparr>"

definition WithMaxCounts :: "int \<Rightarrow> polls \<Rightarrow> polls" where
  "WithMaxCounts n p = p\<lparr>pl_maxSize := n\<rparr>"

definition NewPolls :: "(polls \<Rightarrow> polls) list \<Rightarrow> polls" where
  "NewPolls opts = fold (\<lambda>opt p. opt p) opts \<lparr>pl_timeout = 5 * second, pl_maxSize = 400, pl_clients = []\<rparr>"

definition addClient :: "string \<Rightarrow> nat \<Rightarrow> polls \<Rightarrow> polls" where
  "addClient key client p = p\<lparr>pl_clients := filter (\<lambda>e. fst e \<noteq> key) (pl_clients p) @ [(key, client)]\<rparr>"

definition removeClient :: "string \<Rightarrow> polls \<Rightarrow> polls" where
  "removeClient key p = p\<lparr>pl_clients := filter (\<lambda>e. fst e \<noteq> key) (pl_clients p)\<rparr>"

definition poll_newClient ::
  "go_impl \<Rightarrow> string \<Rightarrow> protocol_type \<Rightarrow> duration \<Rightarrow> properties \<Rightarrow> device_client result" where
  "poll_newClient I endpoint protocolName timeout args = (case protocolName of
       ModbusTCP \<Rightarrow> rmap DevModbus (NewModbusClient I endpoint ModbusTCP timeout args)
     | ModbusRTU \<Rightarrow> rmap DevModbus (NewModbusClient I endpoint ModbusRTU timeout args)
     | SNMP \<Rightarrow> rmap DevSnmp (NewSnmpClient I endpoint SNMP timeout args)
     | OPCUA \<Rightarrow> rmap DevOpcua (NewOpcuaClient endpoint OPCUA timeout args)
     | HTTPClient \<Rightarrow> rmap DevHttp (NewHttpClient endpoint HTTPClient timeout args)
     | _ \<Rightarrow> Err (Errorf ''unsupported protocol: %s'' [protocol_name protocolName]))"

text \<open>A method call on an object of the store.\<close>

definition on_object ::
  "('w client_state \<Rightarrow> 'w client_state \<times> 'a) \<Rightarrow> nat \<Rightarrow> 'w pool \<Rightarrow> 'w pool \<times> 'a" where
  "on_object f i s = (case f (po_store s ! i, po_world s) of
     ((c, w), a) \<Rightarrow> (s\<lparr>po_store := (po_store s)[i := c], po_world := w\<rparr>, a))"

definition GetHandler ::
  "go_impl \<Rightarrow> ('n, 'w) adapters \<Rightarrow> protocol_config \<Rightarrow> 'w pool \<Rightarrow> 'w pool \<times> nat result" where
  "GetHandler I A pc s = (case ValidateProtocol (pc_Name pc) of
       Err e \<Rightarrow> (s, Err e)
     | Panic m \<Rightarrow> (s, Panic m)
     | Ok protocol \<Rightarrow>
        (let endpoint = GetEndpoint pc
         in case map_of (pl_clients (po_polls s)) endpoint of
              Some adapter \<Rightarrow> (s, Ok adapter)
            | None \<Rightarrow>
               if pl_maxSize (po_polls s) \<le> int (length (pl_clients (po_polls s)))
               then (s, Err (Errorf ''max connections limit reached'' []))
               else (case wrap_err ''failed to create protocol for endpoint %s: %w'' [endpoint]
                             (poll_newClient I endpoint protocol (GetTimeout pc) (GetRawProtocolProperties pc)) of
                       Err e \<Rightarrow> (s, Err e)
                     | Panic m \<Rightarrow> (s, Panic m)
                     | Ok newAdapter \<Rightarrow>
                        (let i = length (po_store s)
                         in case on_object (client_Connect I A) i (s\<lparr>po_store := po_store s @ [newAdapter]\<rparr>) of
                              (s1, Err e) \<Rightarrow> (s1, Err (Wrapf ''failed to connect endpoint %s: %w'' [endpoint] e))
                            | (s1, Panic m) \<Rightarrow> (s1, Panic m)
                            | (s1, Ok _) \<Rightarrow> (s1\<lparr>po_polls := addClient endpoint i (po_polls s1)\<rparr>, Ok i)))))"

text \<open>The loop of \<open>DisconnectAll\<close>; the errors are dropped.\<close>

fun disconnect_loop :: "('n, 'w) adapters \<Rightarrow> (string \<times> nat) list \<Rightarrow> 'w pool \<Rightarrow> 'w pool \<times> unit result" where
  "disconnect_loop A [] s = (s, Ok ())"
| "disconnect_loop A ((key, i) # es) s = (case on_object (client_Disconnect A) i s of
       (s1, Panic m) \<Rightarrow> (s1, Panic m)
     | (s1, _) \<Rightarrow> disconnect_loop A es (s1\<lparr>po_polls := removeClient key (po_polls s1)\<rparr>))"

definition DisconnectAll :: "('n, 'w) adapters \<Rightarrow> 'w pool \<Rightarrow> 'w pool \<times> unit result" where
  "DisconnectAll A s = disconnect_loop A (pl_clients (po_polls s)) s"

section \<open>The pool's invariant\<close>

text \<open>
  Endpoints are distinct, every entry points to an object of the store, and there are no more
  entries than the limit allows.
\<close>

definition pool_ok :: "'w pool \<Rightarrow> bool" where
  "pool_ok s \<longleftrightarrow> distinct (map fst (pl_clients (po_polls s))) \<and>
     (\<forall>(k, i) \<in> set (pl_clients (po_polls s)). i < length (po_store s)) \<and>
     int (length (pl_clients (po_polls s))) \<le> max 0 (pl_maxSize (po_polls s))"

lemma on_object_fields:
  "on_object f i s = (s', r) \<Longrightarrow> po_polls s' = po_polls s \<and> length (po_store s') = length (po_store s) \<and>
     (\<forall>j. j \<noteq> i \<longrightarrow> po_store s' ! j = po_store s ! j)"
  by (auto simp: on_object_def split: prod.splits)

lemma on_object_at:
  "on_object f i s = (s', r) \<Longrightarrow> i < length (po_store s) \<Longrightarrow>
     f (po_store s ! i, po_world s) = ((po_store s' ! i, po_world s'), r)"
  by (auto simp: on_object_def split: prod.splits)

lemma addClient_new:
  "map_of (pl_clients p) k = None \<Longrightarrow> pl_clients (addClient k i p) = pl_clients p @ [(k, i)]"
  by (auto simp: addClient_def map_of_eq_None_iff filter_id_conv image_iff)

lemma map_of_addClient: "map_of (pl_clients p) k = None \<Longrightarrow> map_of (pl_clients (addClient k i p)) k = Some i"
  by (simp add: addClient_new map_add_def)

lemma addClient_fields [simp]:
  "pl_maxSize (addClient k i p) = pl_maxSize p" "pl_timeout (addClient k i p) = pl_timeout p"
  by (simp_all add: addClient_def)

text \<open>The outcomes of \<open>GetHandler\<close>: a cached client, a refusal, a failed connection, a new client.\<close>

lemma GetHandler_cases:
  assumes "GetHandler I A pc s = (s', r)"
  obtains (hit) i where "map_of (pl_clients (po_polls s)) (GetEndpoint pc) = Some i" "s' = s" "r = Ok i"
      "\<exists>p. ValidateProtocol (pc_Name pc) = Ok p"
  | (refused) "s' = s" "\<nexists>i. r = Ok i"
  | (failed) "map_of (pl_clients (po_polls s)) (GetEndpoint pc) = None"
      "po_polls s' = po_polls s" "length (po_store s') = Suc (length (po_store s))"
      "\<forall>j < length (po_store s). po_store s' ! j = po_store s ! j" "\<nexists>i. r = Ok i"
  | (created) p c where "map_of (pl_clients (po_polls s)) (GetEndpoint pc) = None"
      "int (length (pl_clients (po_polls s))) < pl_maxSize (po_polls s)"
      "ValidateProtocol (pc_Name pc) = Ok p"
      "poll_newClient I (GetEndpoint pc) p (GetTimeout pc) (GetRawProtocolProperties pc) = Ok c"
      "client_Connect I A (c, po_world s) = ((po_store s' ! length (po_store s), po_world s'), Ok ())"
      "po_polls s' = addClient (GetEndpoint pc) (length (po_store s)) (po_polls s)"
      "length (po_store s') = Suc (length (po_store s))"
      "\<forall>j < length (po_store s). po_store s' ! j = po_store s ! j" "r = Ok (length (po_store s))"
proof (cases "ValidateProtocol (pc_Name pc)")
  case (Ok p)
  show thesis
  proof (cases "map_of (pl_clients (po_polls s)) (GetEndpoint pc)")
    case (Some i)
    then show thesis using assms Ok by (intro hit [of i]) (auto simp: GetHandler_def)
  next
    case None
    show thesis
    proof (cases "pl_maxSize (po_polls s) \<le> int (length (pl_clients (po_polls s)))")
      case True
      then show thesis using assms Ok None by (intro refused) (auto simp: GetHandler_def)
    next
      case False
      show thesis
      proof (cases "poll_newClient I (GetEndpoint pc) p (GetTimeout pc) (GetRawProtocolProperties pc)")
        case c: (Ok c)
        let ?s0 = "s\<lparr>po_store := po_store s @ [c]\<rparr>"
        obtain s1 q where q: "on_object (client_Connect I A) (length (po_store s)) ?s0 = (s1, q)" by fastforce
        note fields = on_object_fields [OF q]
        have at: "client_Connect I A (c, po_world s) = ((po_store s1 ! length (po_store s), po_world s1), q)"
          using on_object_at [OF q] by simp
        have same: "\<forall>j < length (po_store s). po_store s1 ! j = po_store s ! j"
          using fields by (simp add: nth_append)
        show thesis
        proof (cases q)
          case u: (Ok u)
          have "s' = s1\<lparr>po_polls := addClient (GetEndpoint pc) (length (po_store s)) (po_polls s1)\<rparr>"
            and "r = Ok (length (po_store s))"
            using assms Ok None False c q u by (auto simp: GetHandler_def Let_def)
          then show thesis using Ok None False c at same fields u by (intro created [of p c]) auto
        next
          case (Err e)
          then have "s' = s1" "r = Err (Wrapf ''failed to connect endpoint %s: %w'' [GetEndpoint pc] e)"
            using assms Ok None False c q by (simp_all add: GetHandler_def Let_def)
          then show thesis using None fields same by (intro failed) auto
        next
          case (Panic m)
          then have "s' = s1" "r = Panic m"
            using assms Ok None False c q by (simp_all add: GetHandler_def Let_def)
          then show thesis using None fields same by (intro failed) auto
        qed
      next
        case (Err e)
        then show thesis using assms Ok None False by (intro refused) (auto simp: GetHandler_def)
      next
        case (Panic m)
        then show thesis using assms Ok None False by (intro refused) (auto simp: GetHandler_def)
      qed
    qed
  qed
next
  case (Err e)
  then show thesis using assms by (intro refused) (auto simp: GetHandler_def)
next
  case (Panic m)
  then show thesis using assms by (intro refused) (auto simp: GetHandler_def)
qed

lemma GetHandler_ok:
  assumes "pool_ok s" and "GetHandler I A pc s = (s', r)"
  shows "pool_ok s'"
  using assms(2)
proof (cases rule: GetHandler_cases)
  case failed
  then show ?thesis using assms(1) by (force simp: pool_ok_def)
next
  case (created p c)
  have "GetEndpoint pc \<notin> fst ` set (pl_clients (po_polls s))" using created(1) by (simp add: map_of_eq_None_iff)
  then show ?thesis using assms(1) created(2,6,7) addClient_new [OF created(1)]
    by (auto simp: pool_ok_def)
qed (use assms(1) in auto)

lemma disconnect_loop_step:
  assumes "disconnect_loop A ((k, i) # es) s = (s', Ok ())"
  obtains s1 where "po_polls s1 = removeClient k (po_polls s)" "length (po_store s1) = length (po_store s)"
    "disconnect_loop A es s1 = (s', Ok ())"
proof -
  obtain s1 q where q: "on_object (client_Disconnect A) i s = (s1, q)" by fastforce
  have "disconnect_loop A es (s1\<lparr>po_polls := removeClient k (po_polls s1)\<rparr>) = (s', Ok ())"
    using assms by (cases q) (simp_all add: q)
  then show thesis using on_object_fields [OF q]
    by (intro that [of "s1\<lparr>po_polls := removeClient k (po_polls s1)\<rparr>"]) simp_all
qed

lemma disconnect_loop_keeps:
  "disconnect_loop A es s = (s', Ok ()) \<Longrightarrow> length (po_store s') = length (po_store s) \<and>
     pl_clients (po_polls s') = filter (\<lambda>e. fst e \<notin> fst ` set es) (pl_clients (po_polls s)) \<and>
     pl_maxSize (po_polls s') = pl_maxSize (po_polls s)"
proof (induction es arbitrary: s)
  case (Cons e es)
  obtain k i where e: "e = (k, i)" by (cases e)
  from Cons.prems obtain s1 where s1: "po_polls s1 = removeClient k (po_polls s)"
    "length (po_store s1) = length (po_store s)" "disconnect_loop A es s1 = (s', Ok ())"
    unfolding e by (rule disconnect_loop_step)
  show ?case using Cons.IH [OF s1(3)] s1 e
    by (auto simp: removeClient_def conj_commute intro!: filter_cong)
qed simp

lemma DisconnectAll_empties: "DisconnectAll A s = (s', Ok ()) \<Longrightarrow> pl_clients (po_polls s') = []"
  using disconnect_loop_keeps [of A "pl_clients (po_polls s)" s s'] by (auto simp: DisconnectAll_def filter_empty_conv)

lemma NewPolls_clients:
  "set opts \<subseteq> range WithTimeout \<union> range WithMaxCounts \<Longrightarrow> pl_clients (NewPolls opts) = []"
proof -
  have "set opts \<subseteq> range WithTimeout \<union> range WithMaxCounts \<Longrightarrow>
      pl_clients (fold (\<lambda>opt p. opt p) opts p) = pl_clients p" for p
    by (induction opts arbitrary: p) (auto simp: WithTimeout_def WithMaxCounts_def)
  then show "set opts \<subseteq> range WithTimeout \<union> range WithMaxCounts \<Longrightarrow> ?thesis" by (simp add: NewPolls_def)
qed

text \<open>Every client in the pool has been connected, and stays usable.\<close>

definition pool_usable :: "'w pool \<Rightarrow> bool" where
  "pool_usable s \<longleftrightarrow> (\<forall>(k, i) \<in> set (pl_clients (po_polls s)).
     i < length (po_store s) \<and> client_usable (po_store s ! i, po_world s))"

lemma pool_usable_world: "pool_usable s \<Longrightarrow> pool_usable (s\<lparr>po_world := w\<rparr>)"
  by (auto simp: pool_usable_def intro: client_usable_world [THEN iffD1])

lemma on_object_usable:
  assumes "pool_usable s" and "on_object f i s = (s', r)"
    and "i < length (po_store s)" and "client_usable (po_store s' ! i, po_world s')"
  shows "pool_usable s'"
proof -
  have "client_usable (po_store s' ! j, po_world s')" if "(k, j) \<in> set (pl_clients (po_polls s))" for k j
  proof (cases "j = i")
    case False
    then have "po_store s' ! j = po_store s ! j" using on_object_fields [OF assms(2)] by simp
    then show ?thesis using assms(1) that client_usable_world by (fastforce simp: pool_usable_def)
  qed (use assms(4) in simp)
  then show ?thesis using assms(1) on_object_fields [OF assms(2)] by (auto simp: pool_usable_def)
qed

lemma GetHandler_usable:
  assumes "pool_usable s" and "GetHandler I A pc s = (s', r)"
  shows "pool_usable s'" and "r = Ok i \<Longrightarrow> i < length (po_store s') \<and> client_usable (po_store s' ! i, po_world s')"
proof -
  have "pool_usable s' \<and> (r = Ok i \<longrightarrow> i < length (po_store s') \<and> client_usable (po_store s' ! i, po_world s'))"
    using assms(2)
  proof (cases rule: GetHandler_cases)
    case (hit j)
    then show ?thesis using assms(1) map_of_SomeD [OF hit(1)] by (auto simp: pool_usable_def)
  next
    case refused
    then show ?thesis using assms(1) by auto
  next
    case failed
    then show ?thesis using assms(1) client_usable_world by (fastforce simp: pool_usable_def)
  next
    case (created p c)
    have "client_usable (po_store s' ! length (po_store s), po_world s')"
      using client_rw.connect_usable [OF created(5)] .
    then show ?thesis using assms(1) created(6-9) addClient_new [OF created(1)] client_usable_world
      by (fastforce simp: pool_usable_def)
  qed
  then show "pool_usable s'" "r = Ok i \<Longrightarrow> i < length (po_store s') \<and> client_usable (po_store s' ! i, po_world s')"
    by blast+
qed

section \<open>Properties of the pool\<close>

text \<open>
  C17: the pool is well formed at all times: a new pool is, whatever its options, and getting a
  handler, using a client and disconnecting all clients keep its endpoints distinct, its entries
  pointing to clients, and their number within the limit.
\<close>

theorem pool_invariant:
  "(set opts \<subseteq> range WithTimeout \<union> range WithMaxCounts \<longrightarrow>
      pool_ok \<lparr>po_polls = NewPolls opts, po_store = [], po_world = w\<rparr>) \<and>
   (pool_ok s \<longrightarrow> pool_ok (fst (GetHandler I A pc s)) \<and> pool_ok (fst (on_object f i s)) \<and>
      (snd (DisconnectAll A s) = Ok () \<longrightarrow> pool_ok (fst (DisconnectAll A s))))"
proof (intro conjI impI)
  show "pool_ok \<lparr>po_polls = NewPolls opts, po_store = [], po_world = w\<rparr>"
    if "set opts \<subseteq> range WithTimeout \<union> range WithMaxCounts"
    using NewPolls_clients [OF that] by (simp add: pool_ok_def)
  assume ok: "pool_ok s"
  show "pool_ok (fst (GetHandler I A pc s))" by (rule GetHandler_ok [OF ok]) (rule prod.collapse [symmetric])
  show "pool_ok (fst (on_object f i s))"
  proof -
    have "po_polls (fst (on_object f i s)) = po_polls s"
      "length (po_store (fst (on_object f i s))) = length (po_store s)"
      using on_object_fields [of f i s "fst (on_object f i s)" "snd (on_object f i s)"] by simp_all
    then show ?thesis using ok by (simp add: pool_ok_def)
  qed
  assume "snd (DisconnectAll A s) = Ok ()"
  then have "pl_clients (po_polls (fst (DisconnectAll A s))) = []"
    by (intro DisconnectAll_empties [of A s]) (metis prod.collapse)
  then show "pool_ok (fst (DisconnectAll A s))" by (simp add: pool_ok_def)
qed

definition world_adapters :: "(string, nat) adapters" where
  "world_adapters = \<lparr>ad_modbus = undefined, ad_snmp = snmp_world_api Map.empty, ad_opcua = opcua_world_api (\<lambda>_. VNil),
     ad_http = undefined\<rparr>"

definition opcua_pc :: protocol_config where
  "opcua_pc = \<lparr>pc_Name = ''opcua'', pc_rawProperties = Some [''Endpoint'' \<mapsto> ''dev:1'']\<rparr>"

definition snmp_pc :: protocol_config where
  "snmp_pc = \<lparr>pc_Name = ''snmp'', pc_rawProperties = Some [''Endpoint'' \<mapsto> ''dev:1'']\<rparr>"

definition empty_pool :: "nat pool" where
  "empty_pool = \<lparr>po_polls = NewPolls [WithMaxCounts 1], po_store = [], po_world = 0\<rparr>"

theorem pool_invariant_witness:
  "\<forall>I. pool_ok (fst (GetHandler I world_adapters opcua_pc empty_pool))"
proof
  fix I
  have "pool_ok empty_pool" unfolding empty_pool_def by (rule pool_invariant [THEN conjunct1, THEN mp]) auto
  from pool_invariant [THEN conjunct2, THEN mp, OF this]
  show "pool_ok (fst (GetHandler I world_adapters opcua_pc empty_pool))" by (rule conjunct1)
qed



text \<open>
  C40: clients are shared by endpoint alone: once a handler exists for an endpoint, a device with
  another protocol at the same endpoint is given the first protocol's client.
\<close>

theorem pool_keyed_by_endpoint:
  assumes "GetHandler I A pc1 s = (s1, Ok i)" and "GetEndpoint pc2 = GetEndpoint pc1"
    and "ValidateProtocol (pc_Name pc2) = Ok p2"
  shows "GetHandler I A pc2 s1 = (s1, Ok i)"
proof -
  have "map_of (pl_clients (po_polls s1)) (GetEndpoint pc1) = Some i"
    using assms(1)
  proof (cases rule: GetHandler_cases)
    case (created p c)
    then show ?thesis using map_of_addClient [OF created(1)] by simp
  qed auto
  then show ?thesis using assms(2,3) by (simp add: GetHandler_def)
qed

theorem pool_keyed_by_endpoint_witness:
  "\<forall>I. \<exists>s1 i c. GetHandler I world_adapters opcua_pc empty_pool = (s1, Ok i) \<and>
     GetHandler I world_adapters snmp_pc s1 = (s1, Ok i) \<and> po_store s1 ! i = DevOpcua c"
proof
  fix I
  have "\<exists>s1 c. GetHandler I world_adapters opcua_pc empty_pool = (s1, Ok 0) \<and> po_store s1 ! 0 = DevOpcua c"
    by (simp add: GetHandler_def ValidateProtocol_def opcua_pc_def empty_pool_def NewPolls_def WithMaxCounts_def
        poll_newClient_def NewOpcuaClient_def Let_def GetRawProtocolProperties_def on_object_def lift_client_def
        opcua_Connect_def opcua_world_api_def world_adapters_def)
  then obtain s1 c where g: "GetHandler I world_adapters opcua_pc empty_pool = (s1, Ok 0)" "po_store s1 ! 0 = DevOpcua c"
    by blast
  have "GetEndpoint snmp_pc = GetEndpoint opcua_pc" "ValidateProtocol (pc_Name snmp_pc) = Ok SNMP"
    by (simp_all add: snmp_pc_def opcua_pc_def GetEndpoint_def prop_get_def ValidateProtocol_def)
  from pool_keyed_by_endpoint [OF g(1) this] g
  show "\<exists>s1 i c. GetHandler I world_adapters opcua_pc empty_pool = (s1, Ok i) \<and>
     GetHandler I world_adapters snmp_pc s1 = (s1, Ok i) \<and> po_store s1 ! i = DevOpcua c" by blast
qed

section \<open>Concurrent callers\<close>

text \<open>
  \<open>GetHandler\<close> takes no lock, and the SDK calls it from several goroutines. Its reads and writes of
  the shared map are separate steps here: looking the endpoint up, counting the entries, creating
  and connecting a client (which may fail), storing it. A goroutine that got its answer may ask
  again. (The Go memory model gives unsynchronised map accesses no meaning at all; the steps are
  the best case, where each access is atomic.)
\<close>

datatype caller = Looking string | Counting string | Creating string | Answered "nat option"

record race =
  rc_polls :: polls
  rc_next :: nat
  rc_callers :: "caller list"

inductive race_step :: "race \<Rightarrow> race \<Rightarrow> bool" where
  look_hit: "\<lbrakk>i < length (rc_callers r); rc_callers r ! i = Looking e; map_of (pl_clients (rc_polls r)) e = Some c\<rbrakk> \<Longrightarrow>
    race_step r (r\<lparr>rc_callers := (rc_callers r)[i := Answered (Some c)]\<rparr>)"
| look_miss: "\<lbrakk>i < length (rc_callers r); rc_callers r ! i = Looking e; map_of (pl_clients (rc_polls r)) e = None\<rbrakk> \<Longrightarrow>
    race_step r (r\<lparr>rc_callers := (rc_callers r)[i := Counting e]\<rparr>)"
| refuse: "\<lbrakk>i < length (rc_callers r); rc_callers r ! i = Counting e;
      pl_maxSize (rc_polls r) \<le> int (length (pl_clients (rc_polls r)))\<rbrakk> \<Longrightarrow>
    race_step r (r\<lparr>rc_callers := (rc_callers r)[i := Answered None]\<rparr>)"
| admit: "\<lbrakk>i < length (rc_callers r); rc_callers r ! i = Counting e;
      int (length (pl_clients (rc_polls r))) < pl_maxSize (rc_polls r)\<rbrakk> \<Longrightarrow>
    race_step r (r\<lparr>rc_callers := (rc_callers r)[i := Creating e]\<rparr>)"
| fail: "\<lbrakk>i < length (rc_callers r); rc_callers r ! i = Creating e\<rbrakk> \<Longrightarrow>
    race_step r (r\<lparr>rc_callers := (rc_callers r)[i := Answered None]\<rparr>)"
| store: "\<lbrakk>i < length (rc_callers r); rc_callers r ! i = Creating e\<rbrakk> \<Longrightarrow>
    race_step r (r\<lparr>rc_polls := addClient e (rc_next r) (rc_polls r), rc_next := Suc (rc_next r),
      rc_callers := (rc_callers r)[i := Answered (Some (rc_next r))]\<rparr>)"
| again: "\<lbrakk>i < length (rc_callers r); rc_callers r ! i = Answered x\<rbrakk> \<Longrightarrow>
    race_step r (r\<lparr>rc_callers := (rc_callers r)[i := Looking e]\<rparr>)"

abbreviation race_steps :: "race \<Rightarrow> race \<Rightarrow> bool" where
  "race_steps \<equiv> race_step\<^sup>*\<^sup>*"

fun creating :: "caller \<Rightarrow> bool" where
  "creating (Creating e) = True"
| "creating _ = False"

definition in_flight :: "race \<Rightarrow> nat" where
  "in_flight r = length (filter creating (rc_callers r))"

lemma filter_update:
  "i < length xs \<Longrightarrow> length (filter P (xs[i := x])) + (if P (xs ! i) then 1 else 0) =
     length (filter P xs) + (if P x then 1 else 0)"
proof (induction xs arbitrary: i)
  case (Cons y ys)
  then show ?case by (cases i) auto
qed simp

lemma length_addClient: "length (pl_clients (addClient k i p)) \<le> Suc (length (pl_clients p))"
  by (simp add: addClient_def)

definition race_inv :: "int \<Rightarrow> nat \<Rightarrow> race \<Rightarrow> bool" where
  "race_inv m n r \<longleftrightarrow> pl_maxSize (rc_polls r) = m \<and> length (rc_callers r) = n \<and>
     int (length (pl_clients (rc_polls r)) + in_flight r) \<le> m + int n - 1"

lemma in_flight_le: "in_flight r \<le> length (rc_callers r)"
  by (simp add: in_flight_def)

lemma race_step_inv: "race_step r r' \<Longrightarrow> race_inv m n r \<Longrightarrow> race_inv m n r'"
proof (induction rule: race_step.induct)
  case (admit i r e)
  let ?r = "r\<lparr>rc_callers := (rc_callers r)[i := Creating e]\<rparr>"
  have "in_flight ?r \<le> length (rc_callers ?r)" by (rule in_flight_le)
  then show ?case using admit by (simp add: race_inv_def)
next
  case (store i r e)
  have "length (pl_clients (addClient e (rc_next r) (rc_polls r))) \<le> Suc (length (pl_clients (rc_polls r)))"
    by (rule length_addClient)
  then show ?case using store filter_update [OF store(1), of creating "Answered (Some (rc_next r))"]
    by (simp add: race_inv_def in_flight_def)
next
  case (look_hit i r e c)
  then show ?case using filter_update [OF look_hit(1), of creating "Answered (Some c)"]
    by (simp add: race_inv_def in_flight_def)
next
  case (look_miss i r e)
  then show ?case using filter_update [OF look_miss(1), of creating "Counting e"]
    by (simp add: race_inv_def in_flight_def)
next
  case (refuse i r e)
  then show ?case using filter_update [OF refuse(1), of creating "Answered None"]
    by (simp add: race_inv_def in_flight_def)
next
  case (fail i r e)
  then show ?case using filter_update [OF fail(1), of creating "Answered None"]
    by (simp add: race_inv_def in_flight_def)
next
  case (again i r x e)
  then show ?case using filter_update [OF again(1), of creating "Looking e"]
    by (simp add: race_inv_def in_flight_def)
qed

lemma race_steps_inv: "race_steps r r' \<Longrightarrow> race_inv m n r \<Longrightarrow> race_inv m n r'"
  by (induction rule: rtranclp_induct) (auto intro: race_step_inv)

definition race_start :: "int \<Rightarrow> string list \<Rightarrow> race" where
  "race_start m es = \<lparr>rc_polls = NewPolls [WithMaxCounts m], rc_next = 0, rc_callers = map Looking es\<rparr>"

text \<open>
  C28: with \<open>n\<close> concurrent callers, however their steps interleave and however often they ask, the pool
  never holds more than \<open>n - 1\<close> clients beyond its limit.
\<close>

theorem pool_race_bound:
  assumes "race_steps (race_start m es) r" and "0 \<le> m" and "es \<noteq> []"
  shows "int (length (pl_clients (rc_polls r))) \<le> m + int (length es) - 1"
proof -
  have "filter creating (map Looking es) = []" by (induction es) auto
  then have "race_inv m (length es) (race_start m es)"
    using assms(2,3) by (cases es) (auto simp: race_inv_def race_start_def in_flight_def NewPolls_def WithMaxCounts_def)
  then have "race_inv m (length es) r" by (rule race_steps_inv [OF assms(1)])
  then show ?thesis by (simp add: race_inv_def)
qed

text \<open>The run in which both callers of a pool for one client pass the check before either stores.\<close>

lemma race_run:
  "\<exists>r. race_steps (race_start 1 [''a'', ''b'']) r \<and> length (pl_clients (rc_polls r)) = 2"
proof -
  let ?p = "NewPolls [WithMaxCounts 1]"
  let ?st = "\<lambda>p n cs. \<lparr>rc_polls = p, rc_next = n, rc_callers = cs\<rparr>"
  have p: "pl_clients ?p = []" "pl_maxSize ?p = 1" by (simp_all add: NewPolls_def WithMaxCounts_def)
  have "race_step (?st ?p 0 [Looking ''a'', Looking ''b'']) (?st ?p 0 [Counting ''a'', Looking ''b''])"
    using look_miss [of 0 "?st ?p 0 [Looking ''a'', Looking ''b'']" "''a''"] p by simp
  moreover have "race_step (?st ?p 0 [Counting ''a'', Looking ''b'']) (?st ?p 0 [Counting ''a'', Counting ''b''])"
    using look_miss [of 1 "?st ?p 0 [Counting ''a'', Looking ''b'']" "''b''"] p by simp
  moreover have "race_step (?st ?p 0 [Counting ''a'', Counting ''b'']) (?st ?p 0 [Creating ''a'', Counting ''b''])"
    using admit [of 0 "?st ?p 0 [Counting ''a'', Counting ''b'']" "''a''"] p by simp
  moreover have "race_step (?st ?p 0 [Creating ''a'', Counting ''b'']) (?st ?p 0 [Creating ''a'', Creating ''b''])"
    using admit [of 1 "?st ?p 0 [Creating ''a'', Counting ''b'']" "''b''"] p by simp
  moreover have "race_step (?st ?p 0 [Creating ''a'', Creating ''b''])
      (?st (addClient ''a'' 0 ?p) 1 [Answered (Some 0), Creating ''b''])"
    using store [of 0 "?st ?p 0 [Creating ''a'', Creating ''b'']" "''a''"] by simp
  moreover have "race_step (?st (addClient ''a'' 0 ?p) 1 [Answered (Some 0), Creating ''b''])
      (?st (addClient ''b'' 1 (addClient ''a'' 0 ?p)) 2 [Answered (Some 0), Answered (Some 1)])"
    using store [of 1 "?st (addClient ''a'' 0 ?p) 1 [Answered (Some 0), Creating ''b'']" "''b''"]
    by (simp add: numeral_2_eq_2)
  ultimately have "race_steps (?st ?p 0 [Looking ''a'', Looking ''b''])
      (?st (addClient ''b'' 1 (addClient ''a'' 0 ?p)) 2 [Answered (Some 0), Answered (Some 1)])"
    by (meson converse_rtranclp_into_rtranclp rtranclp.rtrancl_refl)
  moreover have "length (pl_clients (addClient ''b'' 1 (addClient ''a'' 0 ?p))) = 2"
    by (simp add: addClient_def p)
  moreover have "race_start 1 [''a'', ''b''] = ?st ?p 0 [Looking ''a'', Looking ''b'']" by (simp add: race_start_def)
  ultimately show ?thesis
    by (intro exI [of _ "?st (addClient ''b'' 1 (addClient ''a'' 0 ?p)) 2 [Answered (Some 0), Answered (Some 1)]"])
      (simp only: race.select_convs simp_thms)
qed

theorem pool_race_bound_witness:
  "\<exists>r. race_steps (race_start 1 [''a'', ''b'']) r \<and> length (pl_clients (rc_polls r)) = 2 \<and>
     int (length (pl_clients (rc_polls r))) \<le> 1 + int (length [''a'', ''b'']) - 1"
proof -
  obtain r where r: "race_steps (race_start 1 [''a'', ''b'']) r" "length (pl_clients (rc_polls r)) = 2"
    using race_run by blast
  from pool_race_bound [OF r(1)] r show ?thesis by auto
qed

text \<open>
  The limit itself is not kept: two concurrent callers can both pass the check and fill a pool for
  one client with two.
\<close>

theorem pool_race_exceeds_limit:
  "\<exists>r. race_steps (race_start 1 [''a'', ''b'']) r \<and>
     pl_maxSize (rc_polls r) < int (length (pl_clients (rc_polls r)))"
proof -
  obtain r where r: "race_steps (race_start 1 [''a'', ''b'']) r" "length (pl_clients (rc_polls r)) = 2"
    using race_run by blast
  have "race_inv 1 2 (race_start 1 [''a'', ''b''])"
    by (simp add: race_inv_def race_start_def in_flight_def NewPolls_def WithMaxCounts_def)
  then have "pl_maxSize (rc_polls r) = 1" using race_steps_inv [OF r(1)] by (simp add: race_inv_def)
  then show ?thesis using r by auto
qed

end
