(* ===== verification/Driver.thy ===== *)
theory Driver
  imports Receivers Ingest Poller
begin

text \<open>
  The driver object of \<open>internal/driver/drive.go\<close>: its life cycle, the listener configuration, the
  read and write commands of the SDK, and the device callbacks. The driver's state is one record;
  the process-wide configuration cache and the table of channels are part of it. A channel of the
  SDK that was not enabled is nil, which is a channel without room.
\<close>

section \<open>State\<close>

datatype goroutine = Consumer | ListenerStart nat

record 'w driver =
  cd_polls :: "'w pool option"
  cd_cache :: protocol_cache
  cd_readCommandsExecuted :: "64 word option"
  cd_chans :: chans
  cd_receivedData :: nat
  cd_receivers :: "receivers option"
  cd_asyncCh :: "async_values channel"
  cd_deviceCh :: device_channel
  cd_ctx :: "bool option" \<comment> \<open>whether the context is done; \<open>None\<close> before \<open>Initialize\<close>\<close>
  cd_serviceConfig :: "64 word option" \<comment> \<open>its one writable setting, \<open>DiscoverSleepDurationSecs\<close>\<close>
  cd_goroutines :: "goroutine list"

section \<open>The listener configuration\<close>

record listener_item =
  li_Protocol :: string
  li_Enabled :: bool
  li_Host :: string
  li_Port :: "16 word"
  li_PushURL :: string
  li_Community :: string

definition zero_item :: listener_item where
  "zero_item = \<lparr>li_Protocol = [], li_Enabled = False, li_Host = [], li_Port = 0, li_PushURL = [], li_Community = []\<rparr>"

text \<open>\<open>json.Unmarshal\<close> into a \<open>ListenerItem\<close>, over what is there.\<close>

fun into_item :: "json \<Rightarrow> listener_item \<Rightarrow> listener_item option" where
  "into_item JNull x = Some x"
| "into_item (JObj ms) x =
     Option.bind (struct_field ''protocol'' into_string ms (li_Protocol x)) (\<lambda>p.
     Option.bind (struct_field ''enabled'' into_bool ms (li_Enabled x)) (\<lambda>en.
     Option.bind (struct_field ''host'' into_string ms (li_Host x)) (\<lambda>h.
     Option.bind (struct_field ''port'' into_uint16 ms (li_Port x)) (\<lambda>po.
     Option.bind (struct_field ''push_url'' into_string ms (li_PushURL x)) (\<lambda>u.
     Option.bind (struct_field ''community'' into_string ms (li_Community x)) (\<lambda>co.
       Some \<lparr>li_Protocol = p, li_Enabled = en, li_Host = h, li_Port = po, li_PushURL = u, li_Community = co\<rparr>))))))"
| "into_item _ x = None"

text \<open>Into a slice: an element that was there is decoded over.\<close>

fun into_items :: "json list \<Rightarrow> listener_item list \<Rightarrow> listener_item list option" where
  "into_items [] xs = Some []"
| "into_items (v # vs) xs = (case into_item v (case xs of [] \<Rightarrow> zero_item | x # _ \<Rightarrow> x) of
       None \<Rightarrow> None
     | Some y \<Rightarrow> map_option (\<lambda>ys. y # ys) (into_items vs (tl xs)))"

fun into_listeners :: "json \<Rightarrow> listener_item list \<Rightarrow> listener_item list option" where
  "into_listeners JNull xs = Some []"
| "into_listeners (JArr vs) xs = into_items vs xs"
| "into_listeners _ xs = None"

definition ListenerConfig :: "string \<Rightarrow> listener_item list result" where
  "ListenerConfig data = (case json_parse data of
       Some JNull \<Rightarrow> Ok []
     | Some (JObj ms) \<Rightarrow> (case struct_field ''listeners'' into_listeners ms [] of
           Some items \<Rightarrow> Ok items | None \<Rightarrow> Err json_error)
     | _ \<Rightarrow> Err json_error)"

definition register_item ::
  "(string \<Rightarrow> bool) \<Rightarrow> nat \<Rightarrow> listener_item \<Rightarrow> chans \<times> receivers \<Rightarrow> chans \<times> receivers result" where
  "register_item valid_pattern ch lc s = (case s of (chs, rc) \<Rightarrow>
     if \<not> li_Enabled lc then (chs, Ok rc)
     else if li_Protocol lc = ''http'' then
       RegisterHttpServer valid_pattern rc (li_Host lc) (li_Port lc)
         (if li_PushURL lc = [] then ''/alarm/push'' else li_PushURL lc) ch chs
     else if li_Protocol lc = ''mqtt'' then
       (case RegisterMqttServer rc (li_Host lc) (li_Port lc) ch chs of (chs', rc') \<Rightarrow> (chs', Ok rc'))
     else if li_Protocol lc = ''snmp'' then
       (case RegisterSnmpTrapServer rc (li_Host lc) (li_Port lc)
               (if li_Community lc = [] then ''public'' else li_Community lc) ch chs of (chs', rc') \<Rightarrow> (chs', Ok rc'))
     else (chs, Ok rc))"

fun register_items ::
  "(string \<Rightarrow> bool) \<Rightarrow> nat \<Rightarrow> listener_item list \<Rightarrow> chans \<times> receivers \<Rightarrow> chans \<times> receivers result" where
  "register_items vp ch [] (chs, rc) = (chs, Ok rc)"
| "register_items vp ch (lc # lcs) s = (case register_item vp ch lc s of
       (chs, Ok rc) \<Rightarrow> register_items vp ch lcs (chs, rc)
     | (chs, r) \<Rightarrow> (chs, r))"

text \<open>
  The outside of the driver at start: the setting of the configuration file (\<open>None\<close> when there is no
  file or no setting), the files, the multiplexer's patterns, and the SDK's answers.
\<close>

record environment =
  en_toml :: "goval option"
  en_ReadFile :: "string \<Rightarrow> string answer"
  en_valid_pattern :: "string \<Rightarrow> bool"
  en_LoadCustomConfig :: "64 word answer"
  en_ListenForCustomConfigChanges :: "unit answer"
  en_metrics :: "(string \<Rightarrow> unit answer) option"

definition config_path :: "environment \<Rightarrow> string" where
  "config_path E = (case en_toml E of
       Some (VString s) \<Rightarrow> if s \<noteq> [] then s else ''res/custom/listener.json''
     | _ \<Rightarrow> ''res/custom/listener.json'')"

definition loadListeners :: "environment \<Rightarrow> 'w driver \<Rightarrow> 'w driver \<times> unit result" where
  "loadListeners E d =
     (case rbind (wrap_err ''read listener config %s: %w'' [config_path E] (of_answer (en_ReadFile E (config_path E))))
             (\<lambda>data. wrap_err ''parse listener config: %w'' [] (ListenerConfig data)) of
        Err e \<Rightarrow> (d, Err e)
      | Panic m \<Rightarrow> (d, Panic m)
      | Ok items \<Rightarrow> (case cd_receivers d of
           None \<Rightarrow> (d, if list_ex (\<lambda>lc. li_Enabled lc \<and> li_Protocol lc \<in> {''http'', ''mqtt'', ''snmp''}) items
                       then nil_panic else Ok ())
         | Some rc \<Rightarrow> (case register_items (en_valid_pattern E) (cd_receivedData d) items (cd_chans d, rc) of
               (chs, Ok rc') \<Rightarrow> (d\<lparr>cd_chans := chs, cd_receivers := Some rc'\<rparr>, Ok ())
             | (chs, Err e) \<Rightarrow> (d\<lparr>cd_chans := chs\<rparr>, Err e)
             | (chs, Panic m) \<Rightarrow> (d\<lparr>cd_chans := chs\<rparr>, Panic m))))"

section \<open>Life cycle\<close>

text \<open>\<open>w\<close> is the outside world the polling clients will talk to.\<close>

definition driver_Start :: "environment \<Rightarrow> 'w \<Rightarrow> 'w driver \<Rightarrow> 'w driver \<times> unit result" where
  "driver_Start E w d =
     (let d1 = d\<lparr>cd_polls := Some \<lparr>po_polls = NewPolls [WithMaxCounts 30, WithTimeout (5 * second)],
                   po_store = [], po_world = w\<rparr>\<rparr>
      in case NewReceivers 15 16 (cd_chans d1) of
           (chs, Panic m) \<Rightarrow> (d1\<lparr>cd_chans := chs\<rparr>, Panic m)
         | (chs, Err e) \<Rightarrow> (d1\<lparr>cd_chans := chs\<rparr>, Err e)
         | (chs, Ok rc) \<Rightarrow>
            (let d2 = d1\<lparr>cd_chans := chs, cd_receivers := Some rc, cd_goroutines := cd_goroutines d1 @ [Consumer]\<rparr>
             in case loadListeners E d2 of
                  (d3, Ok _) \<Rightarrow> (case cd_receivers d3 of
                      None \<Rightarrow> (d3, nil_panic)
                    | Some rc' \<Rightarrow> (case StartAll rc' of (is, r) \<Rightarrow>
                        (d3\<lparr>cd_goroutines := cd_goroutines d3 @ map ListenerStart is\<rparr>, r)))
                | (d3, r) \<Rightarrow> (d3, r)))"

definition initMetrics :: "(string \<Rightarrow> unit answer) option \<Rightarrow> 'w driver \<Rightarrow> 'w driver \<times> unit result" where
  "initMetrics metrics d =
     (d\<lparr>cd_readCommandsExecuted := Some 0\<rparr>,
      wrap_err ''unable to register metric %s: %s'' [''ReadCommandsExecuted'']
        (case metrics of
           Some register \<Rightarrow> of_answer (register ''ReadCommandsExecuted'')
         | None \<Rightarrow> Err (Errorf ''metrics manager not available'' [])))"

definition Initialize ::
  "environment \<Rightarrow> 'w \<Rightarrow> async_values channel \<Rightarrow> device_channel \<Rightarrow> 'w driver \<Rightarrow> 'w driver \<times> unit result" where
  "Initialize E w asyncCh deviceCh d =
     (case new_chan 256 (cd_chans d) of (ch, chs) \<Rightarrow>
       let d1 = d\<lparr>cd_asyncCh := asyncCh, cd_deviceCh := deviceCh, cd_ctx := Some False, cd_chans := chs,
                  cd_receivedData := ch, cd_serviceConfig := Some 0\<rparr>
       in case en_LoadCustomConfig E of
            Inl e \<Rightarrow> (d1, Err (Wrapf ''unable to load 'SimpleCustom' custom configuration: %s'' [] e))
          | Inr secs \<Rightarrow>
             (let d2 = d1\<lparr>cd_serviceConfig := Some secs\<rparr>
              in case en_ListenForCustomConfigChanges E of
                   Inl e \<Rightarrow> (d2, Err (Wrapf ''unable to listen for changes for 'SimpleCustom.Writable' custom configuration: %s'' [] e))
                 | Inr _ \<Rightarrow> driver_Start E w (fst (initMetrics (en_metrics E) d2))))"

definition driver_Stop :: "'v stop_api \<Rightarrow> bool \<Rightarrow> 'w driver \<times> 'v \<Rightarrow> ('w driver \<times> 'v) \<times> unit result" where
  "driver_Stop P force s = (case s of (d, v) \<Rightarrow>
     case StopAll P (cd_receivers d) v of
       ((rc, v'), Panic m) \<Rightarrow> ((d\<lparr>cd_receivers := rc\<rparr>, v'), Panic m)
     | ((rc, v'), _) \<Rightarrow>
         (case cd_ctx d of
            None \<Rightarrow> ((d\<lparr>cd_receivers := rc\<rparr>, v'), nil_panic)
          | Some _ \<Rightarrow> ((d\<lparr>cd_receivers := rc, cd_ctx := Some True\<rparr>, v'), Ok ())))"

section \<open>Commands\<close>

definition driver_GetHandler ::
  "go_impl \<Rightarrow> ('n, 'w) adapters \<Rightarrow> protocol_config \<Rightarrow> 'w pool option \<Rightarrow> 'w pool option \<times> nat result" where
  "driver_GetHandler I A pc polls = (case polls of
       None \<Rightarrow> (None, rbind (ValidateProtocol (pc_Name pc)) (\<lambda>_. nil_panic))
     | Some p \<Rightarrow> (case GetHandler I A pc p of (p', r) \<Rightarrow> (Some p', r)))"

text \<open>The handler calls; the object lives in the pool's store.\<close>

definition with_handler ::
  "('w client_state \<Rightarrow> 'w client_state \<times> 'a) \<Rightarrow> nat \<Rightarrow> 'w pool option \<Rightarrow> 'w pool option \<times> 'a option" where
  "with_handler f h polls = (case polls of
       None \<Rightarrow> (None, None)
     | Some p \<Rightarrow> (case on_object f h p of (p', a) \<Rightarrow> (Some p', Some a)))"

definition count_read :: "'w driver \<Rightarrow> 'w driver" where \<comment> \<open>\<open>readCommandsExecuted.Inc(1)\<close>\<close>
  "count_read d = d\<lparr>cd_readCommandsExecuted := map_option (\<lambda>n. n + 1) (cd_readCommandsExecuted d)\<rparr>"

definition counted :: "'w driver \<Rightarrow> command_value list \<Rightarrow> 'w driver \<times> command_value list result" where
  "counted d cvs = (if cd_readCommandsExecuted d = None then (d, nil_panic) else (count_read d, Ok cvs))"

text \<open>One iteration of the loop over the protocols: the values it appends.\<close>

definition read_protocol ::
  "go_impl \<Rightarrow> ('n, 'w) adapters \<Rightarrow> new_command_value \<Rightarrow> string \<Rightarrow> command_request list \<Rightarrow> string \<times> properties
     \<Rightarrow> 'w driver \<Rightarrow> 'w driver \<times> command_value list result" where
  "read_protocol I A newcv deviceName reqs np d =
     (case ResolveProtocolConfig deviceName (fst np) (snd np) (cd_cache d) of (m, pc) \<Rightarrow>
       let d1 = d\<lparr>cd_cache := m\<rparr>
       in if IsDisabled pc then (d1, Ok [])
          else (case driver_GetHandler I A pc (cd_polls d1) of
              (polls, Err e) \<Rightarrow> (d1\<lparr>cd_polls := polls\<rparr>, Ok [])
            | (polls, Panic m) \<Rightarrow> (d1\<lparr>cd_polls := polls\<rparr>, Panic m)
            | (polls, Ok h) \<Rightarrow>
                if length reqs = 1 then
                  (case with_handler (\<lambda>s. HandleReadSingle I newcv (client_ReadSingle I A) s (hd reqs)) h polls of
                     (polls', Some (Ok cv)) \<Rightarrow> counted (d1\<lparr>cd_polls := polls'\<rparr>) [cv]
                   | (polls', Some (Panic m)) \<Rightarrow> (d1\<lparr>cd_polls := polls'\<rparr>, Panic m)
                   | (polls', _) \<Rightarrow> (d1\<lparr>cd_polls := polls'\<rparr>, Ok []))
                else
                  (case with_handler (\<lambda>s. HandleReadBatch I newcv (client_ReadBatch I A) s reqs) h polls of
                     (polls', Some (cvs, Panic m)) \<Rightarrow> (d1\<lparr>cd_polls := polls'\<rparr>, Panic m)
                   | (polls', Some (cvs, _)) \<Rightarrow> counted (d1\<lparr>cd_polls := polls'\<rparr>) cvs
                   | (polls', None) \<Rightarrow> (d1\<lparr>cd_polls := polls'\<rparr>, Ok []))))"

fun HandleReadCommands ::
  "go_impl \<Rightarrow> ('n, 'w) adapters \<Rightarrow> new_command_value \<Rightarrow> string \<Rightarrow> (string \<times> properties) list \<Rightarrow> command_request list
     \<Rightarrow> 'w driver \<Rightarrow> 'w driver \<times> command_value list result" where
  "HandleReadCommands I A newcv deviceName [] reqs d = (d, Ok [])"
| "HandleReadCommands I A newcv deviceName (np # nps) reqs d =
     (case read_protocol I A newcv deviceName reqs np d of
        (d1, Ok cvs) \<Rightarrow> (case HandleReadCommands I A newcv deviceName nps reqs d1 of (d2, r) \<Rightarrow>
            (d2, rmap (\<lambda>cvs'. cvs @ cvs') r))
      | (d1, r) \<Rightarrow> (d1, r))"

definition write_protocol ::
  "go_impl \<Rightarrow> ('n, 'w) adapters \<Rightarrow> string \<Rightarrow> command_request list \<Rightarrow> command_value list \<Rightarrow> string \<times> properties
     \<Rightarrow> 'w driver \<Rightarrow> 'w driver \<times> unit result" where
  "write_protocol I A deviceName reqs params np d =
     (case ResolveProtocolConfig deviceName (fst np) (snd np) (cd_cache d) of (m, pc) \<Rightarrow>
       let d1 = d\<lparr>cd_cache := m\<rparr>
       in if IsDisabled pc then (d1, Ok ())
          else (case driver_GetHandler I A pc (cd_polls d1) of
              (polls, Err e) \<Rightarrow> (d1\<lparr>cd_polls := polls\<rparr>, Ok ())
            | (polls, Panic m) \<Rightarrow> (d1\<lparr>cd_polls := polls\<rparr>, Panic m)
            | (polls, Ok h) \<Rightarrow>
                if length reqs = 1 then
                  (case params of
                     [] \<Rightarrow> (d1\<lparr>cd_polls := polls\<rparr>, index_panic)
                   | param # _ \<Rightarrow>
                      (case with_handler (\<lambda>s. HandleWriteSingle I (client_WriteSingle I A) s (hd reqs) param) h polls of
                         (polls', r) \<Rightarrow> (d1\<lparr>cd_polls := polls'\<rparr>, (case r of Some x \<Rightarrow> x | None \<Rightarrow> Ok ()))))
                else
                  (case with_handler (\<lambda>s. HandleWriteBatch I (client_WriteBatch I A) s reqs params) h polls of
                     (polls', r) \<Rightarrow> (d1\<lparr>cd_polls := polls'\<rparr>, (case r of Some x \<Rightarrow> x | None \<Rightarrow> Ok ())))))"

fun HandleWriteCommands ::
  "go_impl \<Rightarrow> ('n, 'w) adapters \<Rightarrow> string \<Rightarrow> (string \<times> properties) list \<Rightarrow> command_request list \<Rightarrow> command_value list
     \<Rightarrow> 'w driver \<Rightarrow> 'w driver \<times> unit result" where
  "HandleWriteCommands I A deviceName [] reqs params d = (d, Ok ())"
| "HandleWriteCommands I A deviceName (np # nps) reqs params d =
     (case write_protocol I A deviceName reqs params np d of
        (d1, Ok _) \<Rightarrow> HandleWriteCommands I A deviceName nps reqs params d1
      | (d1, r) \<Rightarrow> (d1, r))"

section \<open>Device callbacks, discovery and configuration\<close>

definition AddDevice :: "string \<Rightarrow> (string \<times> properties) list \<Rightarrow> 'w driver \<Rightarrow> 'w driver \<times> unit result" where
  "AddDevice deviceName protocols d = (d, Ok ())"

definition UpdateDevice :: "string \<Rightarrow> (string \<times> properties) list \<Rightarrow> 'w driver \<Rightarrow> 'w driver \<times> unit result" where
  "UpdateDevice deviceName protocols d = (d, Ok ())"

definition RemoveDevice :: "string \<Rightarrow> (string \<times> properties) list \<Rightarrow> 'w driver \<Rightarrow> 'w driver \<times> unit result" where
  "RemoveDevice deviceName protocols d = (d, Ok ())"

definition discovered_devices :: "discovered_device list" where
  "discovered_devices =
     [\<lparr>dd_Name = ''Simple-Device-for-test'', dd_Protocols = [(''other'', [(''Address'', ''simple02''), (''Port'', ''301'')])],
       dd_Description = ''found by discovery'', dd_Labels = [''auto-discovery'']\<rparr>,
      \<lparr>dd_Name = ''Simple-Device03'', dd_Protocols = [(''other'', [(''Address'', ''simple03''), (''Port'', ''399'')])],
       dd_Description = ''found by discovery'', dd_Labels = [''auto-discovery'']\<rparr>]"

text \<open>How long \<open>Discover\<close> sleeps, and the driver after the send (\<open>None\<close> while it waits for room).\<close>

definition Discover :: "'w driver \<Rightarrow> (duration \<times> 'w driver option) result" where
  "Discover d = (case cd_serviceConfig d of
       None \<Rightarrow> nil_panic
     | Some secs \<Rightarrow> Ok (secs * second, map_option (\<lambda>c. d\<lparr>cd_deviceCh := c\<rparr>) (send discovered_devices (cd_deviceCh d))))"

text \<open>\<open>None\<close> is a raw configuration of another type.\<close>

definition ProcessCustomConfigChanges :: "64 word option \<Rightarrow> 'w driver \<Rightarrow> 'w driver result" where
  "ProcessCustomConfigChanges raw d = (case raw of
       None \<Rightarrow> Ok d
     | Some updated \<Rightarrow> (case cd_serviceConfig d of
           None \<Rightarrow> nil_panic
         | Some previous \<Rightarrow> Ok (d\<lparr>cd_serviceConfig := Some updated\<rparr>)))"

end
