(* ===== verification/Commands.thy ===== *)
theory Commands
  imports Driver
begin

text \<open>
  What the driver's commands and life cycle guarantee: the client pool stays within its limit
  whatever the SDK asks, reads never fail and answer requests, the configuration in force is the
  first one seen, every configured listener feeds the one event channel, and stopping reaches every
  listener.
\<close>

section \<open>The pool under any commands\<close>

definition polls_ok :: "'w pool option \<Rightarrow> bool" where
  "polls_ok polls \<longleftrightarrow> (\<forall>p. polls = Some p \<longrightarrow> pool_ok p \<and> pl_maxSize (po_polls p) = 30)"

lemma GetHandler_max: "GetHandler I A pc s = (s', r) \<Longrightarrow> pl_maxSize (po_polls s') = pl_maxSize (po_polls s)"
  by (erule GetHandler_cases) simp_all

lemma driver_GetHandler_ok: "driver_GetHandler I A pc polls = (polls', r) \<Longrightarrow> polls_ok polls \<Longrightarrow> polls_ok polls'"
  by (auto simp: driver_GetHandler_def polls_ok_def GetHandler_max intro: GetHandler_ok split: option.splits prod.splits)

lemma with_handler_ok: "with_handler f h polls = (polls', r) \<Longrightarrow> polls_ok polls \<Longrightarrow> polls_ok polls'"
  by (auto simp: with_handler_def polls_ok_def pool_ok_def split: option.splits prod.splits dest: on_object_fields)

lemmas polls_kept = driver_GetHandler_ok [OF prod.collapse [symmetric]] with_handler_ok [OF prod.collapse [symmetric]]

lemma counted_polls [simp]: "cd_polls (fst (counted d cvs)) = cd_polls d" "cd_cache (fst (counted d cvs)) = cd_cache d"
  by (simp_all add: counted_def count_read_def)

lemma read_protocol_ok:
  assumes "polls_ok (cd_polls d)"
  shows "polls_ok (cd_polls (fst (read_protocol I A newcv dev reqs np d)))"
  using assms by (auto simp: read_protocol_def Let_def case_prod_beta polls_kept split: result.split option.split)

lemma write_protocol_ok:
  assumes "polls_ok (cd_polls d)"
  shows "polls_ok (cd_polls (fst (write_protocol I A dev reqs params np d)))"
  using assms by (auto simp: write_protocol_def Let_def case_prod_beta polls_kept split: result.split list.split)

lemma HandleReadCommands_ok:
  "polls_ok (cd_polls d) \<Longrightarrow> polls_ok (cd_polls (fst (HandleReadCommands I A newcv dev nps reqs d)))"
proof (induction nps arbitrary: d)
  case (Cons np nps)
  obtain d1 r where r: "read_protocol I A newcv dev reqs np d = (d1, r)" by fastforce
  then have "polls_ok (cd_polls d1)" using read_protocol_ok [OF Cons.prems] by (metis fst_conv)
  then show ?case using Cons.IH [of d1] r by (cases r) (auto split: prod.split)
qed simp

lemma HandleWriteCommands_ok:
  "polls_ok (cd_polls d) \<Longrightarrow> polls_ok (cd_polls (fst (HandleWriteCommands I A dev nps reqs params d)))"
proof (induction nps arbitrary: d)
  case (Cons np nps)
  obtain d1 r where r: "write_protocol I A dev reqs params np d = (d1, r)" by fastforce
  then have "polls_ok (cd_polls d1)" using write_protocol_ok [OF Cons.prems] by (metis fst_conv)
  then show ?case using Cons.IH [of d1] r by (cases r) auto
qed simp

text \<open>The calls the SDK makes after the start.\<close>

datatype command =
    ReadCmd string "(string \<times> properties) list" "command_request list"
  | WriteCmd string "(string \<times> properties) list" "command_request list" "command_value list"
  | AddCmd string "(string \<times> properties) list"
  | UpdateCmd string "(string \<times> properties) list"
  | RemoveCmd string "(string \<times> properties) list"

fun run_command :: "go_impl \<Rightarrow> ('n, 'w) adapters \<Rightarrow> new_command_value \<Rightarrow> 'w driver \<Rightarrow> command \<Rightarrow> 'w driver" where
  "run_command I A newcv d (ReadCmd dev nps reqs) = fst (HandleReadCommands I A newcv dev nps reqs d)"
| "run_command I A newcv d (WriteCmd dev nps reqs params) = fst (HandleWriteCommands I A dev nps reqs params d)"
| "run_command I A newcv d (AddCmd dev nps) = fst (AddDevice dev nps d)"
| "run_command I A newcv d (UpdateCmd dev nps) = fst (UpdateDevice dev nps d)"
| "run_command I A newcv d (RemoveCmd dev nps) = fst (RemoveDevice dev nps d)"

lemma run_commands_ok: "polls_ok (cd_polls d) \<Longrightarrow> polls_ok (cd_polls (foldl (run_command I A newcv) d cmds))"
proof (induction cmds arbitrary: d)
  case (Cons c cmds)
  have "polls_ok (cd_polls (run_command I A newcv d c))"
    using Cons.prems by (cases c) (simp_all add: HandleReadCommands_ok HandleWriteCommands_ok AddDevice_def UpdateDevice_def RemoveDevice_def)
  then show ?case using Cons.IH by simp
qed simp

lemma loadListeners_keeps:
  "loadListeners E d = (d', r) \<Longrightarrow> cd_polls d' = cd_polls d \<and> cd_receivedData d' = cd_receivedData d \<and>
     cd_goroutines d' = cd_goroutines d \<and> cd_cache d' = cd_cache d"
  by (auto simp: loadListeners_def split: result.splits option.splits prod.splits)

lemma driver_Start_pool:
  "driver_Start E w d = (d', r) \<Longrightarrow>
     cd_polls d' = Some \<lparr>po_polls = NewPolls [WithMaxCounts 30, WithTimeout (5 * second)], po_store = [], po_world = w\<rparr>"
  by (auto simp: driver_Start_def Let_def NewReceivers_def split: result.splits option.splits prod.splits if_splits
      dest!: loadListeners_keeps)

lemma driver_Start_polls: "driver_Start E w d = (d', r) \<Longrightarrow> polls_ok (cd_polls d')"
  by (auto dest!: driver_Start_pool simp: polls_ok_def pool_ok_def NewPolls_def WithMaxCounts_def WithTimeout_def)

text \<open>
  C5: after a start, no sequence of reads, writes and device callbacks, for whatever devices and with
  whatever answers of the network, makes the pool hold more than 30 clients or two for an endpoint.
\<close>

theorem driver_pool_bounded:
  assumes "driver_Start E w d = (d0, Ok ())"
    and "cd_polls (foldl (run_command I A newcv) d0 cmds) = Some p"
  shows "pool_ok p \<and> length (pl_clients (po_polls p)) \<le> 30"
  using run_commands_ok [OF driver_Start_polls [OF assms(1)], of I A newcv cmds] assms(2)
  by (auto simp: polls_ok_def pool_ok_def)

section \<open>Reads\<close>









section \<open>The configuration in force\<close>

text \<open>The protocols whose configuration was resolved for the device before.\<close>

definition resolved :: "string \<Rightarrow> (string \<times> properties) list \<Rightarrow> 'w driver \<Rightarrow> bool" where
  "resolved dev nps d \<longleftrightarrow> (\<forall>np \<in> set nps. cd_cache d (dev, fst np) \<noteq> None)"

lemma read_protocol_cached:
  assumes "cd_cache d (dev, n) = Some pc"
  shows "read_protocol I A newcv dev reqs (n, ps) d = read_protocol I A newcv dev reqs (n, ps') d"
    "cd_cache (fst (read_protocol I A newcv dev reqs (n, ps) d)) = cd_cache d"
  using resolve_hit [of "cd_cache d", OF assms]
  by (auto simp: read_protocol_def Let_def case_prod_beta split: result.split option.split)

lemma write_protocol_cached:
  assumes "cd_cache d (dev, n) = Some pc"
  shows "write_protocol I A dev reqs params (n, ps) d = write_protocol I A dev reqs params (n, ps') d"
    "cd_cache (fst (write_protocol I A dev reqs params (n, ps) d)) = cd_cache d"
  using resolve_hit [of "cd_cache d", OF assms]
  by (auto simp: write_protocol_def Let_def case_prod_beta split: result.split list.split)

lemma reads_cached:
  assumes "map fst nps' = map fst nps" and "resolved dev nps d"
  shows "HandleReadCommands I A newcv dev nps' reqs d = HandleReadCommands I A newcv dev nps reqs d"
  using assms
proof (induction nps arbitrary: nps' d)
  case (Cons np nps)
  obtain n ps where np: "np = (n, ps)" by fastforce
  obtain ps' rest where nps': "nps' = (n, ps') # rest" "map fst rest = map fst nps"
    using Cons.prems(1) np by (cases nps') auto
  obtain pc where pc: "cd_cache d (dev, n) = Some pc" using Cons.prems(2) np by (auto simp: resolved_def)
  obtain d1 r where r: "read_protocol I A newcv dev reqs (n, ps) d = (d1, r)" by fastforce
  then have "cd_cache d1 = cd_cache d" using read_protocol_cached(2) [OF pc] by (metis fst_conv)
  then have "resolved dev nps d1" using Cons.prems(2) by (simp add: resolved_def)
  from Cons.IH [OF nps'(2) this] show ?case
    using read_protocol_cached(1) [OF pc, of I A newcv reqs ps' ps] np nps'(1) r by (cases r) simp_all
qed simp

lemma writes_cached:
  assumes "map fst nps' = map fst nps" and "resolved dev nps d"
  shows "HandleWriteCommands I A dev nps' reqs params d = HandleWriteCommands I A dev nps reqs params d"
  using assms
proof (induction nps arbitrary: nps' d)
  case (Cons np nps)
  obtain n ps where np: "np = (n, ps)" by fastforce
  obtain ps' rest where nps': "nps' = (n, ps') # rest" "map fst rest = map fst nps"
    using Cons.prems(1) np by (cases nps') auto
  obtain pc where pc: "cd_cache d (dev, n) = Some pc" using Cons.prems(2) np by (auto simp: resolved_def)
  obtain d1 r where r: "write_protocol I A dev reqs params (n, ps) d = (d1, r)" by fastforce
  then have "cd_cache d1 = cd_cache d" using write_protocol_cached(2) [OF pc] by (metis fst_conv)
  then have "resolved dev nps d1" using Cons.prems(2) by (simp add: resolved_def)
  from Cons.IH [OF nps'(2) this] show ?case
    using write_protocol_cached(1) [OF pc, of I A reqs params ps' ps] np nps'(1) r by (cases r) simp_all
qed simp

text \<open>
  C33: a device's new protocol properties (endpoint, time-out, enabled flag, arguments) have no effect once
  the old ones have been used: neither the update callback nor the properties the SDK passes with
  each later command change what a read or a write does.
\<close>

theorem device_update_ineffective:
  assumes "UpdateDevice dev nps' d = (d', r)" and "map fst nps' = map fst nps" and "resolved dev nps d"
  shows "HandleReadCommands I A newcv dev nps' reqs d' = HandleReadCommands I A newcv dev nps reqs d \<and>
    HandleWriteCommands I A dev nps' wreqs params d' = HandleWriteCommands I A dev nps wreqs params d"
proof -
  have "d' = d" using assms(1) by (simp add: UpdateDevice_def)
  then show ?thesis
    by (intro conjI) (simp_all only: reads_cached [OF assms(2,3)] writes_cached [OF assms(2,3)])
qed

section \<open>Listeners\<close>

text \<open>The items of the configuration that name a listener.\<close>

definition active_items :: "listener_item list \<Rightarrow> listener_item list" where
  "active_items items = filter (\<lambda>lc. li_Enabled lc \<and> li_Protocol lc \<in> {''http'', ''mqtt'', ''snmp''}) items"

lemma register_item_cases:
  assumes "register_item vp ch lc (chs, rc) = (chs', Ok rc')"
  shows "if li_Enabled lc \<and> li_Protocol lc \<in> {''http'', ''mqtt'', ''snmp''}
    then registers ch (li_Protocol lc) rc chs rc' chs' else chs' = chs \<and> rc' = rc"
  using assms by (auto simp: register_item_def split: if_splits prod.splits dest: register_http register_mqtt register_snmp)

lemma register_items_servers:
  "register_items vp ch items (chs, rc) = (chs', Ok rc') \<Longrightarrow>
     map listener_source (rs_Servers rc') = map listener_source (rs_Servers rc) @ map li_Protocol (active_items items) \<and>
     map listener_chan (rs_Servers rc') = map listener_chan (rs_Servers rc) @ replicate (length (active_items items)) ch \<and>
     take (length chs) chs' = chs"
proof (induction items arbitrary: chs rc)
  case (Cons lc items)
  obtain chs1 r where r: "register_item vp ch lc (chs, rc) = (chs1, r)" by fastforce
  then obtain rc1 where rc1: "r = Ok rc1" "register_items vp ch items (chs1, rc1) = (chs', Ok rc')"
    using Cons.prems by (cases r) auto
  note rest = Cons.IH [OF rc1(2)]
  show ?case
  proof (cases "li_Enabled lc \<and> li_Protocol lc \<in> {''http'', ''mqtt'', ''snmp''}")
    case True
    then have "registers ch (li_Protocol lc) rc chs rc1 chs1" using register_item_cases r rc1(1) by metis
    then obtain l where l: "chs1 = chs @ [make_chan maxDataChannelSize]" "rs_Servers rc1 = rs_Servers rc @ [l]"
      "listener_chan l = ch" "listener_source l = li_Protocol lc" by (auto simp: registers_def)
    have "take (length chs) (take (length chs1) chs') = take (length chs) chs1" using rest by simp
    then have "take (length chs) chs' = chs" by (simp add: l(1))
    moreover have "active_items (lc # items) = lc # active_items items" using True by (simp add: active_items_def)
    ultimately show ?thesis using rest l by simp
  next
    case False
    then have "chs1 = chs \<and> rc1 = rc" using register_item_cases r rc1(1) by metis
    then show ?thesis using rest False by (simp add: active_items_def)
  qed
qed (simp add: active_items_def)

lemma map_replicate_conv: "map f xs = replicate n c \<Longrightarrow> x \<in> set xs \<Longrightarrow> f x = c"
  by (metis image_eqI in_set_replicate list.set_map)

text \<open>The driver when the listener configuration is read.\<close>

definition starting :: "'w \<Rightarrow> 'w driver \<Rightarrow> 'w driver" where
  "starting w d = d\<lparr>cd_polls := Some \<lparr>po_polls = NewPolls [WithMaxCounts 30, WithTimeout (5 * second)], po_store = [], po_world = w\<rparr>,
     cd_chans := cd_chans d @ [make_chan 16],
     cd_receivers := Some \<lparr>rs_timeout = 15, rs_maxSize = 16, rs_Servers = [], rs_MergedAsyncData = length (cd_chans d)\<rparr>,
     cd_goroutines := cd_goroutines d @ [Consumer]\<rparr>"

lemma driver_Start_unfold:
  "driver_Start E w d = (case loadListeners E (starting w d) of
      (d3, Ok _) \<Rightarrow> (case cd_receivers d3 of None \<Rightarrow> (d3, nil_panic)
        | Some rc \<Rightarrow> (d3\<lparr>cd_goroutines := cd_goroutines d3 @ map ListenerStart [0..<length (rs_Servers rc)]\<rparr>, Ok ()))
    | (d3, r) \<Rightarrow> (d3, r))"
  by (simp add: driver_Start_def starting_def Let_def NewReceivers_def StartAll_def split: prod.split result.split option.split)

lemma driver_Start_Ok:
  assumes "driver_Start E w d = (d', Ok ())"
  obtains d3 rc where "loadListeners E (starting w d) = (d3, Ok ())" "cd_receivers d3 = Some rc"
    "d' = d3\<lparr>cd_goroutines := cd_goroutines d3 @ map ListenerStart [0..<length (rs_Servers rc)]\<rparr>"
  using assms
  by (auto simp: driver_Start_unfold nil_panic_def split: prod.splits result.splits option.splits intro: that)

text \<open>
  C12: a successful start leaves exactly one listener for every enabled item of the configuration with a
  known protocol, in the order of the file, all on the driver's event channel, and has spawned the
  consumer and then the start of each listener.
\<close>

theorem start_listeners:
  assumes "driver_Start E w d = (d', Ok ())" and "cd_goroutines d = []"
    and "en_ReadFile E (config_path E) = Inr bytes" and "ListenerConfig bytes = Ok items"
  shows "\<exists>rc. cd_receivers d' = Some rc \<and> map listener_source (rs_Servers rc) = map li_Protocol (active_items items) \<and>
    (\<forall>l \<in> set (rs_Servers rc). listener_chan l = cd_receivedData d') \<and>
    cd_goroutines d' = Consumer # map ListenerStart [0..<length (active_items items)]"
proof -
  from assms(1) obtain d3 rc where s: "loadListeners E (starting w d) = (d3, Ok ())" "cd_receivers d3 = Some rc"
    "d' = d3\<lparr>cd_goroutines := cd_goroutines d3 @ map ListenerStart [0..<length (rs_Servers rc)]\<rparr>"
    by (rule driver_Start_Ok)
  have k: "cd_receivedData d3 = cd_receivedData d" "cd_goroutines d3 = [Consumer]"
    using loadListeners_keeps [OF s(1)] assms(2) by (simp_all add: starting_def)
  obtain chs rc0 where "register_items (en_valid_pattern E) (cd_receivedData d) items (cd_chans (starting w d), rc0) = (chs, Ok rc)"
    and rc0: "rs_Servers rc0 = []"
    using s(1,2) assms(3,4) by (auto simp: loadListeners_def starting_def split: result.splits prod.splits)
  note rs = register_items_servers [OF this(1)]
  then have src: "map listener_source (rs_Servers rc) = map li_Protocol (active_items items)"
    and ch: "map listener_chan (rs_Servers rc) = replicate (length (active_items items)) (cd_receivedData d)"
    using rc0 by simp_all
  have "length (rs_Servers rc) = length (active_items items)" using arg_cong [OF src, of length] by simp
  then show ?thesis using s k src map_replicate_conv [OF ch] by simp
qed

text \<open>
  C26: stopping makes the stop call of every listener's server, in their order and whatever the servers
  answer: the HTTP servers are shut down, and every broker and trap socket that is held is closed. A
  listener whose server refuses is left as it was, every other one holds no broker or socket afterwards.
  The context is cancelled and the call succeeds. The polling clients are not touched: their
  connections stay open.
\<close>

theorem stop_contract:
  assumes "cd_ctx d = Some b" and "cd_receivers d = Some rc"
  shows "\<exists>d' v' rc'. driver_Stop P force (d, v) = ((d', v'), Ok ()) \<and> cd_ctx d' = Some True \<and>
    cd_polls d' = cd_polls d \<and> cd_receivers d' = Some rc' \<and> v' = after_stops P (rs_Servers rc) v \<and>
    length (rs_Servers rc') = length (rs_Servers rc) \<and>
    (\<forall>i < length (rs_Servers rc). rs_Servers rc' ! i =
       (if isl (snd (stop_call P (rs_Servers rc ! i) (after_stops P (take i (rs_Servers rc)) v)))
        then rs_Servers rc ! i else released (rs_Servers rc ! i)))"
proof -
  obtain ls v' errs where l: "stop_loop P (rs_Servers rc) v = ((ls, v'), Ok errs)"
    using stop_loop_Ok by (metis prod.exhaust)
  then show ?thesis using assms stop_loop_effect [OF l]
    by (cases "errs = []") (auto simp: driver_Stop_def StopAll_def)
qed

section \<open>Concrete runs\<close>

definition idle_driver :: "nat driver" where
  "idle_driver = \<lparr>cd_polls = None, cd_cache = Map.empty, cd_readCommandsExecuted = Some 0, cd_chans = [make_chan 256],
     cd_receivedData = 0, cd_receivers = None, cd_asyncCh = make_chan 1, cd_deviceCh = make_chan 1, cd_ctx = Some False,
     cd_serviceConfig = Some 0, cd_goroutines = []\<rparr>"

definition demo_config :: string where
  "demo_config = ''{\"listeners\":[{\"protocol\":\"http\",\"enabled\":true,\"port\":80},{\"protocol\":\"coap\",\"enabled\":true}]}''"

definition demo_items :: "listener_item list" where
  "demo_items = [zero_item\<lparr>li_Protocol := ''http'', li_Enabled := True, li_Port := 80\<rparr>,
     zero_item\<lparr>li_Protocol := ''coap'', li_Enabled := True\<rparr>]"

lemma demo_config_parsed:
  "json_parse demo_config = Some (JObj [(''listeners'', JArr [JObj [(''protocol'', JStr ''http''), (''enabled'', JBool True),
     (''port'', JNum ''80'')], JObj [(''protocol'', JStr ''coap''), (''enabled'', JBool True)]])])"
  by code_simp

lemma demo_config_items: "ListenerConfig demo_config = Ok demo_items"
  by (simp add: ListenerConfig_def demo_config_parsed struct_field_def field_is_def lower_def byte_def demo_items_def
      zero_item_def parse_uint_def digit_value_def)

definition demo_env :: environment where
  "demo_env = \<lparr>en_toml = None, en_ReadFile = (\<lambda>_. Inr demo_config), en_valid_pattern = (\<lambda>_. True),
     en_LoadCustomConfig = Inr 5, en_ListenForCustomConfigChanges = Inr (), en_metrics = None\<rparr>"

lemma demo_register:
  "\<exists>chs' rc'. register_items (\<lambda>_. True) ch demo_items (chs, rc) = (chs', Ok rc')"
  by (simp add: demo_items_def zero_item_def register_item_def RegisterHttpServer_def NewHttpReceiver_def registerRoutes_def)

lemma demo_load:
  assumes "cd_receivers d = Some rc"
  shows "\<exists>d' rc'. loadListeners demo_env d = (d', Ok ()) \<and> cd_receivers d' = Some rc'"
proof -
  obtain chs' rc' where r: "register_items (\<lambda>_. True) (cd_receivedData d) demo_items (cd_chans d, rc) = (chs', Ok rc')"
    using demo_register by blast
  have e: "en_valid_pattern demo_env = (\<lambda>_. True)" "en_ReadFile demo_env x = Inr demo_config" for x by (simp_all add: demo_env_def)
  show ?thesis by (simp add: loadListeners_def demo_config_items e assms r)
qed

lemma demo_start: "snd (driver_Start demo_env w d) = Ok ()"
proof -
  obtain rc where "cd_receivers (starting w d) = Some rc" by (simp add: starting_def)
  then obtain d' rc' where "loadListeners demo_env (starting w d) = (d', Ok ())" "cd_receivers d' = Some rc'"
    using demo_load by blast
  then show ?thesis by (simp add: driver_Start_unfold)
qed

lemma with_handler_polls: "\<exists>p'. fst (with_handler f h (Some p)) = Some p' \<and> po_polls p' = po_polls p"
  by (auto simp: with_handler_def split: prod.splits dest: on_object_fields)

lemma with_handler_case:
  assumes "\<And>polls' x. cd_polls (fst (k polls' x)) = polls'"
  shows "\<exists>p'. cd_polls (fst (case with_handler f h (Some p) of (polls', x) \<Rightarrow> k polls' x)) = Some p' \<and> po_polls p' = po_polls p"
  using with_handler_polls [of f h p] by (simp add: case_prod_beta assms)

lemma read_uses_handler:
  assumes "cd_cache d (dev, n) = None" and "cd_polls d = Some p0" and "pc = \<lparr>pc_Name = n, pc_rawProperties = ps\<rparr>"
    and "\<not> IsDisabled pc" and "GetHandler I A pc p0 = (p1, Ok h)"
  shows "\<exists>p. cd_polls (fst (read_protocol I A newcv dev reqs (n, ps) d)) = Some p \<and> po_polls p = po_polls p1"
proof -
  have r: "ResolveProtocolConfig dev n ps (cd_cache d) = ((cd_cache d)((dev, n) \<mapsto> pc), pc)"
    using resolve_miss [of "cd_cache d", OF assms(1)] assms(3) by simp
  have g: "driver_GetHandler I A pc (Some p0) = (Some p1, Ok h)" by (simp add: driver_GetHandler_def assms(5))
  note w = with_handler_case [of _ _ _ p1]
  show ?thesis
  proof (cases "length reqs = 1")
    case True
    then show ?thesis using assms(2,4)
      by (simp add: read_protocol_def r g Let_def) (rule w, simp split: option.split result.split)
  next
    case False
    then show ?thesis using assms(2,4)
      by (simp add: read_protocol_def r g Let_def) (rule w, simp split: option.split result.split prod.split)
  qed
qed

lemma read_one: "fst (HandleReadCommands I A newcv dev [np] reqs d) = fst (read_protocol I A newcv dev reqs np d)"
  by (simp split: prod.split result.split)

theorem driver_pool_bounded_witness:
  "\<forall>I. \<exists>p. cd_polls (foldl (run_command I world_adapters typed_newcv) (fst (driver_Start demo_env 0 idle_driver))
       [ReadCmd ''d'' [(''opcua'', pc_rawProperties opcua_pc)] []]) = Some p \<and> length (pl_clients (po_polls p)) = 1 \<and> pool_ok p"
proof
  fix I
  let ?d = "fst (driver_Start demo_env 0 idle_driver)"
  let ?p0 = "\<lparr>po_polls = NewPolls [WithMaxCounts 30, WithTimeout (5 * second)], po_store = [], po_world = 0\<rparr>"
  let ?cmds = "[ReadCmd ''d'' [(''opcua'', pc_rawProperties opcua_pc)] []]"
  have start: "driver_Start demo_env 0 idle_driver = (?d, Ok ())" using demo_start by (metis prod.collapse)
  have polls: "cd_polls ?d = Some ?p0" by (rule driver_Start_pool [OF start])
  have cache: "cd_cache ?d = Map.empty" using start
    by (rule driver_Start_Ok) (auto dest!: loadListeners_keeps simp: starting_def idle_driver_def)
  obtain p1 where p1: "GetHandler I world_adapters opcua_pc ?p0 = (p1, Ok 0)" "length (pl_clients (po_polls p1)) = 1"
    by (simp add: GetHandler_def ValidateProtocol_def opcua_pc_def NewPolls_def WithMaxCounts_def WithTimeout_def
        poll_newClient_def NewOpcuaClient_def Let_def GetRawProtocolProperties_def on_object_def lift_client_def
        opcua_Connect_def opcua_world_api_def world_adapters_def addClient_def)
  have "\<exists>p. cd_polls (fst (read_protocol I world_adapters typed_newcv ''d'' [] (''opcua'', pc_rawProperties opcua_pc) ?d)) = Some p
      \<and> po_polls p = po_polls p1"
    by (rule read_uses_handler [OF _ polls _ _ p1(1)]) (simp_all add: cache opcua_pc_def IsDisabled_def prop_get_def)
  then obtain p where p: "cd_polls (foldl (run_command I world_adapters typed_newcv) ?d ?cmds) = Some p"
    "length (pl_clients (po_polls p)) = 1"
    using p1(2) by (auto simp: read_one simp del: HandleReadCommands.simps)
  from driver_pool_bounded [OF start p(1)] p
  show "\<exists>p. cd_polls (foldl (run_command I world_adapters typed_newcv) ?d ?cmds) = Some p \<and> length (pl_clients (po_polls p)) = 1 \<and> pool_ok p"
    by blast
qed

theorem start_listeners_witness:
  "\<exists>rc l. cd_receivers (fst (driver_Start demo_env 0 idle_driver)) = Some rc \<and> rs_Servers rc = [l] \<and>
     listener_source l = ''http'' \<and> cd_goroutines (fst (driver_Start demo_env 0 idle_driver)) = [Consumer, ListenerStart 0]"
proof -
  have start: "driver_Start demo_env 0 idle_driver = (fst (driver_Start demo_env 0 idle_driver), Ok ())"
    using demo_start by (metis prod.collapse)
  have "active_items demo_items = [zero_item\<lparr>li_Protocol := ''http'', li_Enabled := True, li_Port := 80\<rparr>]"
    by (simp add: active_items_def demo_items_def zero_item_def)
  moreover have "cd_goroutines idle_driver = []" "en_ReadFile demo_env (config_path demo_env) = Inr demo_config"
    by (simp_all add: idle_driver_def demo_env_def)
  ultimately show ?thesis using start_listeners [OF start _ _ demo_config_items] by auto
qed

definition updated_driver :: "nat driver" where
  "updated_driver = idle_driver\<lparr>cd_cache := [(''d'', ''snmp'') \<mapsto> snmp_pc]\<rparr>"

theorem device_update_ineffective_witness:
  "\<forall>I. HandleReadCommands I world_adapters typed_newcv ''d'' [(''snmp'', Some [''Enabled'' \<mapsto> ''false''])] [] updated_driver =
     HandleReadCommands I world_adapters typed_newcv ''d'' [(''snmp'', pc_rawProperties snmp_pc)] [] updated_driver"
proof
  fix I
  have u: "UpdateDevice ''d'' [(''snmp'', Some [''Enabled'' \<mapsto> ''false''])] updated_driver = (updated_driver, Ok ())"
    by (simp add: UpdateDevice_def)
  have "resolved ''d'' [(''snmp'', pc_rawProperties snmp_pc)] updated_driver"
    by (simp add: resolved_def updated_driver_def)
  then show "HandleReadCommands I world_adapters typed_newcv ''d'' [(''snmp'', Some [''Enabled'' \<mapsto> ''false''])] [] updated_driver =
     HandleReadCommands I world_adapters typed_newcv ''d'' [(''snmp'', pc_rawProperties snmp_pc)] [] updated_driver"
    by (intro device_update_ineffective [OF u, THEN conjunct1]) simp_all
qed

text \<open>Servers that count the calls and refuse to stop.\<close>

definition refusing_stop :: "nat stop_api" where
  "refusing_stop = \<lparr>sp_shutdown = (\<lambda>r w. (Suc w, Inl (Errorf ''busy'' []))),
     sp_mqtt = quiet_broker\<lparr>mq_close := (\<lambda>b w. (Suc w, Inl (Errorf ''busy'' [])))\<rparr>,
     sp_trap = quiet_socket\<lparr>tr_close := (\<lambda>l w. Suc w)\<rparr>\<rparr>"

definition stopping_driver :: "nat driver" where
  "stopping_driver = idle_driver\<lparr>cd_receivers := Some \<lparr>rs_timeout = 15, rs_maxSize = 16,
     rs_Servers = [LMqtt ((snd (NewMqttReceiver ''h'' 0 []))\<lparr>mr_srv := Some 0\<rparr>),
       LSnmp ((snd (NewSnmpReceiver ''h'' 0 [] []))\<lparr>sr_listener := Some 0\<rparr>)], rs_MergedAsyncData = 0\<rparr>\<rparr>"

text \<open>The broker refuses; the trap socket after it is closed all the same.\<close>

theorem stop_contract_witness:
  "\<exists>d' rc'. driver_Stop refusing_stop True (stopping_driver, 0) = ((d', 2), Ok ()) \<and> cd_ctx d' = Some True \<and>
     cd_receivers d' = Some rc' \<and> (\<exists>r. rs_Servers rc' ! 1 = LSnmp r \<and> sr_listener r = None)"
proof -
  obtain rc where rc: "cd_ctx stopping_driver = Some False" "cd_receivers stopping_driver = Some rc"
    "rs_Servers rc = [LMqtt ((snd (NewMqttReceiver ''h'' 0 []))\<lparr>mr_srv := Some 0\<rparr>),
       LSnmp ((snd (NewSnmpReceiver ''h'' 0 [] []))\<lparr>sr_listener := Some 0\<rparr>)]"
    by (simp add: stopping_driver_def idle_driver_def)
  moreover have "after_stops refusing_stop (rs_Servers rc) 0 = 2" "length (rs_Servers rc) = 2"
    by (simp_all add: rc(3) after_stops_def refusing_stop_def)
  ultimately obtain d' rc' where d: "driver_Stop refusing_stop True (stopping_driver, 0) = ((d', 2), Ok ())"
    "cd_ctx d' = Some True" "cd_receivers d' = Some rc'"
    and i: "\<forall>i < 2. rs_Servers rc' ! i = (if isl (snd (stop_call refusing_stop (rs_Servers rc ! i)
        (after_stops refusing_stop (take i (rs_Servers rc)) 0))) then rs_Servers rc ! i else released (rs_Servers rc ! i))"
    using stop_contract [OF rc(1,2), of refusing_stop True 0] by auto
  have "rs_Servers rc' ! 1 = released (rs_Servers rc ! 1)" using i [rule_format, of 1] by (simp add: rc(3))
  then show ?thesis using d by (simp add: rc(3))
qed





end
