(* ===== verification/Safety.thy ===== *)
theory Safety
  imports Commands
begin

text \<open>
  The polled path does not dereference nil as long as the OPC UA package does not answer a nil variant or
  response without an error (\<open>opcua_complete\<close>): every client the pool hands out has been connected, and a
  connected client of any of the four adapters keeps its connection object through all operations. The
  argument is the contract \<open>rw_client\<close>, interpreted on the dispatch over the four adapters.
\<close>

section \<open>Getting a client\<close>

lemma poll_newClient_no_nil [simp]: "no_nil (poll_newClient I e p t args)"
  by (auto simp: poll_newClient_def NewModbusClient_def NewSnmpClient_def NewOpcuaClient_def NewHttpClient_def Let_def
      split: protocol_type.split option.split)

lemma connect_object_no_nil: "on_object (client_Connect I A) i s = (s', r) \<Longrightarrow> no_nil r"
  by (auto simp: on_object_def split: prod.splits dest: client_rw.connect_no_nil)

lemma GetHandler_no_nil: "GetHandler I A pc s = (s', r) \<Longrightarrow> no_nil r"
  by (auto simp: GetHandler_def Let_def split: result.splits option.splits prod.splits if_splits
      dest!: connect_object_no_nil)

section \<open>The driver's invariant\<close>

text \<open>What \<open>Initialize\<close> establishes: the pool and the counter exist, and the pool's clients are usable.\<close>

definition driver_ready :: "'w driver \<Rightarrow> bool" where
  "driver_ready d \<longleftrightarrow> (\<exists>p. cd_polls d = Some p \<and> pool_usable p) \<and> cd_readCommandsExecuted d \<noteq> None"

lemma counted_ready: "driver_ready d \<Longrightarrow> counted d cvs = (d', r) \<Longrightarrow> driver_ready d' \<and> no_nil r"
  by (auto simp: driver_ready_def counted_def count_read_def)

text \<open>A handler runs on a usable client and leaves it so.\<close>

lemma with_handler_ready:
  assumes "pool_usable p" and "h < length (po_store p)" and "client_usable (po_store p ! h, po_world p)"
    and "with_handler f h (Some p) = (polls', x)"
    and "\<forall>s. client_usable s \<longrightarrow> client_usable (fst (f s)) \<and> safe (snd (f s))"
  shows "\<exists>p' a. polls' = Some p' \<and> x = Some a \<and> pool_usable p' \<and> safe a"
proof -
  obtain p' a where o: "on_object f h p = (p', a)" by fastforce
  have u: "client_usable (po_store p' ! h, po_world p') \<and> safe a"
    using assms(5) assms(3) on_object_at [OF o assms(2)] by (metis fst_conv snd_conv)
  then have "pool_usable p'" by (intro on_object_usable [OF assms(1) o assms(2)]) simp
  then show ?thesis using u o assms(4) by (auto simp: with_handler_def)
qed

lemma ready_GetHandler:
  assumes "driver_ready d" and "driver_GetHandler I A pc (cd_polls d) = (polls, r)"
  obtains p where "polls = Some p" "pool_usable p" "no_nil r"
    "\<And>h. r = Ok h \<Longrightarrow> h < length (po_store p) \<and> client_usable (po_store p ! h, po_world p)"
proof -
  from assms(1) obtain p0 where p0: "cd_polls d = Some p0" "pool_usable p0" by (auto simp: driver_ready_def)
  obtain p r' where g: "GetHandler I A pc p0 = (p, r')" by fastforce
  then have "polls = Some p" "r = r'" using assms(2) p0(1) by (simp_all add: driver_GetHandler_def)
  then show thesis using that GetHandler_usable [OF p0(2) g] GetHandler_no_nil [OF g] by blast
qed

lemma driver_ready_update [simp]:
  "driver_ready (d\<lparr>cd_cache := m\<rparr>) = driver_ready d"
  "driver_ready (d\<lparr>cd_cache := m, cd_polls := Some p\<rparr>) = (pool_usable p \<and> cd_readCommandsExecuted d \<noteq> None)"
  by (auto simp: driver_ready_def)

section \<open>Commands\<close>

lemma triple_collapse: "p = (fst p, fst (snd p), snd (snd p))"
  by simp

text \<open>The four handlers on a usable client.\<close>

lemma read_single_safe:
  assumes "\<forall>n t v. no_nil (newcv n t v)"
  shows "\<forall>s. client_usable s \<longrightarrow> client_usable (fst (HandleReadSingle I newcv (client_ReadSingle I A) s req)) \<and>
    (opcua_complete (ad_opcua A) \<longrightarrow> no_nil (snd (HandleReadSingle I newcv (client_ReadSingle I A) s req)))"
  using assms client_rw.HandleReadSingle_usable [OF _ _ prod.collapse [symmetric], of _ newcv I I A req] by blast

lemma read_batch_safe:
  assumes "\<forall>n t v. no_nil (newcv n t v)"
  shows "\<forall>s. client_usable s \<longrightarrow> client_usable (fst (HandleReadBatch I newcv (client_ReadBatch I A) s reqs)) \<and>
    no_nil (snd (snd (HandleReadBatch I newcv (client_ReadBatch I A) s reqs)))"
  using assms client_rw.HandleReadBatch_usable [OF _ _ triple_collapse, of _ newcv I I A reqs] by blast

lemma write_single_safe:
  "\<forall>s. client_usable s \<longrightarrow> client_usable (fst (HandleWriteSingle I (client_WriteSingle I A) s req param)) \<and>
     (opcua_complete (ad_opcua A) \<longrightarrow> no_nil (snd (HandleWriteSingle I (client_WriteSingle I A) s req param)))"
  using client_rw.HandleWriteSingle_usable [OF _ prod.collapse [symmetric], of _ I I A req param] by blast

lemma write_batch_safe:
  "\<forall>s. client_usable s \<longrightarrow> client_usable (fst (HandleWriteBatch I (client_WriteBatch I A) s reqs params)) \<and>
     (opcua_complete (ad_opcua A) \<longrightarrow> no_nil (snd (HandleWriteBatch I (client_WriteBatch I A) s reqs params)))"
  using client_rw.HandleWriteBatch_usable [OF _ prod.collapse [symmetric], of _ I I A reqs params] by blast

lemma read_protocol_ready:
  assumes ready: "driver_ready d" and newcv: "\<forall>n t v. no_nil (newcv n t v)"
    and "read_protocol I A newcv dev reqs np d = (d', r)"
  shows "driver_ready d' \<and> (length reqs \<noteq> 1 \<or> opcua_complete (ad_opcua A) \<longrightarrow> no_nil r)"
proof -
  obtain m pc where res: "ResolveProtocolConfig dev (fst np) (snd np) (cd_cache d) = (m, pc)" by fastforce
  obtain polls x where g: "driver_GetHandler I A pc (cd_polls d) = (polls, x)" by fastforce
  from ready_GetHandler [OF ready g] obtain p where p: "polls = Some p" "pool_usable p" "no_nil x"
    "\<And>h. x = Ok h \<Longrightarrow> h < length (po_store p) \<and> client_usable (po_store p ! h, po_world p)" by blast
  have count: "cd_readCommandsExecuted d \<noteq> None" using ready by (simp add: driver_ready_def)
  show ?thesis
  proof (cases "IsDisabled pc \<or> (\<nexists>h. x = Ok h)")
    case True
    then show ?thesis using assms(1,3) res g p count
      by (cases "IsDisabled pc"; cases x) (auto simp: read_protocol_def Let_def)
  next
    case False
    then obtain h where h: "x = Ok h" "\<not> IsDisabled pc" by blast
    note use = with_handler_ready [OF p(2) conjunct1 [OF p(4) [OF h(1)]] conjunct2 [OF p(4) [OF h(1)]]]
    show ?thesis
    proof (cases "length reqs = 1")
      case True
      obtain polls' y where w: "with_handler (\<lambda>s. HandleReadSingle I newcv (client_ReadSingle I A) s (hd reqs)) h (Some p) = (polls', y)"
        by fastforce
      from use [OF w read_single_safe [OF newcv]] obtain p' a where
        "polls' = Some p'" "y = Some a" "pool_usable p'" "opcua_complete (ad_opcua A) \<longrightarrow> no_nil a" by blast
      then show ?thesis using assms(3) res g p(1) h True w count
        by (auto simp: read_protocol_def Let_def split: result.splits dest: counted_ready [rotated])
    next
      case False
      obtain polls' y where w: "with_handler (\<lambda>s. HandleReadBatch I newcv (client_ReadBatch I A) s reqs) h (Some p) = (polls', y)"
        by fastforce
      from use [OF w read_batch_safe [OF newcv]] obtain p' a where
        "polls' = Some p'" "y = Some a" "pool_usable p'" "no_nil (snd a)" by blast
      then show ?thesis using assms(3) res g p(1) h False w count
        by (auto simp: read_protocol_def Let_def split: result.splits prod.splits dest: counted_ready [rotated])
    qed
  qed
qed

lemma write_protocol_ready:
  assumes ready: "driver_ready d" and "write_protocol I A dev reqs params np d = (d', r)"
  shows "driver_ready d' \<and> (opcua_complete (ad_opcua A) \<longrightarrow> no_nil r)"
proof -
  obtain m pc where res: "ResolveProtocolConfig dev (fst np) (snd np) (cd_cache d) = (m, pc)" by fastforce
  obtain polls x where g: "driver_GetHandler I A pc (cd_polls d) = (polls, x)" by fastforce
  from ready_GetHandler [OF ready g] obtain p where p: "polls = Some p" "pool_usable p" "no_nil x"
    "\<And>h. x = Ok h \<Longrightarrow> h < length (po_store p) \<and> client_usable (po_store p ! h, po_world p)" by blast
  have count: "cd_readCommandsExecuted d \<noteq> None" using ready by (simp add: driver_ready_def)
  show ?thesis
  proof (cases "IsDisabled pc \<or> (\<nexists>h. x = Ok h)")
    case True
    then show ?thesis using assms res g p count
      by (cases "IsDisabled pc"; cases x) (auto simp: write_protocol_def Let_def)
  next
    case False
    then obtain h where h: "x = Ok h" "\<not> IsDisabled pc" by blast
    note use = with_handler_ready [OF p(2) conjunct1 [OF p(4) [OF h(1)]] conjunct2 [OF p(4) [OF h(1)]], where
      safe = "\<lambda>a. opcua_complete (ad_opcua A) \<longrightarrow> no_nil a"]
    show ?thesis
    proof (cases "length reqs = 1")
      case True
      show ?thesis
      proof (cases params)
        case (Cons param rest)
        obtain polls' y where w: "with_handler (\<lambda>s. HandleWriteSingle I (client_WriteSingle I A) s (hd reqs) param) h (Some p) = (polls', y)"
          by fastforce
        from use [OF w write_single_safe] obtain p' a where
          "polls' = Some p'" "y = Some a" "pool_usable p'" "opcua_complete (ad_opcua A) \<longrightarrow> no_nil a" by blast
        then show ?thesis using assms(2) res g p(1) h True Cons w count
          by (auto simp: write_protocol_def Let_def)
      qed (use assms(2) res g p(1,2) h True count in \<open>auto simp: write_protocol_def Let_def\<close>)
    next
      case False
      obtain polls' y where w: "with_handler (\<lambda>s. HandleWriteBatch I (client_WriteBatch I A) s reqs params) h (Some p) = (polls', y)"
        by fastforce
      from use [OF w write_batch_safe] obtain p' a where
        "polls' = Some p'" "y = Some a" "pool_usable p'" "opcua_complete (ad_opcua A) \<longrightarrow> no_nil a" by blast
      then show ?thesis using assms(2) res g p(1) h False w count
        by (auto simp: write_protocol_def Let_def)
    qed
  qed
qed

lemma HandleReadCommands_ready:
  "driver_ready d \<Longrightarrow> \<forall>n t v. no_nil (newcv n t v) \<Longrightarrow> HandleReadCommands I A newcv dev nps reqs d = (d', r) \<Longrightarrow>
     driver_ready d' \<and> (length reqs \<noteq> 1 \<or> opcua_complete (ad_opcua A) \<longrightarrow> no_nil r)"
proof (induction nps arbitrary: d r)
  case (Cons np nps)
  obtain d1 x where x: "read_protocol I A newcv dev reqs np d = (d1, x)" by fastforce
  then have "driver_ready d1 \<and> (length reqs \<noteq> 1 \<or> opcua_complete (ad_opcua A) \<longrightarrow> no_nil x)"
    using read_protocol_ready Cons.prems(1,2) by metis
  then show ?case using Cons x by (cases x) (auto split: prod.splits)
qed auto

lemma HandleWriteCommands_ready:
  "driver_ready d \<Longrightarrow> HandleWriteCommands I A dev nps reqs params d = (d', r) \<Longrightarrow>
     driver_ready d' \<and> (opcua_complete (ad_opcua A) \<longrightarrow> no_nil r)"
proof (induction nps arbitrary: d r)
  case (Cons np nps)
  obtain d1 x where x: "write_protocol I A dev reqs params np d = (d1, x)" by fastforce
  then have "driver_ready d1 \<and> (opcua_complete (ad_opcua A) \<longrightarrow> no_nil x)" using write_protocol_ready Cons.prems(1) by metis
  then show ?case using Cons x by (cases x) auto
qed auto

lemma run_commands_ready:
  "driver_ready d \<Longrightarrow> \<forall>n t v. no_nil (newcv n t v) \<Longrightarrow> driver_ready (foldl (run_command I A newcv) d cmds)"
proof (induction cmds arbitrary: d)
  case (Cons c cmds)
  have "driver_ready (run_command I A newcv d c)"
    using HandleReadCommands_ready [OF Cons.prems prod.collapse [symmetric], of I A]
      HandleWriteCommands_ready [OF Cons.prems(1) prod.collapse [symmetric], of I A] Cons.prems(1)
    by (cases c) (simp_all add: AddDevice_def UpdateDevice_def RemoveDevice_def)
  then show ?case using Cons by simp
qed simp

lemma loadListeners_counter: "loadListeners E d = (d', r) \<Longrightarrow> cd_readCommandsExecuted d' = cd_readCommandsExecuted d"
  by (auto simp: loadListeners_def split: result.splits option.splits prod.splits)

lemma driver_Start_counter: "driver_Start E w d = (d', r) \<Longrightarrow> cd_readCommandsExecuted d' = cd_readCommandsExecuted d"
  by (auto simp: driver_Start_def Let_def NewReceivers_def split: result.splits option.splits prod.splits if_splits
      dest!: loadListeners_counter)

lemma Initialize_ready: "Initialize E w ach dch d = (d', Ok ()) \<Longrightarrow> driver_ready d'"
  by (auto simp: Initialize_def Let_def initMetrics_def new_chan_def driver_ready_def pool_usable_def NewPolls_def
      WithMaxCounts_def WithTimeout_def split: sum.splits dest: driver_Start_pool driver_Start_counter)

section \<open>The property\<close>

text \<open>
  C6: after a successful initialisation, whatever commands and callbacks came before (failed and
  panicked ones included) and whatever the devices and the network answered: a read command of several
  requests (or none) never ends in a nil dereference; a read of one request and a write command do not
  either, provided the OPC UA package answers a variant or a response whenever it answers no error. (For
  a node that is good without a value it does not, and the single read dereferences nil; the batch
  guards it.) The other packages are taken to return a result when they return no error, and the SDK's
  constructor of command values not to dereference nil.
\<close>

theorem commands_never_dereference_nil:
  assumes "Initialize E w asyncCh deviceCh d = (d0, Ok ())" and "\<forall>n t v. no_nil (newcv n t v)"
    and "d1 = foldl (run_command I A newcv) d0 cmds"
  shows "(length reqs \<noteq> 1 \<or> opcua_complete (ad_opcua A) \<longrightarrow> no_nil (snd (HandleReadCommands I A newcv dev nps reqs d1))) \<and>
    (opcua_complete (ad_opcua A) \<longrightarrow> no_nil (snd (HandleWriteCommands I A dev nps reqs params d1)))"
proof -
  have "driver_ready d1" unfolding assms(3) by (rule run_commands_ready [OF Initialize_ready [OF assms(1)] assms(2)])
  then show ?thesis using HandleReadCommands_ready [OF _ assms(2) prod.collapse [symmetric]]
      HandleWriteCommands_ready [OF _ prod.collapse [symmetric]] by blast
qed

lemma typed_newcv_no_nil: "no_nil (typed_newcv n t v)"
  by (simp add: typed_newcv_def)

lemma demo_initialize: "snd (Initialize demo_env w c1 c2 d) = Ok ()"
proof -
  have "en_LoadCustomConfig demo_env = Inr 5" "en_ListenForCustomConfigChanges demo_env = Inr ()" by (simp_all add: demo_env_def)
  then show ?thesis by (simp add: Initialize_def new_chan_def Let_def demo_start)
qed

theorem commands_never_dereference_nil_witness:
  "\<forall>I req. no_nil (snd (HandleReadCommands I world_adapters typed_newcv ''d'' [(''opcua'', pc_rawProperties opcua_pc)] [req]
      (foldl (run_command I world_adapters typed_newcv) (fst (Initialize demo_env 0 (make_chan 1) (make_chan 1) idle_driver))
        [ReadCmd ''d'' [(''opcua'', pc_rawProperties opcua_pc)] []])))"
proof (intro allI)
  fix I req
  let ?i = "Initialize demo_env 0 (make_chan 1) (make_chan 1) idle_driver"
  have i: "?i = (fst ?i, Ok ())" using demo_initialize by (metis prod.collapse)
  have n: "\<forall>n t v. no_nil (typed_newcv n t v)" using typed_newcv_no_nil by blast
  have "opcua_complete (ad_opcua world_adapters)"
    by (simp add: opcua_complete_def world_adapters_def opcua_world_api_def)
  with commands_never_dereference_nil [OF i n refl]
  show "no_nil (snd (HandleReadCommands I world_adapters typed_newcv ''d'' [(''opcua'', pc_rawProperties opcua_pc)] [req]
      (foldl (run_command I world_adapters typed_newcv) (fst ?i) [ReadCmd ''d'' [(''opcua'', pc_rawProperties opcua_pc)] []])))"
    by blast
qed

end
