(* ===== verification/Pipeline.thy ===== *)
theory Pipeline
  imports Driver
begin

text \<open>
  The passive path as a whole: the listeners' callbacks put events on the bounded channel
  \<open>receivedData\<close>, the one consumer goroutine (\<open>processReceiveData\<close>) takes them off, decodes them and
  sends the readings to the SDK's channel, which the SDK drains. The steps interleave freely. A run
  carries its labels, from which the events accepted, taken and delivered are read off.
\<close>

section \<open>Every listener is a producer\<close>

datatype push =
    HttpPush "gotime \<times> push_request" | MqttPush "gotime \<times> packet" | SnmpPush "gotime \<times> string \<times> trap_packet"

fun handle_input :: "go_impl \<Rightarrow> push \<Rightarrow> event_channel \<Rightarrow> event_channel \<times> bool" where
  "handle_input I (HttpPush i) c = (case handlePush I i c of (c', r) \<Rightarrow> (c', rp_status r = 200))"
| "handle_input I (MqttPush i) c = OnPublish i c"
| "handle_input I (SnmpPush i) c = onTrap I i c"

fun input_event :: "go_impl \<Rightarrow> push \<Rightarrow> receive_event option" where
  "input_event I (HttpPush i) = push_event i"
| "input_event I (MqttPush (now, pk)) = Some (mqtt_event now pk)"
| "input_event I (SnmpPush i) = trap_event I i"

lemma handle_input_laws:
  "input_event I i = Some e \<Longrightarrow> handle_input I i c = (c', r) \<Longrightarrow> try_send e c = (c', r)"
  "input_event I i = None \<Longrightarrow> handle_input I i c = (c', r) \<Longrightarrow> c' = c \<and> \<not> r"
proof -
  assume "input_event I i = Some e" "handle_input I i c = (c', r)"
  then show "try_send e c = (c', r)"
    by (cases i) (auto simp: OnPublish_def dest: http_push.offers snmp_trap.offers split: prod.splits)
next
  assume "input_event I i = None" "handle_input I i c = (c', r)"
  then show "c' = c \<and> \<not> r"
    by (cases i) (auto dest: http_push.silent snmp_trap.silent split: prod.splits)
qed

interpretation any_push: producer "handle_input I" "input_event I" "\<lambda>i r. r" for I
  by unfold_locales (rule handle_input_laws, assumption+)+

section \<open>The consumer\<close>

datatype consumer = Waiting | Sending async_values | Exited

record pipe =
  pp_received :: event_channel
  pp_device :: device_channel
  pp_async :: "async_values channel"
  pp_done :: bool
  pp_consumer :: consumer

datatype label =
    Push push bool
  | Take receive_event "async_values result"
  | Deliver async_values
  | Collect async_values
  | CollectDevice
  | Cancel
  | Quit

text \<open>
  What the goroutine does next: with an event (\<open>continue\<close> after an error), and with the readings.
\<close>

fun next_consumer :: "async_values result \<Rightarrow> consumer" where
  "next_consumer (Ok av) = Sending av"
| "next_consumer (Err e) = Waiting"
| "next_consumer (Panic m) = Exited"

inductive pipe_step :: "go_impl \<Rightarrow> pipe \<Rightarrow> label \<Rightarrow> pipe \<Rightarrow> bool" for I where
  push: "handle_input I i (pp_received s) = (c, b) \<Longrightarrow> pipe_step I s (Push i b) (s\<lparr>pp_received := c\<rparr>)"
| take_event: "\<lbrakk>pp_consumer s = Waiting; recv (pp_received s) = Some (e, c); sdk_returns K; visits_all ordB; visits_all ordS;
      decodeReceiveEvent I K ordB ordS e (pp_device s) = (dch, r)\<rbrakk> \<Longrightarrow>
    pipe_step I s (Take e r) (s\<lparr>pp_received := c, pp_device := dch, pp_consumer := next_consumer r\<rparr>)"
| deliver: "\<lbrakk>pp_consumer s = Sending av; send av (pp_async s) = Some c\<rbrakk> \<Longrightarrow>
    pipe_step I s (Deliver av) (s\<lparr>pp_async := c, pp_consumer := Waiting\<rparr>)"
| collect: "recv (pp_async s) = Some (av, c) \<Longrightarrow> pipe_step I s (Collect av) (s\<lparr>pp_async := c\<rparr>)"
| collect_device: "recv (pp_device s) = Some (d, c) \<Longrightarrow> pipe_step I s CollectDevice (s\<lparr>pp_device := c\<rparr>)"
| cancel: "pipe_step I s Cancel (s\<lparr>pp_done := True\<rparr>)"
| quit: "\<lbrakk>pp_consumer s = Waiting; pp_done s\<rbrakk> \<Longrightarrow> pipe_step I s Quit (s\<lparr>pp_consumer := Exited\<rparr>)"

inductive pipe_run :: "go_impl \<Rightarrow> pipe \<Rightarrow> label list \<Rightarrow> pipe \<Rightarrow> bool" for I s0 where
  start: "pipe_run I s0 [] s0"
| step: "pipe_run I s0 tr s \<Longrightarrow> pipe_step I s l s' \<Longrightarrow> pipe_run I s0 (tr @ [l]) s'"

text \<open>The driver's channels after \<open>Initialize\<close>, with room for \<open>n\<close> readings and \<open>m\<close> discoveries in the SDK's.\<close>

definition pipe_start :: "nat \<Rightarrow> nat \<Rightarrow> pipe" where
  "pipe_start n m = \<lparr>pp_received = make_chan 256, pp_device = make_chan m, pp_async = make_chan n, pp_done = False,
     pp_consumer = Waiting\<rparr>"

section \<open>What a run did\<close>

definition accepted_events :: "go_impl \<Rightarrow> label list \<Rightarrow> receive_event list" where
  "accepted_events I tr = concat (map (\<lambda>l. case l of Push i True \<Rightarrow> [the (input_event I i)] | _ \<Rightarrow> []) tr)"

definition taken_events :: "label list \<Rightarrow> receive_event list" where
  "taken_events tr = concat (map (\<lambda>l. case l of Take e r \<Rightarrow> [e] | _ \<Rightarrow> []) tr)"

definition produced :: "label list \<Rightarrow> async_values list" where
  "produced tr = concat (map (\<lambda>l. case l of Take e (Ok av) \<Rightarrow> [av] | _ \<Rightarrow> []) tr)"

definition delivered :: "label list \<Rightarrow> async_values list" where
  "delivered tr = concat (map (\<lambda>l. case l of Deliver av \<Rightarrow> [av] | _ \<Rightarrow> []) tr)"

definition collected :: "label list \<Rightarrow> async_values list" where
  "collected tr = concat (map (\<lambda>l. case l of Collect av \<Rightarrow> [av] | _ \<Rightarrow> []) tr)"

lemmas trace_defs = accepted_events_def taken_events_def produced_def delivered_def collected_def

fun pending :: "consumer \<Rightarrow> async_values list" where
  "pending (Sending av) = [av]"
| "pending _ = []"

lemma buildCommandValues_no_panic:
  "(\<And>n t v m. newcv n t v \<noteq> Panic m) \<Longrightarrow> buildCommandValues I newcv profile data \<noteq> Panic m"
  by (induction data) (auto simp: rmap_Panic_iff split: prod.splits result.splits)

lemma unmarshal_envelope_no_panic: "unmarshal_envelope f bs \<noteq> Panic m"
  by (auto simp: unmarshal_envelope_def split: option.splits json.splits)

lemma decode_no_panic: "sdk_returns K \<Longrightarrow> decodeReceiveEvent I K ordB ordS e dch \<noteq> (dch', Panic m)"
  by (auto simp: decodeReceiveEvent_def decodeMqttPayload_def decodeSnmpTrapPayload_def Let_def sdk_returns_def
      wrap_err_Panic_iff unmarshal_envelope_no_panic rbind_Panic_iff buildCommandValues_no_panic
      split: result.splits if_splits prod.splits)

text \<open>The bookkeeping of a run.\<close>

definition pipe_inv :: "go_impl \<Rightarrow> nat \<Rightarrow> label list \<Rightarrow> pipe \<Rightarrow> bool" where
  "pipe_inv I n tr s \<longleftrightarrow>
     accepted_events I tr = taken_events tr @ ch_buf (pp_received s) \<and>
     produced tr = delivered tr @ pending (pp_consumer s) \<and>
     delivered tr = collected tr @ ch_buf (pp_async s) \<and>
     ch_cap (pp_received s) = 256 \<and> chan_ok (pp_received s) \<and> ch_cap (pp_async s) = n \<and> chan_ok (pp_async s) \<and>
     (pp_consumer s = Exited \<longrightarrow> pp_done s)"

lemma pipe_inv_step:
  assumes "pipe_step I s l s'" and "pipe_inv I n tr s"
  shows "pipe_inv I n (tr @ [l]) s'"
  using assms
proof (induction rule: pipe_step.induct)
  case (push i s c b)
  from push(1) show ?case
  proof (cases rule: any_push.handle_cases)
    case (put e)
    then show ?thesis using push(2) by (auto simp: pipe_inv_def trace_defs chan_ok_def)
  next
    case lost
    then show ?thesis using push(2) by (auto simp: pipe_inv_def trace_defs)
  qed
next
  case (take_event s e c K ordB ordS dch r)
  then show ?case using decode_no_panic
    by (cases r) (auto simp: pipe_inv_def trace_defs recv_Some_iff chan_ok_def)
next
  case (deliver s av c)
  then show ?case by (auto simp: pipe_inv_def trace_defs send_Some_iff chan_ok_def)
next
  case (collect s av c)
  then show ?case by (auto simp: pipe_inv_def trace_defs recv_Some_iff chan_ok_def)
qed (auto simp: pipe_inv_def trace_defs)

lemma pipe_run_inv: "pipe_run I (pipe_start n m) tr s \<Longrightarrow> pipe_inv I n tr s"
proof (induction rule: pipe_run.induct)
  case start
  then show ?case by (simp add: pipe_inv_def trace_defs pipe_start_def)
next
  case (step tr s l s')
  then show ?case using pipe_inv_step by blast
qed

section \<open>Order and bounds\<close>

text \<open>
  C7: however the listeners' callbacks, the consumer and the SDK interleave, the accepted events are
  decoded in the order of their acceptance, none twice and none left out before those that still
  wait; the readings reach the SDK in the order of their events; and no more than 256 events and no
  more readings than the SDK's channel holds ever wait.
\<close>

theorem pipeline_fifo:
  assumes "pipe_run I (pipe_start n m) tr s"
  shows "accepted_events I tr = taken_events tr @ ch_buf (pp_received s) \<and>
    produced tr = collected tr @ ch_buf (pp_async s) @ pending (pp_consumer s) \<and>
    length (ch_buf (pp_received s)) \<le> 256 \<and> length (ch_buf (pp_async s)) \<le> n"
  using pipe_run_inv [OF assms] by (auto simp: pipe_inv_def chan_ok_def)

section \<open>Refinement\<close>

text \<open>
  What the path promises, without channels and goroutines: two unbounded queues, of events and of
  readings, and a decoder between them.
\<close>

type_synonym queues = "receive_event list \<times> async_values list"

datatype action = Accept receive_event | Decode receive_event "async_values list" | Emit async_values | Stutter

definition decodes :: "go_impl \<Rightarrow> receive_event \<Rightarrow> async_values list \<Rightarrow> bool" where
  "decodes I e avs \<longleftrightarrow> (\<exists>K ordB ordS dch dch' r. sdk_returns K \<and> visits_all ordB \<and> visits_all ordS \<and>
     decodeReceiveEvent I K ordB ordS e dch = (dch', r) \<and> avs = pending (next_consumer r))"

inductive queue_step :: "go_impl \<Rightarrow> queues \<Rightarrow> action \<Rightarrow> queues \<Rightarrow> bool" for I where
  accept: "queue_step I (es, avs) (Accept e) (es @ [e], avs)"
| decode: "decodes I e new \<Longrightarrow> queue_step I (e # es, avs) (Decode e new) (es, avs @ new)"
| emit: "queue_step I (es, av # avs) (Emit av) (es, avs)"
| stutter: "queue_step I q Stutter q"

inductive queue_run :: "go_impl \<Rightarrow> queues \<Rightarrow> action list \<Rightarrow> queues \<Rightarrow> bool" for I q0 where
  start: "queue_run I q0 [] q0"
| step: "queue_run I q0 as q \<Longrightarrow> queue_step I q a q' \<Longrightarrow> queue_run I q0 (as @ [a]) q'"

definition abs_pipe :: "pipe \<Rightarrow> queues" where
  "abs_pipe s = (ch_buf (pp_received s), ch_buf (pp_async s) @ pending (pp_consumer s))"

fun abs_label :: "go_impl \<Rightarrow> label \<Rightarrow> action" where
  "abs_label I (Push i True) = Accept (the (input_event I i))"
| "abs_label I (Take e r) = Decode e (pending (next_consumer r))"
| "abs_label I (Collect av) = Emit av"
| "abs_label I _ = Stutter"

lemma pipe_step_refines:
  "pipe_step I s l s' \<Longrightarrow> queue_step I (abs_pipe s) (abs_label I l) (abs_pipe s')"
proof (induction rule: pipe_step.induct)
  case (push i s c b)
  from push show ?case
  proof (cases rule: any_push.handle_cases)
    case (put e)
    then show ?thesis using accept by (simp add: abs_pipe_def)
  next
    case lost
    then show ?thesis using stutter by (simp add: abs_pipe_def)
  qed
next
  case (take_event s e c K ordB ordS dch r)
  then have "decodes I e (pending (next_consumer r))" unfolding decodes_def by blast
  then show ?case using take_event decode by (simp add: abs_pipe_def recv_Some_iff)
next
  case (deliver s av c)
  then show ?case using stutter by (simp add: abs_pipe_def send_Some_iff)
next
  case (collect s av c)
  then show ?case using emit by (simp add: abs_pipe_def recv_Some_iff)
qed (auto simp: abs_pipe_def intro: stutter)

text \<open>
  C2: every run of the listeners, the consumer and the SDK is a run of the two queues, with the same
  events accepted and the same readings handed over in the same order.
\<close>

theorem pipeline_refines_queues:
  assumes "pipe_run I s0 tr s"
  shows "queue_run I (abs_pipe s0) (map (abs_label I) tr) (abs_pipe s)"
  using assms
proof (induction rule: pipe_run.induct)
  case start
  show ?case by (simp add: queue_run.start)
next
  case (step tr s l s')
  then show ?case using queue_run.step pipe_step_refines by fastforce
qed

section \<open>Everything accepted is delivered\<close>

fun internal :: "label \<Rightarrow> bool" where
  "internal (Take e r) = True"
| "internal (Deliver av) = True"
| "internal (Collect av) = True"
| "internal CollectDevice = True"
| "internal _ = False"

definition work :: "pipe \<Rightarrow> nat" where
  "work s = 4 * length (ch_buf (pp_received s)) + 2 * length (pending (pp_consumer s)) + length (ch_buf (pp_async s)) +
     length (ch_buf (pp_device s))"

lemma ensureDevice_length: "length (ch_buf (ensureDevice n src dch)) \<le> Suc (length (ch_buf dch))"
  by (simp add: ensureDevice_def try_send_def)

lemma decode_device_length:
  "decodeReceiveEvent I K ordB ordS e dch = (dch', r) \<Longrightarrow> length (ch_buf dch') \<le> Suc (length (ch_buf dch))"
  by (auto simp: decodeReceiveEvent_def decodeMqttPayload_def decodeSnmpTrapPayload_def Let_def
      ensureDevice_length le_SucI split: result.splits if_splits prod.splits)

lemma internal_step: "pipe_step I s l s' \<Longrightarrow> internal l \<Longrightarrow> Suc (work s') \<le> work s \<and> pp_done s' = pp_done s"
proof (induction rule: pipe_step.induct)
  case (take_event s e c K ordB ordS dch r)
  have "length (ch_buf dch) \<le> Suc (length (ch_buf (pp_device s)))" by (rule decode_device_length [OF take_event(6)])
  moreover have "length (pending (next_consumer r)) \<le> 1" by (cases r) auto
  ultimately show ?case using take_event by (simp add: work_def recv_Some_iff)
qed (auto simp: work_def send_Some_iff recv_Some_iff)

lemma internal_run:
  "pipe_run I s tr s' \<Longrightarrow> list_all internal tr \<Longrightarrow> length tr + work s' \<le> work s \<and> pp_done s' = pp_done s"
proof (induction rule: pipe_run.induct)
  case (step tr s l s')
  then show ?case using internal_step by fastforce
qed simp

lemma pipe_run_append: "pipe_run I b tr' c \<Longrightarrow> pipe_run I a tr b \<Longrightarrow> pipe_run I a (tr @ tr') c"
proof (induction rule: pipe_run.induct)
  case (step tr' s l s')
  then show ?case using pipe_run.step by (metis append.assoc)
qed simp

definition some_sdk :: sdk where
  "some_sdk = \<lparr>sk_GetDeviceByName = (\<lambda>_. Inl (ExtError [])), sk_GetProfileByName = (\<lambda>_. Inl (ExtError [])),
     sk_Devices = [], sk_NewCommandValue = (\<lambda>n t v. Ok \<lparr>cv_DeviceResourceName = n, cv_Type = t, cv_Value = v\<rparr>)\<rparr>"

lemma internal_enabled:
  assumes "pipe_inv I n tr s" and "0 < n" and "\<not> pp_done s" and "0 < work s"
  shows "\<exists>l s'. internal l \<and> pipe_step I s l s'"
proof (cases "ch_buf (pp_async s)")
  case (Cons av avs)
  then have "recv (pp_async s) = Some (av, pp_async s\<lparr>ch_buf := avs\<rparr>)" by (simp add: recv_def)
  then show ?thesis using collect by (metis internal.simps(3))
next
  case Nil
  then have room: "send av (pp_async s) = Some (pp_async s\<lparr>ch_buf := [av]\<rparr>)" for av
    using assms(1,2) by (simp add: send_Some_iff pipe_inv_def)
  show ?thesis
  proof (cases "pp_consumer s")
    case (Sending av)
    then show ?thesis using deliver [OF Sending room] internal.simps(2) by blast
  next
    case Exited
    then show ?thesis using assms(1,3) by (simp add: pipe_inv_def)
  next
    case Waiting
    show ?thesis
    proof (cases "ch_buf (pp_received s)")
      case (Cons e es)
      then have r: "recv (pp_received s) = Some (e, pp_received s\<lparr>ch_buf := es\<rparr>)" by (simp add: recv_def)
      obtain dch x where "decodeReceiveEvent I some_sdk (\<lambda>xs. xs) (\<lambda>xs. xs) e (pp_device s) = (dch, x)" by fastforce
      then have "pipe_step I s (Take e x) (s\<lparr>pp_received := pp_received s\<lparr>ch_buf := es\<rparr>, pp_device := dch, pp_consumer := next_consumer x\<rparr>)"
        by (intro pipe_step.take_event [OF Waiting r, of some_sdk "\<lambda>xs. xs" "\<lambda>xs. xs"]) (simp_all add: sdk_returns_def visits_all_def some_sdk_def)
      then show ?thesis using internal.simps(1) by blast
    next
      case Nil2: Nil
      then obtain d ds where "ch_buf (pp_device s) = d # ds"
        using assms(4) Nil Waiting by (cases "ch_buf (pp_device s)") (auto simp: work_def)
      then have "recv (pp_device s) = Some (d, pp_device s\<lparr>ch_buf := ds\<rparr>)" by (simp add: recv_def)
      then show ?thesis using collect_device by (metis internal.simps(4))
    qed
  qed
qed

text \<open>
  C3: without a shutdown, and when the devices are silent, the consumer and the SDK are done after at
  most \<open>work s\<close> steps, in whatever order they run; they cannot get stuck before, and then every
  event that was accepted has been decoded and every reading has reached the SDK.
\<close>

theorem pipeline_drains:
  assumes "pipe_run I (pipe_start n m) tr s" and "0 < n" and "\<not> pp_done s"
    and "pipe_run I s tr' s'" and "list_all internal tr'"
  shows "length tr' \<le> work s \<and>
    ((\<nexists>l s''. internal l \<and> pipe_step I s' l s'') \<longrightarrow>
       accepted_events I (tr @ tr') = taken_events (tr @ tr') \<and> produced (tr @ tr') = collected (tr @ tr'))"
proof -
  note i = internal_run [OF assms(4,5)]
  have inv: "pipe_inv I n (tr @ tr') s'"
    using pipe_run_inv pipe_run_append [OF assms(4,1)] by blast
  have "accepted_events I (tr @ tr') = taken_events (tr @ tr') \<and> produced (tr @ tr') = collected (tr @ tr')"
    if "\<nexists>l s''. internal l \<and> pipe_step I s' l s''"
  proof -
    have "work s' = 0" using that internal_enabled [OF inv assms(2)] i assms(3) by (metis neq0_conv)
    then show ?thesis using inv by (simp add: work_def pipe_inv_def)
  qed
  then show ?thesis using i by simp
qed

section \<open>Pushes over HTTP are lost\<close>

text \<open>
  C31: a push the HTTP listener acknowledges with 200 is queued and then always dropped: whatever the
  devices, profiles and channels, decoding it is an error, so it never becomes a reading.
\<close>

theorem http_push_discarded:
  assumes "handlePush I (now, req) c = (c', r)" and "rp_status r = 200"
  shows "\<exists>e. ch_buf c' = ch_buf c @ [e] \<and>
    (\<forall>K ordB ordS dch. decodeReceiveEvent I K ordB ordS e dch = (dch, Err (Errorf ''unknown source: %s'' [''http''])))"
  using assms(1)
proof (cases rule: http_push.handle_cases)
  case (put e)
  then have "ev_Source e = ''http''"
    by (auto simp: push_event_def http_event_def split: result.splits if_splits)
  then show ?thesis using put(3) by (auto simp: decodeReceiveEvent_def)
next
  case lost
  then show ?thesis using assms(2) by simp
qed

theorem http_push_discarded_witness:
  "\<forall>I. \<exists>c' r e. handlePush I (0, \<lparr>pr_Method = ''POST'', pr_Body = Inr ''on''\<rparr>) (make_chan 1) = (c', r) \<and> rp_status r = 200 \<and>
     ch_buf c' = [e] \<and> (\<forall>K dch. snd (decodeReceiveEvent I K (\<lambda>x. x) (\<lambda>x. x) e dch) = Err (Errorf ''unknown source: %s'' [''http'']))"
proof
  fix I
  obtain c' r where h: "handlePush I (0, \<lparr>pr_Method = ''POST'', pr_Body = Inr ''on''\<rparr>) (make_chan 1) = (c', r)" by fastforce
  then have ok: "rp_status r = 200"
    by (auto simp: handlePush_def read_limited_def maxBodyBytes_def try_send_def make_chan_def)
  obtain e where e: "ch_buf c' = ch_buf (make_chan 1) @ [e]"
    "\<forall>K ordB ordS dch. decodeReceiveEvent I K ordB ordS e dch = (dch, Err (Errorf ''unknown source: %s'' [''http'']))"
    using http_push_discarded [OF h ok] by blast
  show "\<exists>c' r e. handlePush I (0, \<lparr>pr_Method = ''POST'', pr_Body = Inr ''on''\<rparr>) (make_chan 1) = (c', r) \<and> rp_status r = 200 \<and>
     ch_buf c' = [e] \<and> (\<forall>K dch. snd (decodeReceiveEvent I K (\<lambda>x. x) (\<lambda>x. x) e dch) = Err (Errorf ''unknown source: %s'' [''http'']))"
    by (rule exI [of _ c'], rule exI [of _ r], rule exI [of _ e]) (use h ok e in simp)
qed

text \<open>So in any run every reading comes from an event of one of the other two listeners.\<close>

inductive_cases take_stepE: "pipe_step I s (Take e r) s'"

lemma decoded_sources:
  "decodeReceiveEvent I K ordB ordS e dch = (dch', Ok av) \<Longrightarrow> ev_Source e \<in> {''mqtt'', ''snmp''}"
  by (auto simp: decodeReceiveEvent_def split: if_splits)

lemma reading_sources:
  "pipe_run I s0 tr s \<Longrightarrow> Take e (Ok av) \<in> set tr \<Longrightarrow> ev_Source e \<in> {''mqtt'', ''snmp''}"
proof (induction rule: pipe_run.induct)
  case (step tr s l s')
  then show ?case by (auto elim!: take_stepE dest: decoded_sources)
qed simp

section \<open>A run\<close>

text \<open>A device publishes a reading over MQTT; it is queued, decoded, delivered and collected.\<close>

definition demo_packet :: packet where
  "demo_packet = \<lparr>pk_TopicName = ''t'', pk_Payload = ''{\"device_name\":\"d\",\"data\":{\"s\":\"on\"}}''\<rparr>"

definition demo_av :: async_values where
  "demo_av = \<lparr>av_DeviceName = ''d'', av_SourceName = ''s'',
     av_CommandValues = [\<lparr>cv_DeviceResourceName = ''s'', cv_Type = ''String'', cv_Value = VString ''on''\<rparr>]\<rparr>"

lemma demo_envelope: "unmarshal_envelope ''device_name'' (pk_Payload demo_packet) = Ok (''d'', [(''s'', VString ''on'')])"
  by code_simp

lemma demo_decode:
  "decodeReceiveEvent I some_sdk (\<lambda>xs. xs) (\<lambda>xs. xs) (mqtt_event 0 demo_packet) dch =
     (ensureDevice ''d'' ''mqtt'' dch, Ok demo_av)"
  by (simp add: decodeReceiveEvent_def decodeMqttPayload_def mqtt_event_def demo_envelope lookupProfile_def some_sdk_def
      resolveFieldType_def first_key_def demo_av_def)

lemma some_sdk_returns: "sdk_returns some_sdk" "visits_all (\<lambda>xs. xs)"
  by (simp_all add: sdk_returns_def some_sdk_def visits_all_def)

abbreviation demo_push :: push where
  "demo_push \<equiv> MqttPush (0, demo_packet)"

lemma demo_run:
  obtains s where "pipe_run I (pipe_start 1 1) [Push demo_push True] s" "ch_buf (pp_received s) = [mqtt_event 0 demo_packet]"
    "\<not> pp_done s" "pp_consumer s = Waiting" "pp_async s = make_chan 1" "work s = 4"
proof -
  let ?c = "(make_chan 256)\<lparr>ch_buf := [mqtt_event 0 demo_packet]\<rparr>"
  have "handle_input I demo_push (pp_received (pipe_start 1 1)) = (?c, True)"
    by (simp add: OnPublish_def try_send_def pipe_start_def make_chan_def)
  from pipe_step.push [OF this]
  have "pipe_run I (pipe_start 1 1) [Push demo_push True] ((pipe_start 1 1)\<lparr>pp_received := ?c\<rparr>)"
    using pipe_run.step [OF pipe_run.start] by fastforce
  then show thesis by (rule that) (simp_all add: pipe_start_def work_def)
qed

lemma demo_take:
  assumes "ch_buf (pp_received s) = [mqtt_event 0 demo_packet]" and "pp_consumer s = Waiting"
  shows "\<exists>s'. pipe_step I s (Take (mqtt_event 0 demo_packet) (Ok demo_av)) s' \<and> pp_done s' = pp_done s"
proof -
  have "recv (pp_received s) = Some (mqtt_event 0 demo_packet, pp_received s\<lparr>ch_buf := []\<rparr>)" using assms(1) by (simp add: recv_def)
  from pipe_step.take_event [OF assms(2) this some_sdk_returns(1,2,2) demo_decode, of I]
  show ?thesis by (intro exI conjI) (assumption, simp)
qed

theorem pipeline_fifo_witness:
  "\<forall>I. \<exists>tr s. pipe_run I (pipe_start 1 1) tr s \<and> taken_events tr = [mqtt_event 0 demo_packet] \<and> produced tr = [demo_av] \<and>
     accepted_events I tr = taken_events tr @ ch_buf (pp_received s)"
proof
  fix I
  obtain s where s: "pipe_run I (pipe_start 1 1) [Push demo_push True] s" "ch_buf (pp_received s) = [mqtt_event 0 demo_packet]"
    "pp_consumer s = Waiting" by (rule demo_run)
  obtain s' where t: "pipe_step I s (Take (mqtt_event 0 demo_packet) (Ok demo_av)) s'" using demo_take [OF s(2,3)] by blast
  let ?tr = "[Push demo_push True] @ [Take (mqtt_event 0 demo_packet) (Ok demo_av)]"
  have "pipe_run I (pipe_start 1 1) ?tr s'" by (rule pipe_run.step [OF s(1) t])
  with pipeline_fifo [OF this]
  show "\<exists>tr s. pipe_run I (pipe_start 1 1) tr s \<and> taken_events tr = [mqtt_event 0 demo_packet] \<and> produced tr = [demo_av] \<and>
     accepted_events I tr = taken_events tr @ ch_buf (pp_received s)"
    by (intro exI [of _ ?tr] exI [of _ s']) (simp add: taken_events_def produced_def)
qed

theorem pipeline_refines_queues_witness:
  "\<forall>I. \<exists>s. queue_run I ([], []) [Accept (mqtt_event 0 demo_packet)] ([mqtt_event 0 demo_packet], []) \<and>
     abs_pipe s = ([mqtt_event 0 demo_packet], [])"
proof
  fix I
  obtain s where s: "pipe_run I (pipe_start 1 1) [Push demo_push True] s" "ch_buf (pp_received s) = [mqtt_event 0 demo_packet]"
    "pp_consumer s = Waiting" "pp_async s = make_chan 1" by (rule demo_run)
  have "abs_pipe s = ([mqtt_event 0 demo_packet], [])" using s by (simp add: abs_pipe_def)
  then show "\<exists>s. queue_run I ([], []) [Accept (mqtt_event 0 demo_packet)] ([mqtt_event 0 demo_packet], []) \<and>
     abs_pipe s = ([mqtt_event 0 demo_packet], [])"
    using pipeline_refines_queues [OF s(1)] by (auto simp: abs_pipe_def pipe_start_def)
qed

theorem pipeline_drains_witness:
  "\<forall>I. \<exists>s tr s'. pipe_run I (pipe_start 1 1) [Push demo_push True] s \<and> pipe_run I s tr s' \<and> length tr = 1 \<and> length tr \<le> work s"
proof
  fix I
  obtain s where s: "pipe_run I (pipe_start 1 1) [Push demo_push True] s" "ch_buf (pp_received s) = [mqtt_event 0 demo_packet]"
    "\<not> pp_done s" "pp_consumer s = Waiting" by (rule demo_run)
  obtain s' where t: "pipe_step I s (Take (mqtt_event 0 demo_packet) (Ok demo_av)) s'" using demo_take [OF s(2,4)] by blast
  let ?tr = "[] @ [Take (mqtt_event 0 demo_packet) (Ok demo_av)]"
  have r: "pipe_run I s ?tr s'" by (rule pipe_run.step [OF pipe_run.start t])
  have "length ?tr \<le> work s" using pipeline_drains [OF s(1) _ s(3) r] by simp
  then show "\<exists>s tr s'. pipe_run I (pipe_start 1 1) [Push demo_push True] s \<and> pipe_run I s tr s' \<and> length tr = 1 \<and> length tr \<le> work s"
    using s(1) r by (intro exI [of _ s] exI [of _ ?tr] exI [of _ s']) simp
qed

theorem ingest_order_independent_witness:
  "\<forall>I dch. \<exists>d r. decodeReceiveEvent I some_sdk rev rev (mqtt_event 0 demo_packet) dch = (d, r) \<and>
     d = ensureDevice ''d'' ''mqtt'' dch \<and> same_readings (Ok demo_av) r"
proof (intro allI)
  fix I dch
  obtain d r where r: "decodeReceiveEvent I some_sdk rev rev (mqtt_event 0 demo_packet) dch = (d, r)" by fastforce
  have "visits_all rev" by (simp add: visits_all_def)
  from ingest_order_independent [OF some_sdk_returns(1,2) this demo_decode r] r
  show "\<exists>d r. decodeReceiveEvent I some_sdk rev rev (mqtt_event 0 demo_packet) dch = (d, r) \<and>
     d = ensureDevice ''d'' ''mqtt'' dch \<and> same_readings (Ok demo_av) r" by auto
qed

end
