(* ===== verification/Spec2Isabelle.thy ===== *)
theory Spec2Isabelle
  imports Traps Safety Pipeline
begin

text \<open>
  NexIoT-go is an EdgeX device service written in Go. Its driver polls industrial devices over Modbus
  TCP/RTU, SNMP, OPC UA and HTTP when the SDK sends read and write commands, and receives what devices
  push over HTTP, MQTT and SNMP traps. This development models that code and proves what makes it
  correct; where the code does not do what it is meant to, the theorem states what it does.

  \<^bold>\<open>How the program is put together.\<close>
  A command of the SDK reaches \<open>HandleReadCommands\<close> or \<open>HandleWriteCommands\<close> of \<open>internal/driver/drive.go\<close>.
  The driver resolves the device's protocol configuration (\<open>pkg/model\<close>), gets a client from the pool
  (\<open>pkg/protocol/poller.go\<close>), which makes and connects one on the first use, and calls one of the four
  handlers of \<open>pkg/protocol/connector.go\<close>. A handler builds resources from the requests, calls the adapter
  (\<open>pkg/adapter\<close>: modbus, snmp, opcua, httpclient), decodes (\<open>pkg/parser\<close>) and types (\<open>pkg/conv\<close>) the values, and
  returns SDK command values. On the passive path the listeners (\<open>pkg/adapter/listener_http\<close>,
  \<open>listener_mqtt\<close>, \<open>listener_snmp\<close>), held by the set of \<open>pkg/protocol/listener.go\<close>, put events on one bounded
  channel; one goroutine of the driver decodes them and sends the readings to the SDK.

  \<^bold>\<open>Conventions.\<close>
  A Go struct is a record with the struct's fields, an enumeration a datatype, an integer a word of its
  width, a string or \<open>[]byte\<close> a list of 8-bit characters, and a map either a function into options or,
  where the iteration order can matter, a list of pairs. \<open>(T, error)\<close> is \<open>T result\<close> of \<open>Prelude\<close>, whose
  third case is a run-time panic. Objects that are shared through pointers (the pool's clients, the
  channels, third-party client handles) live in explicit stores and are named by their index. A loop over a
  slice is structural recursion; a loop over a map takes the order of the visit as an argument. Locks are
  not modelled as such: code under a lock is one step, and code outside one is split at its accesses where
  a property depends on it.

  \<^bold>\<open>The theories\<close>, in the order they build on each other:

  \<^item> \<open>Prelude\<close>: errors, results, sequencing of fallible calls, loops that stop at the first error, the
    simplification collections, generic lemmas.
  \<^item> \<open>GoFloat\<close>: \<open>float32\<close> and \<open>float64\<close> as IEEE bit patterns, rounding to nearest even, conversions. Integers
    below \<open>2^53\<close> survive the way through \<open>float64\<close>, and so does every \<open>float32\<close> that is a number.
  \<^item> \<open>GoValue\<close>: \<open>interface{}\<close> values and the functions of strconv, strings, fmt and bytes that are called.
  \<^item> \<open>Conv\<close>: \<open>pkg/conv/conv.go\<close> and \<open>reflect.go\<close>. \<open>ValueToType\<close> yields a value of the Go type that the EdgeX
    type stands for, or an error; a number that came through JSON keeps its integer value.
  \<^item> \<open>Codec\<close>: \<open>pkg/parser\<close>. Each decoder is undone by its encoder on every register pair or triple, and a
    32-bit number survives the way to registers and back.
  \<^item> \<open>Model\<close>: \<open>pkg/model\<close>. Protocol names; the process-wide configuration cache (\<open>sync.Map\<close>) with
    \<open>ResolveProtocolConfig\<close>, its histories of operations (\<open>cache_op\<close>), and its concurrent callers as the step
    relation \<open>resolve_step\<close>; resources built from requests in any order of the attributes; events; the
    listener configuration.
  \<^item> \<open>Connector\<close>: \<open>pkg/protocol/connector.go\<close>. The adapter interfaces are the locales \<open>session\<close> and \<open>reader\<close>,
    joined in \<open>rw_client\<close>, whose laws say that a connected client stays usable and does not dereference nil, the
    single read and the writes under a condition \<open>complete\<close> on the third-party package (\<open>True\<close> for all but
    OPC UA, whose package may answer nil pointers without an error); the four handlers are definitions over
    any adapter.
  \<^item> \<open>Modbus\<close>, \<open>Snmp\<close>, \<open>Opcua\<close>, \<open>Httpclient\<close>: the adapters, each a record for the client, one definition per
    method and helper, and an interpretation of the locales. A Modbus batch read within one request answers what
    single reads from the first point's table would; an OPC UA batch read is related to the single reads for
    any statuses and values of the nodes (\<open>Node.Value\<close>, \<open>Read\<close> and \<open>Write\<close> answer options, a nil pointer being
    \<open>None\<close>; the single read of a good node without a value panics). A contiguous Modbus batch write puts every
    value at its own register, SNMP's answers go to the resources by object identifier, an SNMP write reads
    back from an agent that keeps what it accepts (\<open>agent_stores\<close>, with the Go types in \<open>wire_value\<close>), and every
    operation of the HTTP client keeps its token and its login settings consistent.
  \<^item> \<open>Json\<close>: the part of encoding/json that is called. The parser's fuel is the text's length doubled plus two, and
    any larger amount gives the same answer, so running out is not an outcome of its own; what
    \<open>marshal\<close> prints is read back.
  \<^item> \<open>Poller\<close>: \<open>pkg/protocol/poller.go\<close> over one datatype of the four clients, which interprets the locales
    too. The pool holds at most its limit of clients, one per endpoint, each an object of the store;
    callers that race (\<open>race_step\<close>) can exceed the limit by their number less one and no more.
  \<^item> \<open>Channel\<close>: buffered channels and the locale \<open>producer\<close>, the contract of a callback that offers at most one
    event and never waits.
  \<^item> \<open>Listeners\<close>: the three receivers, their callbacks as interpretations of \<open>producer\<close>, their life cycles
    and what a stop between two steps of a start does.
  \<^item> \<open>Receivers\<close>: \<open>pkg/protocol/listener.go\<close>. \<open>stop_call\<close> and \<open>released\<close> are what stopping is to do to a listener's
    server and to the listener, stated apart from the code; the loop of \<open>StopAll\<close> does it to every one.
  \<^item> \<open>Ingest\<close>: the driver's decoding of an event: device and profile look-up, payload decoders, typing of fields.
    \<open>reads_as\<close> is a table of the readings a field is to give by its declared type, stated apart from the code;
    a payload yields exactly these. The order of Go's map iteration changes only the order of the readings.
  \<^item> \<open>Traps\<close>: a trap encoded by the SNMP listener is decoded by the driver to the trap's variables, for ASCII
    texts, booleans and integers of any width (as the nearest \<open>float64\<close>).
  \<^item> \<open>Driver\<close>: the driver's record and every method of it.
  \<^item> \<open>Commands\<close>: the driver under any sequence of commands and callbacks, and its start and stop.
  \<^item> \<open>Safety\<close>: commands do not dereference nil, from the interpretation of \<open>rw_client\<close> on the pool's clients; for
    single reads and writes as long as the OPC UA package answers no nil pointer without an error.
  \<^item> \<open>Pipeline\<close>: the passive path as the step relation \<open>pipe_step\<close>, which refines two abstract queues: nothing is
    reordered or duplicated, whatever was accepted can be drained, and what is dropped is stated.

  \<^bold>\<open>Bounds.\<close> The event channel holds 256 events (\<open>maxDataChannelSize\<close>), the driver's pool 30 clients; register
  addresses are 16 bits and wrap; the JSON parser's fuel is proved enough. Every other recursion is structural or
  has a termination proof.

  \<^bold>\<open>Arguments of the model.\<close> What is not in this repository is an argument of the definitions that use it:
  the Modbus, SNMP and OPC UA packages, the network behind net/http, the MQTT broker and the trap socket are
  records of calls on an abstract world (\<open>modbus_api\<close>, \<open>snmp_api\<close>, \<open>opcua_api\<close>, \<open>http_api\<close>, \<open>mqtt_api\<close>);
  the EdgeX SDK is the record of \<open>Ingest\<close> and the environment of \<open>Driver\<close>, with the documented laws \<open>sdk_typed\<close> of
  \<open>NewCommandValue\<close> (it takes only values whose Go type is the value type's) and \<open>sdk_exact\<close> (it takes all of them). \<open>go_impl\<close> holds what the
  Go specification leaves to the implementation: a float converted to an integer type that cannot hold it, and
  the shortest decimal form of a float, besides the JSON text of values the program only passes on. The time,
  the orders of map iterations and the pattern check of the HTTP mux are arguments as well.

  \<^bold>\<open>Not modelled.\<close> Logging, which no value depends on. \<open>cmd/main.go\<close>, one call of the SDK's bootstrap. The
  struct \<open>AsyncData\<close> of \<open>pkg/model\<close>, which nothing uses. The texts of errors made by encoding/json and by
  third-party packages. Case folding outside ASCII. The effects of
  data races under Go's memory model: a racy map access is a step of its own here, where Go may also abort the
  process. The adapters' methods are atomic with respect to each other, since the driver's commands are
  modelled one at a time (the pool's race apart). Tests, the resource files and the scripts are data of the
  repository and not part of the program.
\<close>

end
